(* ===== verification/Prelude.thy ===== *)
theory Prelude
  imports Main "HOL-Library.Char_ord" "HOL-Library.List_Lexorder" "HOL-Library.Product_Lexorder"
begin

text \<open>
  What every component shares: Python values and exceptions, the result type of code that may
  raise, the loops that stop at the first raise, and Python string helpers.

  A Python \<open>str\<close> is a \<^typ>\<open>string\<close>; a character stands for one code point, so the model covers
  the strings over U+0000 to U+00FF and \<^const>\<open>length\<close> counts what \<open>len\<close> counts. The library
  orders on characters and lists are Python's order on \<open>str\<close> (by code point), and
  \<^const>\<open>sort_key\<close> is stable, as \<open>sorted\<close> is. The em dash of some diagnostics is written as two
  hyphens.
\<close>

named_theorems result_simps \<open>equations of the result type\<close>
named_theorems value_ok \<open>what a constructor's success says about its arguments\<close>

section \<open>Exceptions and results\<close>

text \<open>
  The exception classes the code raises or catches; the text is the exception's message. An
  \<open>AdapterError\<close> carries one of the eight kinds of \<open>adapters.ErrorKind\<close>.
\<close>

datatype error_kind =
    INVALID_DESIRED_STATE | UNAVAILABLE_HOST | REGISTRATION_FAILURE | RUNTIME_FAILURE
  | CLEANUP_FAILURE | CAPACITY_EXHAUSTION | POLICY_DENIAL | UNKNOWN_STATE

datatype exc_class =
    ModelError | PlanError | AuditError | AuthorizationError | ApplyError
  | ObservationError | ReconcileError | ChannelError | OperationRefused | StateError
  | AdapterContractError | ContractError | SchemaError | PyValueError | PyTypeError | PyKeyError
  | PyRecursionError
  | PyOverflowError | PyAttributeError | AdapterError error_kind

datatype exn = Exn (exn_class: exc_class) (exn_text: string)

type_synonym 'a res = "exn + 'a"

text \<open>\<open>except ValueError\<close> also catches the package's own subclasses of it.\<close>

fun is_value_error :: "exn \<Rightarrow> bool" where
  "is_value_error (Exn c m) =
     (case c of
        AdapterError k \<Rightarrow> False
      | _ \<Rightarrow> c \<notin> {AuthorizationError, PyTypeError, PyKeyError, PyRecursionError, PyOverflowError,
                    PyAttributeError})"

definition raise :: "exc_class \<Rightarrow> string \<Rightarrow> 'a res" where
  "raise c m = Inl (Exn c m)"

definition bindR :: "('e + 'a) \<Rightarrow> ('a \<Rightarrow> 'e + 'b) \<Rightarrow> 'e + 'b" where
  "bindR m f = (case m of Inl e \<Rightarrow> Inl e | Inr a \<Rightarrow> f a)"

text \<open>The answer of code that may raise, without the reason of a refusal.\<close>

definition answer_of :: "('e + 'a) \<Rightarrow> 'a option" where
  "answer_of m = (case m of Inl e \<Rightarrow> None | Inr a \<Rightarrow> Some a)"

text \<open>\<open>try: m except E as exc: raise F(g(exc))\<close>, for the exceptions \<open>p\<close> selects.\<close>

definition mapErr :: "(exn \<Rightarrow> bool) \<Rightarrow> (exn \<Rightarrow> exn) \<Rightarrow> 'a res \<Rightarrow> 'a res" where
  "mapErr p g m = (case m of Inl e \<Rightarrow> if p e then Inl (g e) else Inl e | Inr a \<Rightarrow> Inr a)"

definition of_class :: "exc_class \<Rightarrow> exn \<Rightarrow> bool" where
  "of_class c e \<longleftrightarrow> exn_class e = c"

text \<open>A sequence of guards \<open>if not b: raise E(...)\<close>: the first that fails is raised.\<close>

fun run_checks :: "(bool \<times> 'e) list \<Rightarrow> 'e + unit" where
  "run_checks [] = Inr ()"
| "run_checks ((ok, e) # cs) = (if ok then run_checks cs else Inl e)"

text \<open>A comprehension or loop over \<open>enumerate(items)\<close> whose body may raise.\<close>

fun eachR :: "(nat \<Rightarrow> 'a \<Rightarrow> 'e + 'b) \<Rightarrow> nat \<Rightarrow> 'a list \<Rightarrow> 'e + 'b list" where
  "eachR f n [] = Inr []"
| "eachR f n (x # xs) =
     bindR (f n x) (\<lambda>y. bindR (eachR f (Suc n) xs) (\<lambda>ys. Inr (y # ys)))"

definition mapR :: "('a \<Rightarrow> 'e + 'b) \<Rightarrow> 'a list \<Rightarrow> 'e + 'b list" where
  "mapR f xs = eachR (\<lambda>_. f) 0 xs"

text \<open>A loop that threads a state through its body.\<close>

fun foldR :: "('a \<Rightarrow> 's \<Rightarrow> 'e + 's) \<Rightarrow> 'a list \<Rightarrow> 's \<Rightarrow> 'e + 's" where
  "foldR f [] s = Inr s"
| "foldR f (x # xs) s = bindR (f x s) (foldR f xs)"

section \<open>Python values\<close>

text \<open>
  A value of the JSON shape the document layers read. A finite \<open>float\<close> is kept as its
  \<open>repr\<close>; of the non-finite ones, an infinity says whether it is the negative one.
\<close>

datatype pyval =
    PNone
  | PBool bool
  | PInt int
  | PFloat string
  | PInf bool
  | PNaN
  | PStr string
  | PList "pyval list"
  | PDict "(string \<times> pyval) list"

definition py_get :: "(string \<times> pyval) list \<Rightarrow> string \<Rightarrow> pyval" where
  "py_get d k = (case map_of d k of None \<Rightarrow> PNone | Some v \<Rightarrow> v)"

definition opt_str :: "string option \<Rightarrow> pyval" where
  "opt_str x = (case x of None \<Rightarrow> PNone | Some s \<Rightarrow> PStr s)"

text \<open>\<open>bool(v)\<close>.\<close>

definition truthy :: "pyval \<Rightarrow> bool" where
  "truthy v =
     (case v of
        PNone \<Rightarrow> False
      | PBool b \<Rightarrow> b
      | PInt i \<Rightarrow> i \<noteq> 0
      | PFloat s \<Rightarrow> s \<noteq> ''0.0'' \<and> s \<noteq> ''-0.0''
      | PInf b \<Rightarrow> True
      | PNaN \<Rightarrow> True
      | PStr s \<Rightarrow> s \<noteq> []
      | PList vs \<Rightarrow> vs \<noteq> []
      | PDict d \<Rightarrow> d \<noteq> [])"

section \<open>Strings\<close>

definition code :: "char \<Rightarrow> nat" where
  "code c = of_char c"

definition is_digit :: "char \<Rightarrow> bool" where
  "is_digit c \<longleftrightarrow> 48 \<le> code c \<and> code c \<le> 57"

definition is_lower :: "char \<Rightarrow> bool" where
  "is_lower c \<longleftrightarrow> 97 \<le> code c \<and> code c \<le> 122"

definition is_upper :: "char \<Rightarrow> bool" where
  "is_upper c \<longleftrightarrow> 65 \<le> code c \<and> code c \<le> 90"

definition is_alnum :: "char \<Rightarrow> bool" where
  "is_alnum c \<longleftrightarrow> is_lower c \<or> is_upper c \<or> is_digit c"

definition is_hex :: "char \<Rightarrow> bool" where
  "is_hex c \<longleftrightarrow> is_digit c \<or> 97 \<le> code c \<and> code c \<le> 102"

definition newline :: char where
  "newline = CHR 0x0A"

text \<open>A pattern that ends in \<open>$\<close> also matches just before one final newline.\<close>

definition dollar :: "(string \<Rightarrow> bool) \<Rightarrow> string \<Rightarrow> bool" where
  "dollar p s \<longleftrightarrow> p s \<or> (s \<noteq> [] \<and> last s = newline \<and> p (butlast s))"

definition digit :: "nat \<Rightarrow> char" where
  "digit n = char_of (48 + n)"

definition digit_val :: "char \<Rightarrow> nat" where
  "digit_val c = code c - 48"

fun nat_str :: "nat \<Rightarrow> string" where
  "nat_str n = (if n < 10 then [digit n] else nat_str (n div 10) @ [digit (n mod 10)])"

declare nat_str.simps [simp del]

definition int_str :: "int \<Rightarrow> string" where
  "int_str i = (if i < 0 then ''-'' @ nat_str (nat (- i)) else nat_str (nat i))"

text \<open>\<open>"%0wd" % n\<close> for a number of at most \<open>w\<close> digits.\<close>

fun zpad :: "nat \<Rightarrow> nat \<Rightarrow> string" where
  "zpad 0 n = []"
| "zpad (Suc w) n = zpad w (n div 10) @ [digit (n mod 10)]"

definition num_of :: "string \<Rightarrow> nat" where
  "num_of ds = foldl (\<lambda>a d. 10 * a + digit_val d) 0 ds"

fun join :: "string \<Rightarrow> string list \<Rightarrow> string" where
  "join sep [] = []"
| "join sep [x] = x"
| "join sep (x # y # ys) = x @ sep @ join sep (y # ys)"

definition starts_with :: "string \<Rightarrow> string \<Rightarrow> bool" where
  "starts_with p s \<longleftrightarrow> take (length p) s = p"

text \<open>\<open>s.replace(old, new)\<close> for a non-empty \<open>old\<close>: left to right, without overlaps.\<close>

function replace_all :: "string \<Rightarrow> string \<Rightarrow> string \<Rightarrow> string" where
  "replace_all old new s =
     (if s = [] \<or> old = [] then s
      else if starts_with old s then new @ replace_all old new (drop (length old) s)
      else hd s # replace_all old new (tl s))"
  by pat_completeness auto
termination
  by (relation "measure (\<lambda>(old, new, s). length s)") auto

declare replace_all.simps [simp del]

definition index_str :: "string \<Rightarrow> nat \<Rightarrow> string" where
  "index_str w i = w @ ''['' @ nat_str i @ '']''"

definition to_lower :: "char \<Rightarrow> char" where
  "to_lower c = (if is_upper c then char_of (code c + 32) else c)"

text \<open>\<open>repr\<close> of a \<open>str\<close>: the quote it chooses, and its escapes.\<close>

definition repr_char :: "char \<Rightarrow> char \<Rightarrow> string" where
  "repr_char q c =
     (if c = q \<or> c = CHR 0x5C then [CHR 0x5C, c]
      else if code c = 9 then [CHR 0x5C, CHR ''t'']
      else if code c = 10 then [CHR 0x5C, CHR ''n'']
      else if code c = 13 then [CHR 0x5C, CHR ''r'']
      else if code c < 32 \<or> (127 \<le> code c \<and> code c \<le> 160) \<or> code c = 173
      then [CHR 0x5C, CHR ''x''] @ map (\<lambda>n. if n < 10 then digit n else char_of (87 + n))
             [code c div 16, code c mod 16]
      else [c])"

definition py_repr :: "string \<Rightarrow> string" where
  "py_repr s =
     (let q = (if CHR 0x27 \<in> set s \<and> CHR 0x22 \<notin> set s then CHR 0x22 else CHR 0x27) in
      [q] @ concat (map (repr_char q) s) @ [q])"

section \<open>Lemmas\<close>

subsection \<open>Results\<close>

lemma raise_Inr [simp]: "raise c m \<noteq> Inr a" "Inr a \<noteq> raise c m"
  by (simp_all add: raise_def)

lemma bindR_Inl [simp]: "bindR (Inl e) f = Inl e"
  by (simp add: bindR_def)

lemma bindR_Inr [simp]: "bindR (Inr a) f = f a"
  by (simp add: bindR_def)

lemma bindR_raise [simp]: "bindR (raise c m) f = raise c m"
  by (simp add: bindR_def raise_def)

lemma bindR_Inr_iff [result_simps]:
  "bindR m f = Inr b \<longleftrightarrow> (\<exists>a. m = Inr a \<and> f a = Inr b)"
  by (cases m) auto

lemma answer_of_simps [simp]: "answer_of (Inr a) = Some a" "answer_of (Inl e) = None" "answer_of (raise c m) = None"
  by (simp_all add: answer_of_def raise_def)

lemma answer_of_Some: "answer_of m = Some a \<longleftrightarrow> m = Inr a"
  by (cases m) simp_all

lemma bindR_Inl_iff:
  "bindR m f = Inl e \<longleftrightarrow> m = Inl e \<or> (\<exists>a. m = Inr a \<and> f a = Inl e)"
  by (cases m) auto

lemma bindR_cong [fundef_cong]:
  "m = n \<Longrightarrow> (\<And>a. n = Inr a \<Longrightarrow> f a = g a) \<Longrightarrow> bindR m f = bindR n g"
  by (cases n) auto

lemma mapErr_Inr_iff [result_simps]: "mapErr p g m = Inr a \<longleftrightarrow> m = Inr a"
  by (cases m) (auto simp: mapErr_def)

lemma mapErr_Inr [simp]: "mapErr p g (Inr a) = Inr a"
  by (simp add: mapErr_def)

lemma run_checks_ok [result_simps]: "run_checks cs = Inr u \<longleftrightarrow> list_all fst cs"
  by (induction cs rule: run_checks.induct) auto

lemma run_checks_Inl_mem: "run_checks cs = Inl e \<Longrightarrow> e \<in> snd ` set cs"
  by (induction cs rule: run_checks.induct) (auto split: if_splits)

lemma eachR_ok: "eachR f n xs = Inr ys \<longleftrightarrow>
    length ys = length xs \<and> (\<forall>i < length xs. f (n + i) (xs ! i) = Inr (ys ! i))"
proof (induction xs arbitrary: n ys)
  case Nil
  then show ?case by auto
next
  case (Cons x xs)
  show ?case
  proof (cases ys)
    case Nil
    then show ?thesis by (auto simp: bindR_Inr_iff)
  next
    case ys: (Cons y zs)
    have "eachR f n (x # xs) = Inr ys \<longleftrightarrow> f n x = Inr y \<and> eachR f (Suc n) xs = Inr zs"
      by (auto simp: ys bindR_Inr_iff)
    also have "\<dots> \<longleftrightarrow> length ys = length (x # xs) \<and>
        (\<forall>i < length (x # xs). f (n + i) ((x # xs) ! i) = Inr (ys ! i))"
      by (auto simp: Cons.IH ys less_Suc_eq_0_disj)
    finally show ?thesis .
  qed
qed

lemma mapR_ok: "mapR f xs = Inr ys \<longleftrightarrow>
    length ys = length xs \<and> (\<forall>i < length xs. f (xs ! i) = Inr (ys ! i))"
  by (simp add: mapR_def eachR_ok)

lemma eachR_same_ok: "(\<And>i x y. f i x = Inr y \<Longrightarrow> y = x) \<Longrightarrow>
    eachR f n xs = Inr ys \<longleftrightarrow> ys = xs \<and> (\<forall>i < length xs. f (n + i) (xs ! i) = Inr (xs ! i))"
  by (auto simp: eachR_ok intro!: nth_equalityI)

lemma mapR_Inr_map: "(\<And>x. x \<in> set xs \<Longrightarrow> f x = Inr (g x)) \<Longrightarrow> mapR f xs = Inr (map g xs)"
  by (auto simp: mapR_ok)

lemma foldR_append: "foldR f (xs @ ys) s = bindR (foldR f xs s) (foldR f ys)"
proof (induction xs arbitrary: s)
  case Nil
  then show ?case by simp
next
  case (Cons x xs)
  then show ?case by (cases "f x s") auto
qed

lemma foldR_invariant:
  assumes "foldR f xs s = Inr t" and "P s"
    and "\<And>x u v. x \<in> set xs \<Longrightarrow> P u \<Longrightarrow> f x u = Inr v \<Longrightarrow> P v"
  shows "P t"
  using assms by (induction xs arbitrary: s) (auto simp: bindR_Inr_iff)

lemma foldR_cong [fundef_cong]:
  "xs = ys \<Longrightarrow> s = t \<Longrightarrow> (\<And>x u. x \<in> set ys \<Longrightarrow> f x u = g x u) \<Longrightarrow> foldR f xs s = foldR g ys t"
  by (induction ys arbitrary: xs s t) (auto intro: bindR_cong)

subsection \<open>Digits and numbers\<close>

lemma code_digit [simp]: "n < 10 \<Longrightarrow> code (digit n) = 48 + n"
  by (simp add: code_def digit_def)

lemma is_digit_digit [simp]: "n < 10 \<Longrightarrow> is_digit (digit n)"
  by (simp add: is_digit_def)

lemma digit_val_digit [simp]: "n < 10 \<Longrightarrow> digit_val (digit n) = n"
  by (simp add: digit_val_def)

lemma length_zpad [simp]: "length (zpad w n) = w"
  by (induction w arbitrary: n) auto

lemma zpad_digits: "list_all is_digit (zpad w n)"
  by (induction w arbitrary: n) auto

lemma num_of_snoc: "num_of (xs @ [d]) = 10 * num_of xs + digit_val d"
  by (simp add: num_of_def)

lemma num_of_zpad: "num_of (zpad w n) = n mod 10 ^ w"
proof (induction w arbitrary: n)
  case 0
  then show ?case by (simp add: num_of_def)
next
  case (Suc w)
  have "num_of (zpad (Suc w) n) = 10 * (n div 10 mod 10 ^ w) + n mod 10"
    by (simp add: num_of_snoc Suc.IH)
  also have "\<dots> = n mod 10 ^ Suc w"
    by (simp add: mod_mult2_eq)
  finally show ?case .
qed

lemma nat_str_nonempty [simp]: "nat_str n \<noteq> []"
  by (subst nat_str.simps) simp

lemma nat_str_digits: "list_all is_digit (nat_str n)"
proof (induction n rule: nat_str.induct)
  case (1 n)
  then show ?case by (simp add: nat_str.simps [of n])
qed

lemma num_of_nat_str: "num_of (nat_str n) = n"
proof (induction n rule: nat_str.induct)
  case (1 n)
  show ?case
  proof (cases "n < 10")
    case True
    then show ?thesis by (simp add: nat_str.simps [of n] num_of_def)
  next
    case False
    with 1 show ?thesis by (simp add: nat_str.simps [of n] num_of_snoc)
  qed
qed

lemma nat_str_length: "n < 10 ^ Suc k \<Longrightarrow> length (nat_str n) \<le> Suc k"
proof (induction k arbitrary: n)
  case (Suc k)
  show ?case
  proof (cases "n < 10")
    case False
    have "length (nat_str (n div 10)) \<le> Suc k" using Suc by (simp add: less_mult_imp_div_less)
    then show ?thesis using False by (simp add: nat_str.simps [of n])
  qed (simp add: nat_str.simps [of n])
qed (simp add: nat_str.simps)

lemma nat_str_inj: "nat_str m = nat_str n \<longleftrightarrow> m = n"
  by (metis num_of_nat_str)

subsection \<open>Replacement\<close>

lemma replace_all_absent: "c \<notin> set s \<Longrightarrow> replace_all [c] new s = s"
proof (induction s)
  case Nil
  then show ?case by (simp add: replace_all.simps)
next
  case (Cons x s)
  then show ?case by (auto simp: replace_all.simps [of _ _ "x # s"] starts_with_def)
qed

lemma replace_all_tail:
  assumes "c \<notin> set s" and "old = c # cs"
  shows "replace_all old new (s @ old) = s @ new"
  using assms
proof (induction s)
  case Nil
  then show ?case by (simp add: replace_all.simps [of _ _ "c # cs"] replace_all.simps [of _ _ "[]"] starts_with_def)
next
  case (Cons x s)
  then show ?case by (auto simp: replace_all.simps [of _ _ "x # s @ c # cs"] starts_with_def)
qed

lemma zpad_absent: "\<not> is_digit c \<Longrightarrow> c \<notin> set (zpad w n)"
  using zpad_digits [of w n] by (auto simp: list_all_iff)

end
