(* ===== verification/Py_Datetime.thy ===== *)
theory Py_Datetime
  imports Prelude
begin

text \<open>
  The part of Python's \<open>datetime\<close> the package uses: \<open>datetime.fromisoformat\<close> as CPython 3.11
  and 3.12 implement it (calendar and week dates, with or without separators, fractions and
  offsets), \<open>astimezone(timezone.utc)\<close>, \<open>isoformat\<close>, and addition of a \<open>timedelta\<close>.

  A \<open>datetime\<close> is its local wall-clock microsecond counted from 0001-01-01T00:00 and its
  offset in microseconds (\<^const>\<open>None\<close> when it is naive); aware values compare by
  \<open>dt_instant\<close>. A \<open>timedelta\<close> is its number of microseconds.
\<close>

section \<open>The calendar\<close>

definition is_leap :: "nat \<Rightarrow> bool" where
  "is_leap y \<longleftrightarrow> y mod 4 = 0 \<and> (y mod 100 \<noteq> 0 \<or> y mod 400 = 0)"

definition days_before_year :: "nat \<Rightarrow> nat" where
  "days_before_year y = (let z = y - 1 in z * 365 + z div 4 - z div 100 + z div 400)"

definition month_lengths :: "bool \<Rightarrow> nat list" where
  "month_lengths leap = [31, if leap then 29 else 28, 31, 30, 31, 30, 31, 31, 30, 31, 30, 31]"

definition days_in_month :: "bool \<Rightarrow> nat \<Rightarrow> nat" where
  "days_in_month leap m = (if 1 \<le> m \<and> m \<le> 12 then month_lengths leap ! (m - 1) else 0)"

definition days_before_month :: "bool \<Rightarrow> nat \<Rightarrow> nat" where
  "days_before_month leap m = sum_list (take (m - 1) (month_lengths leap))"

definition valid_ymd :: "nat \<Rightarrow> nat \<Rightarrow> nat \<Rightarrow> bool" where
  "valid_ymd y m d \<longleftrightarrow> 1 \<le> y \<and> y \<le> 9999 \<and> 1 \<le> m \<and> m \<le> 12 \<and> 1 \<le> d
     \<and> d \<le> days_in_month (is_leap y) m"

definition ymd2ord :: "nat \<Rightarrow> nat \<Rightarrow> nat \<Rightarrow> nat" where
  "ymd2ord y m d = days_before_year y + days_before_month (is_leap y) m + d"

text \<open>CPython's \<open>ord_to_ymd\<close>; the day of the year is split by CPython's month estimate.\<close>

definition split_year_day :: "bool \<Rightarrow> nat \<Rightarrow> nat \<times> nat" where
  "split_year_day leap n =
     (let m = (n + 50) div 32;
          before = days_before_month leap m
      in if before > n then (m - 1, n - days_before_month leap (m - 1) + 1)
         else (m, n - before + 1))"

definition ord2ymd :: "nat \<Rightarrow> nat \<times> nat \<times> nat" where
  "ord2ymd n =
     (let a = (n - 1) div 146097; r = (n - 1) mod 146097;
          b = r div 36524; r = r mod 36524;
          c = r div 1461; r = r mod 1461;
          d = r div 365; r = r mod 365;
          y = a * 400 + b * 100 + c * 4 + d + 1
      in if d = 4 \<or> b = 4 then (y - 1, 12, 31)
         else (y, split_year_day (d = 3 \<and> (c \<noteq> 24 \<or> b = 3)) r))"

text \<open>\<open>date.fromisocalendar\<close>: ordinal of an ISO week date, \<^const>\<open>None\<close> for no such day.\<close>

definition max_ordinal :: nat where
  "max_ordinal = 3652059"

definition iso_week_ord :: "nat \<Rightarrow> nat \<Rightarrow> nat \<Rightarrow> nat option" where
  "iso_week_ord y w d =
     (let first = ymd2ord y 1 1;
          weekday = (first + 6) mod 7;
          week1 = int first - int weekday + (if weekday > 3 then 7 else 0);
          n = week1 + (int w - 1) * 7 + int d - 1
      in if 1 \<le> y \<and> y \<le> 9999 \<and> 1 \<le> d \<and> d \<le> 7
            \<and> (1 \<le> w \<and> w \<le> 52
               \<or> w = 53 \<and> (weekday = 3 \<or> weekday = 2 \<and> is_leap y))
            \<and> 1 \<le> n \<and> n \<le> int max_ordinal
         then Some (nat n) else None)"

section \<open>Values\<close>

record datetime =
  dt_local :: int
  dt_offset :: "int option"

type_synonym timedelta = int

definition second_us :: int where
  "second_us = 1000000"

definition day_us :: int where
  "day_us = 86400000000"

definition max_us :: int where
  "max_us = int max_ordinal * day_us"

definition seconds :: "int \<Rightarrow> timedelta" where
  "seconds n = n * second_us"

definition dt_instant :: "datetime \<Rightarrow> int" where
  "dt_instant d = dt_local d - (case dt_offset d of None \<Rightarrow> 0 | Some off \<Rightarrow> off)"

definition utc :: "int \<Rightarrow> datetime" where
  "utc t = \<lparr>dt_local = t, dt_offset = Some 0\<rparr>"

text \<open>\<open>d + delta\<close> and \<open>d.astimezone(timezone.utc)\<close> raise \<open>OverflowError\<close> out of the calendar.\<close>

definition in_calendar :: "int \<Rightarrow> bool" where
  "in_calendar t \<longleftrightarrow> 0 \<le> t \<and> t < max_us"

definition overflow :: "'a res" where
  "overflow = raise PyOverflowError ''date value out of range''"

definition dt_add :: "datetime \<Rightarrow> timedelta \<Rightarrow> datetime res" where
  "dt_add d delta =
     (if in_calendar (dt_local d + delta) then Inr (d\<lparr>dt_local := dt_local d + delta\<rparr>)
      else overflow)"

definition astimezone_utc :: "datetime \<Rightarrow> datetime res" where
  "astimezone_utc d = (if in_calendar (dt_instant d) then Inr (utc (dt_instant d)) else overflow)"

section \<open>Parsing\<close>

definition parse_digits :: "nat \<Rightarrow> string \<Rightarrow> (nat \<times> string) option" where
  "parse_digits n s =
     (if length (take n s) = n \<and> list_all is_digit (take n s)
      then Some (num_of (take n s), drop n s) else None)"

text \<open>
  \<open>HH[:MM[:SS[.f+]]]\<close>, the separators optional as a whole. The last component says whether
  text was left over; \<open>at_end\<close> says whether the region ends the string.
\<close>

definition parse_fraction :: "bool \<Rightarrow> string \<Rightarrow> (nat \<times> bool) option" where
  "parse_fraction at_end p =
     (let n = min 6 (length p) in
      case parse_digits n p of
        None \<Rightarrow> None
      | Some (us, rest) \<Rightarrow>
          Some (us * 10 ^ (6 - n), dropWhile is_digit rest \<noteq> [] \<or> \<not> at_end))"

fun parse_hms :: "nat \<Rightarrow> bool \<Rightarrow> bool \<Rightarrow> string \<Rightarrow> nat list \<Rightarrow> (nat list \<times> nat \<times> bool) option"
where
  "parse_hms 0 sep at_end p vals =
     map_option (\<lambda>(us, rest_left). (rev vals, us, rest_left)) (parse_fraction at_end p)"
| "parse_hms (Suc k) sep at_end p vals =
     (case parse_digits 2 p of
        None \<Rightarrow> None
      | Some (v, rest) \<Rightarrow>
          (let vals = v # vals; sep = (if k = 2 then rest \<noteq> [] \<and> hd rest = CHR '':'' else sep) in
           if length rest \<le> 1 then Some (rev vals, 0, rest \<noteq> [] \<or> \<not> at_end)
           else if sep \<and> hd rest = CHR '':'' then parse_hms k sep at_end (tl rest) vals
           else if hd rest = CHR ''.'' \<or> hd rest = CHR '',''
             then parse_hms 0 sep at_end (tl rest) vals
           else if \<not> sep then parse_hms k sep at_end rest vals
           else None))"

definition nth0 :: "nat list \<Rightarrow> nat \<Rightarrow> nat" where
  "nth0 xs i = (if i < length xs then xs ! i else 0)"

definition hms_seconds :: "nat list \<Rightarrow> nat" where
  "hms_seconds vs = nth0 vs 0 * 3600 + nth0 vs 1 * 60 + nth0 vs 2"

definition parse_week_date :: "nat \<Rightarrow> bool \<Rightarrow> string \<Rightarrow> nat option" where
  "parse_week_date y sep p =
     (case parse_digits 2 p of
        None \<Rightarrow> None
      | Some (w, rest) \<Rightarrow>
          if rest = [] then iso_week_ord y w 1
          else if sep \<and> hd rest \<noteq> CHR ''-'' then None
          else (case parse_digits 1 (if sep then tl rest else rest) of
                  None \<Rightarrow> None
                | Some (d, _) \<Rightarrow> iso_week_ord y w d))"

definition parse_month_day :: "nat \<Rightarrow> bool \<Rightarrow> string \<Rightarrow> nat option" where
  "parse_month_day y sep p =
     (case parse_digits 2 p of
        None \<Rightarrow> None
      | Some (m, rest) \<Rightarrow>
          if sep \<and> (rest = [] \<or> hd rest \<noteq> CHR ''-'') then None
          else (case parse_digits 2 (if sep then tl rest else rest) of
                  None \<Rightarrow> None
                | Some (d, left) \<Rightarrow>
                    if left = [] \<and> valid_ymd y m d then Some (ymd2ord y m d) else None))"

definition parse_date :: "string \<Rightarrow> nat option" where
  "parse_date s =
     (case parse_digits 4 s of
        None \<Rightarrow> None
      | Some (y, rest) \<Rightarrow>
          (let sep = (rest \<noteq> [] \<and> hd rest = CHR ''-''); p = (if sep then tl rest else rest) in
           if p \<noteq> [] \<and> hd p = CHR ''W'' then parse_week_date y sep (tl p)
           else parse_month_day y sep p))"

text \<open>Where the date ends, from the shape of the string; defined for seven characters or rest_left.\<close>

definition date_length :: "string \<Rightarrow> nat option" where
  "date_length s =
     (let n = length s in
      if n = 7 then Some 7
      else if s ! 4 = CHR ''-'' then
        (if s ! 5 = CHR ''W'' then
           (if n > 8 \<and> s ! 8 = CHR ''-'' then
              (if n = 9 then None else if n > 10 \<and> is_digit (s ! 10) then Some 8 else Some 10)
            else Some 8)
         else Some 10)
      else if s ! 4 = CHR ''W'' then
        (let i = 7 + length (takeWhile is_digit (drop 7 s)) in
         if i < 9 then Some i else if i mod 2 = 0 then Some 7 else Some 8)
      else Some 8)"

definition parse_offset :: "char \<Rightarrow> string \<Rightarrow> int option" where
  "parse_offset sign p =
     (case parse_hms 3 True True p [] of
        None \<Rightarrow> None
      | Some (vs, us, rest_left) \<Rightarrow>
          (let total = int (hms_seconds vs) * second_us + int us;
               off = (if hms_seconds vs = 0 then 0
                      else if sign = CHR ''-'' then - total else total) in
           if rest_left \<or> \<bar>off\<bar> \<ge> day_us then None else Some off))"

definition is_zone_mark :: "char \<Rightarrow> bool" where
  "is_zone_mark c \<longleftrightarrow> c = CHR ''+'' \<or> c = CHR ''-'' \<or> c = CHR ''Z''"

definition make_datetime :: "nat \<Rightarrow> nat list \<Rightarrow> nat \<Rightarrow> int option \<Rightarrow> datetime option" where
  "make_datetime n vs us off =
     (if nth0 vs 0 < 24 \<and> nth0 vs 1 < 60 \<and> nth0 vs 2 < 60
      then Some \<lparr>dt_local = (int n - 1) * day_us + int (hms_seconds vs) * second_us + int us,
                 dt_offset = off\<rparr>
      else None)"

definition parse_time :: "nat \<Rightarrow> string \<Rightarrow> datetime option" where
  "parse_time n t =
     (let clock = takeWhile (\<lambda>c. \<not> is_zone_mark c) t;
          zone = dropWhile (\<lambda>c. \<not> is_zone_mark c) t in
      case parse_hms 3 True (zone = []) clock [] of
        None \<Rightarrow> None
      | Some (vs, us, rest_left) \<Rightarrow>
          (if zone = [] then (if rest_left then None else make_datetime n vs us None)
           else if hd zone = CHR ''Z''
             then (if tl zone = [] then make_datetime n vs us (Some 0) else None)
           else (case parse_offset (hd zone) (tl zone) of
                   None \<Rightarrow> None
                 | Some off \<Rightarrow> make_datetime n vs us (Some off))))"

definition fromisoformat :: "string \<Rightarrow> datetime option" where
  "fromisoformat s =
     (if length s < 7 then None
      else case date_length s of
        None \<Rightarrow> None
      | Some k \<Rightarrow>
          (case parse_date (take k s) of
             None \<Rightarrow> None
           | Some n \<Rightarrow>
               if length s \<le> k then make_datetime n [] 0 None
               else parse_time n (drop (Suc k) s)))"

section \<open>Printing\<close>

definition isoformat_date :: "nat \<Rightarrow> string" where
  "isoformat_date n =
     (case ord2ymd n of (y, m, d) \<Rightarrow> zpad 4 y @ ''-'' @ zpad 2 m @ ''-'' @ zpad 2 d)"

definition isoformat_clock :: "nat \<Rightarrow> string" where
  "isoformat_clock us =
     (let s = us div 1000000; f = us mod 1000000 in
      zpad 2 (s div 3600) @ '':'' @ zpad 2 (s div 60 mod 60) @ '':'' @ zpad 2 (s mod 60)
      @ (if f = 0 then [] else ''.'' @ zpad 6 f))"

text \<open>\<open>isoformat()\<close> of a value in UTC, the only zone the package prints.\<close>

definition isoformat_local :: "datetime \<Rightarrow> string" where
  "isoformat_local d =
     (let t = nat (dt_local d) in
      isoformat_date (t div 86400000000 + 1) @ ''T'' @ isoformat_clock (t mod 86400000000))"

definition isoformat_utc :: "datetime \<Rightarrow> string" where
  "isoformat_utc d = isoformat_local d @ ''+00:00''"

section \<open>Calendar lemmas\<close>

lemma days_before_month_simps:
  "days_before_month leap 0 = 0" "days_before_month leap 1 = 0" "days_before_month leap (Suc 0) = 0"
  "days_before_month leap 2 = 31"
  "days_before_month leap 3 = (if leap then 60 else 59)"
  "days_before_month leap 4 = (if leap then 91 else 90)"
  "days_before_month leap 5 = (if leap then 121 else 120)"
  "days_before_month leap 6 = (if leap then 152 else 151)"
  "days_before_month leap 7 = (if leap then 182 else 181)"
  "days_before_month leap 8 = (if leap then 213 else 212)"
  "days_before_month leap 9 = (if leap then 244 else 243)"
  "days_before_month leap 10 = (if leap then 274 else 273)"
  "days_before_month leap 11 = (if leap then 305 else 304)"
  "days_before_month leap 12 = (if leap then 335 else 334)"
  by (simp_all add: days_before_month_def month_lengths_def take_Cons')

lemma days_in_month_simps:
  "days_in_month leap 1 = 31" "days_in_month leap (Suc 0) = 31" "days_in_month leap 2 = (if leap then 29 else 28)"
  "days_in_month leap 3 = 31" "days_in_month leap 4 = 30" "days_in_month leap 5 = 31"
  "days_in_month leap 6 = 30" "days_in_month leap 7 = 31" "days_in_month leap 8 = 31"
  "days_in_month leap 9 = 30" "days_in_month leap 10 = 31" "days_in_month leap 11 = 30"
  "days_in_month leap 12 = 31"
  by (simp_all add: days_in_month_def month_lengths_def nth_Cons')

lemma month_estimate:
  assumes "n < (366::nat)" and "m = (n + 50) div 32"
  shows "m \<in> {1, 2, 3, 4, 5, 6, 7, 8, 9, 10, 11, 12}" and "32 * m \<le> n + 50" and "n + 50 < 32 * m + 32"
proof -
  show lo: "32 * m \<le> n + 50" and hi: "n + 50 < 32 * m + 32"
    using assms(2) by presburger+
  have "1 \<le> m" and "m \<le> 12" using lo hi assms(1) by linarith+
  then show "m \<in> {1, 2, 3, 4, 5, 6, 7, 8, 9, 10, 11, 12}"
    by (simp only: insert_iff empty_iff) presburger
qed

lemma split_year_day_ok:
  assumes "n < (if leap then 366 else 365)" and "split_year_day leap n = (m, d)"
  shows "1 \<le> m \<and> m \<le> 12 \<and> 1 \<le> d \<and> d \<le> days_in_month leap m \<and> days_before_month leap m + d = n + 1"
proof -
  define e where "e = (n + 50) div 32"
  have "n < 366" using assms(1) by (simp split: if_splits)
  note est = month_estimate [OF this e_def]
  have md: "(m, d) = (if days_before_month leap e > n
      then (e - 1, n - days_before_month leap (e - 1) + 1) else (e, n - days_before_month leap e + 1))"
    using assms(2) unfolding split_year_day_def Let_def e_def by metis
  show ?thesis
    using est(1)
    apply (simp only: insert_iff empty_iff)
    apply (elim disjE; use est(2,3) assms(1) md in \<open>cases leap; simp add: days_before_month_simps
       days_in_month_simps del: One_nat_def split: if_splits; linarith?\<close>)
    done
qed

lemma div_digits: "r < k \<Longrightarrow> (q * k + r) div k = (q::nat)"
  by simp

lemma mod_digits: "r < k \<Longrightarrow> (q * k + r) mod k = (r::nat)"
  by simp

lemma mod_full: "0 < x \<Longrightarrow> x \<le> k \<Longrightarrow> x mod k = 0 \<longleftrightarrow> x = (k::nat)"
  by (cases "x = k") auto

lemma days_before_year_digits:
  assumes "b \<le> 3" and "c \<le> 24" and "d \<le> (3::nat)"
  shows "days_before_year (a * 400 + b * 100 + c * 4 + d + 1)
         = a * 146097 + b * 36524 + c * 1461 + d * 365"
proof -
  let ?z = "a * 400 + b * 100 + c * 4 + d"
  have "?z div 4 = a * 100 + b * 25 + c"
    using div_digits [of d 4 "a * 100 + b * 25 + c"] assms by (simp add: algebra_simps)
  moreover have "?z div 100 = a * 4 + b"
    using div_digits [of "c * 4 + d" 100 "a * 4 + b"] assms by (simp add: algebra_simps)
  moreover have "?z div 400 = a"
    using div_digits [of "b * 100 + c * 4 + d" 400 a] assms by (simp add: algebra_simps)
  ultimately show ?thesis by (simp add: days_before_year_def Let_def)
qed

lemma is_leap_digits:
  assumes "b \<le> 3" and "c \<le> 24" and "d \<le> (3::nat)"
  shows "is_leap (a * 400 + b * 100 + c * 4 + d + 1) \<longleftrightarrow> d = 3 \<and> (c \<noteq> 24 \<or> b = 3)"
proof -
  let ?y = "a * 400 + b * 100 + c * 4 + d + 1"
  have "?y = (a * 100 + b * 25 + c) * 4 + (d + 1)" and "?y = (a * 4 + b) * 100 + (c * 4 + d + 1)"
    and "?y = a * 400 + (b * 100 + c * 4 + d + 1)" by simp_all
  then have "?y mod 4 = (d + 1) mod 4" and "?y mod 100 = (c * 4 + d + 1) mod 100"
    and "?y mod 400 = (b * 100 + c * 4 + d + 1) mod 400"
    by (metis mod_mult_self3)+
  moreover have "(d + 1) mod 4 = 0 \<longleftrightarrow> d = 3"
    using mod_full [of "d + 1" 4] assms by simp
  moreover have "(c * 4 + d + 1) mod 100 = 0 \<longleftrightarrow> c = 24 \<and> d = 3"
    using mod_full [of "c * 4 + d + 1" 100] assms by simp linarith
  moreover have "(b * 100 + c * 4 + d + 1) mod 400 = 0 \<longleftrightarrow> b = 3 \<and> c = 24 \<and> d = 3"
    using mod_full [of "b * 100 + c * 4 + d + 1" 400] assms by simp linarith
  ultimately show ?thesis by (auto simp: is_leap_def)
qed

lemma year_end_digits:
  assumes "e = 4 \<or> b = 4" and "b \<le> 4"
    and "b * 36524 + c * 1461 + e * 365 + r < 146097" and "c * 1461 + e * 365 + r < 36524"
    and "e * 365 + r < (1461::nat)"
    and n: "n = a * 146097 + b * 36524 + c * 1461 + e * 365 + r + 1"
  shows "is_leap (a * 400 + b * 100 + c * 4 + e)"
    and "days_before_year (a * 400 + b * 100 + c * 4 + e) + 366 = n"
    and "1 \<le> a * 400 + b * 100 + c * 4 + e"
    and "n \<le> max_ordinal \<Longrightarrow> a * 400 + b * 100 + c * 4 + e \<le> 9999"
proof -
  have "\<exists>p q. p \<le> 3 \<and> q \<le> 24 \<and> (q \<noteq> 24 \<or> p = 3)
      \<and> a * 400 + b * 100 + c * 4 + e = a * 400 + p * 100 + q * 4 + 3 + 1
      \<and> n = a * 146097 + p * 36524 + q * 1461 + 3 * 365 + 366"
  proof (cases "b = 4")
    case True
    then have "c = 0" and "e = 0" and "r = 0" using assms(3) by linarith+
    with True n show ?thesis by (rule_tac exI [of _ 3], rule_tac exI [of _ 24]) simp
  next
    case False
    with assms(1) have "e = 4" by simp
    then have "r = 0" and "c \<noteq> 24" and "c \<le> 24" using assms(4,5) by auto
    with False \<open>e = 4\<close> n assms(2) show ?thesis
      by (rule_tac exI [of _ b], rule_tac exI [of _ c]) simp
  qed
  then obtain p q where pq: "p \<le> 3" "q \<le> 24" "q \<noteq> 24 \<or> p = 3"
    and y: "a * 400 + b * 100 + c * 4 + e = a * 400 + p * 100 + q * 4 + 3 + 1"
    and n': "n = a * 146097 + p * 36524 + q * 1461 + 3 * 365 + 366" by blast
  show "is_leap (a * 400 + b * 100 + c * 4 + e)"
    unfolding y using is_leap_digits [of p q 3 a] pq by simp
  show "days_before_year (a * 400 + b * 100 + c * 4 + e) + 366 = n"
    unfolding y using days_before_year_digits [of p q 3 a] pq n' by simp
  show "1 \<le> a * 400 + b * 100 + c * 4 + e" unfolding y by simp
  show "n \<le> max_ordinal \<Longrightarrow> a * 400 + b * 100 + c * 4 + e \<le> 9999"
    unfolding y using n' pq by (auto simp: max_ordinal_def)
qed

lemma ord2ymd_ok:
  assumes n: "1 \<le> n" and max: "n \<le> max_ordinal" and eq: "ord2ymd n = (y, m, d)"
  shows "valid_ymd y m d \<and> ymd2ord y m d = n"
proof -
  define a where "a = (n - 1) div 146097"
  define r1 where "r1 = (n - 1) mod 146097"
  define b where "b = r1 div 36524"
  define r2 where "r2 = r1 mod 36524"
  define c where "c = r2 div 1461"
  define r3 where "r3 = r2 mod 1461"
  define e where "e = r3 div 365"
  define r4 where "r4 = r3 mod 365"
  have n_eq: "n = a * 146097 + b * 36524 + c * 1461 + e * 365 + r4 + 1"
    unfolding a_def b_def c_def e_def r4_def r3_def r2_def r1_def using n by simp
  have r1: "r1 < 146097" and r2: "r2 < 36524" and r3: "r3 < 1461" and r4: "r4 < 365"
    by (simp_all add: r1_def r2_def r3_def r4_def)
  have r1_eq: "r1 = b * 36524 + r2" and r2_eq: "r2 = c * 1461 + r3" and r3_eq: "r3 = e * 365 + r4"
    by (simp_all add: b_def r2_def c_def r3_def e_def r4_def)
  have b: "b \<le> 4" and c: "c \<le> 24" and e: "e \<le> 4" using r1 r1_eq r2 r2_eq r3 r3_eq by linarith+
  have a24: "a \<le> 24" using max n_eq by (simp add: max_ordinal_def)
  let ?y = "a * 400 + b * 100 + c * 4 + e + 1"
  have ymd: "(y, m, d) = (if e = 4 \<or> b = 4 then (?y - 1, 12, 31)
      else (?y, split_year_day (e = 3 \<and> (c \<noteq> 24 \<or> b = 3)) r4))"
    using eq unfolding ord2ymd_def Let_def a_def b_def c_def e_def r1_def r2_def r3_def r4_def
    by metis
  show ?thesis
  proof (cases "e = 4 \<or> b = 4")
    case True
    then have last: "y = ?y - 1" "m = 12" "d = 31" using ymd by simp_all
    have in_range: "b * 36524 + c * 1461 + e * 365 + r4 < 146097" "c * 1461 + e * 365 + r4 < 36524"
      "e * 365 + r4 < 1461" using r1 r1_eq r2 r2_eq r3 r3_eq by simp_all
    from year_end_digits [OF True b in_range n_eq] last(1) max show ?thesis
      using last by (simp add: valid_ymd_def ymd2ord_def days_in_month_simps days_before_month_simps)
  next
    case False
    then have b3: "b \<le> 3" and e3: "e \<le> 3" and y: "y = ?y"
      and md: "split_year_day (e = 3 \<and> (c \<noteq> 24 \<or> b = 3)) r4 = (m, d)"
      using b e ymd by auto
    have leap: "is_leap y \<longleftrightarrow> e = 3 \<and> (c \<noteq> 24 \<or> b = 3)"
      using is_leap_digits [OF b3 c e3, of a] y by simp
    have "r4 < (if is_leap y then 366 else 365)" using r4 by simp
    note sp = split_year_day_ok [OF this md [folded leap]]
    have "ymd2ord y m d = n"
      using sp days_before_year_digits [OF b3 c e3, of a] y n_eq by (simp add: ymd2ord_def)
    moreover have "1 \<le> y" and "y \<le> 9999"
      using y b3 c e3 a24 max n_eq by (auto simp: max_ordinal_def)
    ultimately show ?thesis using sp by (simp add: valid_ymd_def)
  qed
qed

section \<open>Printing and parsing are inverse\<close>

lemma parse_digits_append:
  "length xs = n \<Longrightarrow> list_all is_digit xs \<Longrightarrow> parse_digits n (xs @ ys) = Some (num_of xs, ys)"
  by (simp add: parse_digits_def)

lemma parse_digits_zpad: "n < 10 ^ w \<Longrightarrow> parse_digits w (zpad w n @ ys) = Some (n, ys)"
  by (simp add: parse_digits_append zpad_digits num_of_zpad)

lemma parse_digits_zpad_end: "n < 10 ^ w \<Longrightarrow> parse_digits w (zpad w n) = Some (n, [])"
  using parse_digits_zpad [of n w "[]"] by simp

lemma zpad_nonempty [simp]: "0 < w \<Longrightarrow> zpad w n \<noteq> []"
  by (cases w) auto

lemma hd_zpad_digit: "0 < w \<Longrightarrow> is_digit (hd (zpad w n @ ys))"
  using zpad_digits [of w n] by (cases "zpad w n") (auto simp flip: length_0_conv)

lemma not_digit_marks [simp]: "\<not> is_digit CHR ''W''" "\<not> is_digit CHR ''-''" "\<not> is_digit CHR '':''"
  "\<not> is_digit CHR ''.''" "\<not> is_digit CHR '',''" "\<not> is_digit CHR ''+''" "\<not> is_digit CHR ''Z''"
  by (simp_all add: is_digit_def code_def)

lemma hd_zpad_neq: "0 < w \<Longrightarrow> \<not> is_digit c \<Longrightarrow> hd (zpad w n @ ys) \<noteq> c"
  using hd_zpad_digit by auto

lemma days_in_month_le: "days_in_month leap m \<le> 31"
  by (auto simp: days_in_month_def month_lengths_def nth_Cons' split: if_splits)

lemma parse_isoformat_date:
  assumes "1 \<le> n" and "n \<le> max_ordinal"
  shows "parse_date (isoformat_date n) = Some n" and "length (isoformat_date n) = 10"
    and "isoformat_date n ! 4 = CHR ''-''" and "isoformat_date n ! 5 \<noteq> CHR ''W''"
proof -
  obtain y m d where ymd: "ord2ymd n = (y, m, d)" by (cases "ord2ymd n") auto
  have ok: "valid_ymd y m d" "ymd2ord y m d = n" using ord2ymd_ok [OF assms ymd] by auto
  then have lt: "y < 10 ^ 4" "m < 10 ^ 2" "d < 10 ^ 2"
    using days_in_month_le [of "is_leap y" m] by (auto simp: valid_ymd_def)
  have shape: "isoformat_date n = zpad 4 y @ CHR ''-'' # zpad 2 m @ CHR ''-'' # zpad 2 d"
    by (simp add: isoformat_date_def ymd)
  show "length (isoformat_date n) = 10" and "isoformat_date n ! 4 = CHR ''-''"
    by (simp_all add: shape nth_append)
  have "isoformat_date n ! 5 = hd (zpad 2 m @ CHR ''-'' # zpad 2 d)"
    by (simp add: shape nth_append hd_conv_nth)
  then show "isoformat_date n ! 5 \<noteq> CHR ''W''" by (simp add: hd_zpad_neq del: hd_append2)
  show "parse_date (isoformat_date n) = Some n"
    using ok lt by (simp add: parse_date_def shape parse_digits_zpad hd_zpad_neq parse_month_day_def
        parse_digits_zpad_end del: hd_append2)
qed

lemma parse_hms_colon:
  "v < 100 \<Longrightarrow> r \<noteq> [] \<Longrightarrow> k = 2 \<or> sep \<Longrightarrow>
   parse_hms (Suc k) sep e (zpad 2 v @ CHR '':'' # r) vs = parse_hms k True e r (v # vs)"
  by (cases r) (auto simp: parse_digits_zpad Let_def)

lemma parse_hms_dot:
  "v < 100 \<Longrightarrow> r \<noteq> [] \<Longrightarrow> k \<noteq> 2 \<Longrightarrow>
   parse_hms (Suc k) sep e (zpad 2 v @ CHR ''.'' # r) vs = parse_hms 0 sep e r (v # vs)"
  by (cases r) (auto simp: parse_digits_zpad Let_def)

lemma parse_hms_end:
  "v < 100 \<Longrightarrow> parse_hms (Suc k) sep e (zpad 2 v) vs = Some (rev (v # vs), 0, \<not> e)"
  by (simp add: parse_digits_zpad_end Let_def)

lemmas parse_hms_steps =
  parse_hms_colon [where k = 2, simplified] parse_hms_colon [where k = 1, unfolded Suc_1]
  parse_hms_dot [where k = 0, simplified] parse_hms_end [where k = 0, simplified]

lemma parse_isoformat_clock:
  assumes "us < 86400000000"
  shows "\<exists>vs f r. parse_hms 3 True False (isoformat_clock us) [] = Some (vs, f, r)
     \<and> hms_seconds vs * 1000000 + f = us \<and> nth0 vs 0 < 24 \<and> nth0 vs 1 < 60 \<and> nth0 vs 2 < 60"
    and "list_all (\<lambda>c. \<not> is_zone_mark c) (isoformat_clock us)"
proof -
  define s where "s = us div 1000000"
  define f where "f = us mod 1000000"
  have us: "us = s * 1000000 + f" by (simp add: s_def f_def)
  have s: "s < 86400" using assms by (simp add: s_def)
  have f: "f < 10 ^ 6" by (simp add: f_def)
  define h where "h = s div 3600"
  define m where "m = s div 60 mod 60"
  define x where "x = s mod 60"
  have h: "h < 24" using s by (simp add: h_def)
  have m: "m < 60" and x: "x < 60" by (simp_all add: m_def x_def)
  have hmx: "h * 3600 + m * 60 + x = s" 
  proof -
    have "h = s div 60 div 60" by (simp add: h_def div_mult2_eq [symmetric])
    then have "s div 60 = h * 60 + m" by (simp add: m_def)
    moreover have "s = s div 60 * 60 + x" by (simp add: x_def)
    ultimately show ?thesis by simp
  qed
  have lt: "h < 10 ^ 2" "m < 10 ^ 2" "x < 10 ^ 2" using h m x by simp_all
  have shape: "isoformat_clock us = zpad 2 h @ CHR '':'' # zpad 2 m @ CHR '':'' # zpad 2 x
      @ (if f = 0 then [] else CHR ''.'' # zpad 6 f)"
    by (simp add: isoformat_clock_def Let_def s_def f_def h_def m_def x_def)
  have "parse_hms 3 True False (isoformat_clock us) [] = Some ([h, m, x], f, True)"
    using lt f by (simp add: shape parse_hms_steps parse_fraction_def parse_digits_zpad_end Let_def)
  then show "\<exists>vs f r. parse_hms 3 True False (isoformat_clock us) [] = Some (vs, f, r)
     \<and> hms_seconds vs * 1000000 + f = us \<and> nth0 vs 0 < 24 \<and> nth0 vs 1 < 60 \<and> nth0 vs 2 < 60"
    using h m x hmx us by (intro exI conjI) (auto simp: hms_seconds_def nth0_def)
  have dig: "is_digit c \<Longrightarrow> \<not> is_zone_mark c" for c by (auto simp: is_zone_mark_def)
  then have "list_all (\<lambda>c. \<not> is_zone_mark c) (zpad w n)" for w n
    using zpad_digits [of w n] by (auto simp: list_all_iff)
  then show "list_all (\<lambda>c. \<not> is_zone_mark c) (isoformat_clock us)"
    by (simp add: shape is_zone_mark_def)
qed

lemma parse_zero_offset: "parse_offset CHR ''+'' ''00:00'' = Some 0"
  by code_simp

lemma fromisoformat_zone:
  assumes "in_calendar t" and z: "z = ''+00:00'' \<or> z = ''Z''"
  shows "fromisoformat (isoformat_local (utc t) @ z) = Some (utc t)"
proof -
  define k where "k = nat t"
  have t: "t = int k" using assms by (simp add: k_def in_calendar_def)
  define n where "n = k div 86400000000 + 1"
  define c where "c = k mod 86400000000"
  have "k div 86400000000 < 3652059"
    using assms by (simp add: t in_calendar_def max_us_def max_ordinal_def day_us_def
        div_less_iff_less_mult)
  then have n: "1 \<le> n" "n \<le> max_ordinal" by (simp_all add: n_def max_ordinal_def)
  have c: "c < 86400000000" by (simp add: c_def)
  let ?s = "isoformat_local (utc t) @ z"
  have shape: "?s = isoformat_date n @ CHR ''T'' # isoformat_clock c @ z"
    by (simp add: isoformat_local_def utc_def t n_def c_def Let_def)
  obtain x xs where zx: "z = x # xs" "is_zone_mark x" using z by (auto simp: is_zone_mark_def)
  note date = parse_isoformat_date [OF n]
  have "date_length ?s = Some 10"
    using date(2-4) by (simp add: date_length_def shape nth_append Let_def)
  moreover have "take 10 ?s = isoformat_date n" and "drop (Suc 10) ?s = isoformat_clock c @ z"
    and "10 < length ?s" and "\<not> length ?s < 7"
    using date(2) by (simp_all add: shape)
  ultimately have parsed: "fromisoformat ?s = parse_time n (isoformat_clock c @ z)"
    using date(1) by (simp add: fromisoformat_def)
  obtain vs f r where p: "parse_hms 3 True False (isoformat_clock c) [] = Some (vs, f, r)"
    and sum: "hms_seconds vs * 1000000 + f = c"
    and lt: "nth0 vs 0 < 24" "nth0 vs 1 < 60" "nth0 vs 2 < 60"
    using parse_isoformat_clock(1) [OF c] by blast
  have clock: "takeWhile (\<lambda>c. \<not> is_zone_mark c) (isoformat_clock c @ z) = isoformat_clock c"
    "dropWhile (\<lambda>c. \<not> is_zone_mark c) (isoformat_clock c @ z) = z"
    using parse_isoformat_clock(2) [OF c] zx
    by (simp_all add: list_all_iff takeWhile_append2 dropWhile_append2)
  have "z \<noteq> []" using zx by simp
  then have "parse_time n (isoformat_clock c @ z) =
      (if hd z = CHR ''Z'' then if tl z = [] then make_datetime n vs f (Some 0) else None
       else case parse_offset (hd z) (tl z) of
          None \<Rightarrow> None | Some off \<Rightarrow> make_datetime n vs f (Some off))"
    by (simp only: parse_time_def Let_def clock) (simp add: p)
  also have "\<dots> = make_datetime n vs f (Some 0)"
    by (rule disjE [OF z]; simp add: parse_zero_offset)
  also have "make_datetime n vs f (Some 0) = Some \<lparr>dt_local = (int n - 1) * day_us + int (hms_seconds vs) * second_us + int f,
      dt_offset = Some 0\<rparr>"
    using lt by (simp add: make_datetime_def)
  also have "(int n - 1) * day_us + int (hms_seconds vs) * second_us + int f = t"
  proof -
    have "int k = int (k div 86400000000) * 86400000000 + int c"
      unfolding c_def by (metis div_mult_mod_eq of_nat_add of_nat_mult of_nat_numeral)
    then show ?thesis
      using sum [symmetric] by (simp add: n_def day_us_def second_us_def t)
  qed
  finally show ?thesis using parsed by (simp add: utc_def)
qed

lemma fromisoformat_isoformat: "in_calendar t \<Longrightarrow> fromisoformat (isoformat_utc (utc t)) = Some (utc t)"
  by (simp add: isoformat_utc_def fromisoformat_zone)

lemma fromisoformat_zulu: "in_calendar t \<Longrightarrow> fromisoformat (isoformat_local (utc t) @ ''Z'') = Some (utc t)"
  by (simp add: fromisoformat_zone)

lemma isoformat_local_absent: "\<not> is_digit c \<Longrightarrow> c \<notin> set ''-T:.'' \<Longrightarrow> c \<notin> set (isoformat_local d)"
  by (auto simp: isoformat_local_def isoformat_date_def isoformat_clock_def Let_def zpad_absent
      split: prod.splits)

end
