(* ===== verification/Interfaces.thy ===== *)
theory Interfaces
  imports Prelude
begin

text \<open>
  The contracts the components rely on, as locales: a transition system with an invariant, one
  whose transitions count revisions, one whose level never drops, one that climbs a bounded ladder, a
  ledger that binds a key once, an append-only log, and a guard that lets a sequence number through
  only when it is newer than the last one. Each
  component theory interprets the contracts its definitions keep.
\<close>

section \<open>Transition systems\<close>

locale invariant_system =
  fixes step :: "'s \<Rightarrow> 's \<Rightarrow> bool" and inv :: "'s \<Rightarrow> bool"
  assumes step_keeps: "step s t \<Longrightarrow> inv s \<Longrightarrow> inv t"
begin

lemma reachable_keeps: "step\<^sup>*\<^sup>* s t \<Longrightarrow> inv s \<Longrightarrow> inv t"
  by (induction rule: rtranclp_induct) (auto dest: step_keeps)

lemma steps_keep: "(step ^^ n) s t \<Longrightarrow> inv s \<Longrightarrow> inv t"
  by (rule reachable_keeps) (auto simp: rtranclp_power)

end

locale versioned_system = invariant_system +
  fixes version :: "'s \<Rightarrow> int"
  assumes step_counts: "step s t \<Longrightarrow> inv s \<Longrightarrow> version t = version s + 1"
begin

lemma steps_count: "(step ^^ n) s t \<Longrightarrow> inv s \<Longrightarrow> version t = version s + int n"
proof (induction n arbitrary: t)
  case 0
  then show ?case by simp
next
  case (Suc n)
  then obtain u where "(step ^^ n) s u" and "step u t" by auto
  then show ?case using Suc step_counts steps_keep by fastforce
qed

lemma no_way_back: "step\<^sup>+\<^sup>+ s t \<Longrightarrow> inv s \<Longrightarrow> t \<noteq> s"
  using steps_count by (fastforce simp: tranclp_power)

end

text \<open>A measured quantity that no transition lowers.\<close>

locale monotone_system = invariant_system +
  fixes level :: "'s \<Rightarrow> 'l::preorder"
  assumes step_mono: "step s t \<Longrightarrow> inv s \<Longrightarrow> level s \<le> level t"
begin

lemma reachable_mono: "step\<^sup>*\<^sup>* s t \<Longrightarrow> inv s \<Longrightarrow> level s \<le> level t"
proof (induction rule: rtranclp_induct)
  case base
  then show ?case by simp
next
  case (step t u)
  then show ?case using step_mono reachable_keeps order_trans by blast
qed

end

text \<open>A system that climbs a bounded ladder: it has no way back and stops.\<close>

locale ranked_system = invariant_system +
  fixes rank :: "'s \<Rightarrow> nat" and top_rank :: nat
  assumes rank_climbs: "step s t \<Longrightarrow> inv s \<Longrightarrow> rank s < rank t"
    and rank_bounded: "inv s \<Longrightarrow> rank s \<le> top_rank"
begin

lemma steps_climb: "(step ^^ n) s t \<Longrightarrow> inv s \<Longrightarrow> rank s + n \<le> rank t"
proof (induction n arbitrary: t)
  case 0
  then show ?case by simp
next
  case (Suc n)
  then obtain u where "(step ^^ n) s u" and "step u t" by auto
  then show ?case using Suc rank_climbs steps_keep by fastforce
qed

lemma run_bounded: "(step ^^ n) s t \<Longrightarrow> inv s \<Longrightarrow> n \<le> top_rank - rank s"
  using steps_climb [of n s t] rank_bounded [of t] steps_keep [of n s t] by linarith

lemma no_cycle: "step\<^sup>+\<^sup>+ s t \<Longrightarrow> inv s \<Longrightarrow> rank s < rank t"
  using steps_climb by (fastforce simp: tranclp_power)

end

section \<open>Ledgers and logs\<close>

text \<open>A ledger binds a key to a value once and never rebinds it.\<close>

locale once_ledger =
  fixes bound :: "'l \<Rightarrow> 'k \<Rightarrow> 'v option" and record_in :: "'l \<Rightarrow> 'k \<Rightarrow> 'v \<Rightarrow> exn + 'l"
    and inv :: "'l \<Rightarrow> bool"
  assumes record_keeps: "record_in l k v = Inr m \<Longrightarrow> inv l \<Longrightarrow> inv m"
    and record_fresh: "record_in l k v = Inr m \<Longrightarrow> inv l \<Longrightarrow> bound l k = None"
    and record_binds: "record_in l k v = Inr m \<Longrightarrow> inv l \<Longrightarrow> bound m = (bound l)(k \<mapsto> v)"
begin

definition record_step :: "'l \<Rightarrow> 'l \<Rightarrow> bool" where
  "record_step l m \<longleftrightarrow> (\<exists>k v. record_in l k v = Inr m)"

lemma record_extends: "record_step l m \<Longrightarrow> inv l \<Longrightarrow> inv m \<and> bound l \<subseteq>\<^sub>m bound m"
  using record_keeps record_fresh record_binds by (fastforce simp: record_step_def map_le_def)

lemma records_extend: "record_step\<^sup>*\<^sup>* l m \<Longrightarrow> inv l \<Longrightarrow> inv m \<and> bound l \<subseteq>\<^sub>m bound m"
proof (induction rule: rtranclp_induct)
  case base
  then show ?case by simp
next
  case (step m n)
  then show ?case using record_extends map_le_trans by blast
qed

lemma binding_persists:
  "record_step\<^sup>*\<^sup>* l m \<Longrightarrow> inv l \<Longrightarrow> bound l k = Some v \<Longrightarrow> bound m k = Some v"
  using records_extend [of l m] by (auto simp: map_le_def dom_def)

lemma recorded_once:
  assumes "record_in l k v = Inr m" and "inv l" and "record_step\<^sup>*\<^sup>* m n"
  shows "\<nexists>r. record_in n k w = Inr r"
proof -
  have m: "inv m" "bound m k = Some v" using assms record_keeps record_binds by simp_all
  then have "inv n" "bound n k = Some v" using assms(3) records_extend binding_persists by blast+
  then show ?thesis using record_fresh by fastforce
qed

end

text \<open>
  A register that answers a retry: writing a value under its key either binds it or finds the same
  value there, and no step of the system unbinds or rebinds a key.
\<close>

locale write_once =
  fixes bound :: "'l \<Rightarrow> 'k \<Rightarrow> 'v option" and puts :: "'l \<Rightarrow> 'v \<Rightarrow> 'l \<Rightarrow> bool" and key_of :: "'v \<Rightarrow> 'k"
    and step :: "'l \<Rightarrow> 'l \<Rightarrow> bool"
  assumes put_binds: "puts l v m \<Longrightarrow> bound m (key_of v) = Some v"
    and put_agrees: "puts l v m \<Longrightarrow> bound l (key_of v) = Some u \<Longrightarrow> u = v \<and> m = l"
    and step_keeps: "step l m \<Longrightarrow> bound l \<subseteq>\<^sub>m bound m"
begin

lemma steps_keep: "step\<^sup>*\<^sup>* l m \<Longrightarrow> bound l \<subseteq>\<^sub>m bound m"
proof (induction rule: rtranclp_induct)
  case (step m n)
  show ?case by (rule map_le_trans [OF step.IH step_keeps [OF step.hyps(2)]])
qed (rule map_le_refl)

lemma stays_bound: "step\<^sup>*\<^sup>* l m \<Longrightarrow> bound l k = Some v \<Longrightarrow> bound m k = Some v"
  using steps_keep [of l m] by (auto simp: map_le_def dom_def)

lemma put_stays: "puts l v m \<Longrightarrow> step\<^sup>*\<^sup>* m n \<Longrightarrow> bound n (key_of v) = Some v"
  using stays_bound put_binds by blast

lemma only_answer:
  assumes "puts l v m" and "step\<^sup>*\<^sup>* m n" and "puts n w k" and "key_of w = key_of v"
  shows "w = v \<and> k = n"
proof -
  have "bound n (key_of w) = Some v" unfolding assms(4) by (rule put_stays [OF assms(1,2)])
  from put_agrees [OF assms(3) this] show ?thesis by (simp only:)
qed

end

text \<open>A log only grows at its end, and what it holds stays well formed.\<close>

locale append_log =
  fixes put :: "'e list \<Rightarrow> 'a \<Rightarrow> exn + 'e list" and wf :: "'e list \<Rightarrow> bool"
  assumes put_appends: "put l a = Inr m \<Longrightarrow> wf l \<Longrightarrow> wf m \<and> (\<exists>e. m = l @ [e])"
begin

lemma puts_extend: "foldR (\<lambda>a l. put l a) as l = Inr m \<Longrightarrow> wf l \<Longrightarrow>
    wf m \<and> length m = length l + length as \<and> take (length l) m = l"
proof (induction "as" arbitrary: l)
  case Nil
  then show ?case by simp
next
  case (Cons a "as")
  then obtain k where k: "put l a = Inr k" "foldR (\<lambda>a l. put l a) as k = Inr m"
    by (auto simp: bindR_Inr_iff)
  then obtain e where "k = l @ [e]" "wf k" using put_appends Cons.prems by blast
  moreover have "wf m \<and> length m = length k + length as \<and> take (length k) m = k"
    using Cons.IH [OF k(2)] \<open>wf k\<close> by simp
  ultimately show ?case
    by (metis (no_types) append_eq_conv_conj append_take_drop_id add_Suc_right add_Suc length_Cons
        length_append_singleton take_all take_append append_assoc)
qed

end

section \<open>Replay guards\<close>

text \<open>
  A receiver keeps, per channel, the last sequence number it let through. \<open>admit\<close> either
  refuses a message or returns the next state, and no step of the receiver lowers the number.
\<close>

locale replay_guard =
  fixes admit :: "'s \<Rightarrow> 'm \<Rightarrow> 's option" and last_seq :: "'s \<Rightarrow> 'c \<Rightarrow> int option"
    and channel_of :: "'m \<Rightarrow> 'c" and seq_of :: "'m \<Rightarrow> int" and step :: "'s \<Rightarrow> 's \<Rightarrow> bool"
  assumes admit_newer: "admit s m = Some t \<Longrightarrow> last_seq s (channel_of m) = Some n \<Longrightarrow> n < seq_of m"
    and admit_records: "admit s m = Some t \<Longrightarrow> last_seq t (channel_of m) = Some (seq_of m)"
    and step_climbs: "step s t \<Longrightarrow> last_seq s c = Some n \<Longrightarrow> \<exists>k. last_seq t c = Some k \<and> n \<le> k"
begin

lemma steps_climb: "step\<^sup>*\<^sup>* s t \<Longrightarrow> last_seq s c = Some n \<Longrightarrow> \<exists>k. last_seq t c = Some k \<and> n \<le> k"
proof (induction rule: rtranclp_induct)
  case base
  then show ?case by simp
next
  case (step t u)
  then show ?case using step_climbs order_trans by blast
qed

lemma no_replay:
  assumes "admit s m = Some t" and "step\<^sup>*\<^sup>* t u"
    and "channel_of m' = channel_of m" and "seq_of m' \<le> seq_of m"
  shows "admit u m' = None"
proof (rule ccontr)
  assume "admit u m' \<noteq> None"
  then obtain v where v: "admit u m' = Some v" by auto
  obtain k where "last_seq u (channel_of m') = Some k" "seq_of m \<le> k"
    using steps_climb [OF assms(2) admit_records [OF assms(1)]] assms(3) by auto
  then show False using admit_newer [OF v] assms(4) by fastforce
qed

end

end
