(* ===== verification/Fleet_Model.thy ===== *)
theory Fleet_Model
  imports Py_Datetime Interfaces
begin

text \<open>
  The desired-state model, \<open>fleet_manager/model.py\<close>: the scalar validators, the frozen value
  types with what their \<open>__post_init__\<close> refuses, the aggregate \<open>DesiredState\<close> and its
  transitions. Constructors (\<open>..._make\<close>) take the raw values a caller or a document supplies and
  either raise or return the typed record; \<open>dataclasses.replace\<close> runs the constructor again on
  the fields of the changed record (\<open>..._replace\<close>). Arguments that are already of an enum or of
  another value type are typed in the model, so the corresponding \<open>isinstance\<close> checks hold by
  typing.
\<close>

section \<open>Patterns and enums\<close>

definition id_char :: "char \<Rightarrow> bool" where
  "id_char c \<longleftrightarrow> is_lower c \<or> is_digit c \<or> c = CHR ''.'' \<or> c = CHR ''_'' \<or> c = CHR ''-''"

text \<open>\<^verbatim>\<open>^[a-z0-9][a-z0-9._-]{0,63}$\<close>\<close>

definition identifier_body :: "string \<Rightarrow> bool" where
  "identifier_body s \<longleftrightarrow> s \<noteq> [] \<and> length s \<le> 64 \<and> (is_lower (hd s) \<or> is_digit (hd s))
     \<and> list_all id_char (tl s)"

definition is_identifier :: "string \<Rightarrow> bool" where
  "is_identifier s \<longleftrightarrow> dollar identifier_body s"

text \<open>\<^verbatim>\<open>^[A-Za-z0-9][A-Za-z0-9._:-]{0,127}$\<close>\<close>

definition request_char :: "char \<Rightarrow> bool" where
  "request_char c \<longleftrightarrow> is_alnum c \<or> c = CHR ''.'' \<or> c = CHR ''_'' \<or> c = CHR '':'' \<or> c = CHR ''-''"

definition request_body :: "string \<Rightarrow> bool" where
  "request_body s \<longleftrightarrow> s \<noteq> [] \<and> length s \<le> 128 \<and> is_alnum (hd s) \<and> list_all request_char (tl s)"

definition is_request_id :: "string \<Rightarrow> bool" where
  "is_request_id s \<longleftrightarrow> dollar request_body s"

text \<open>\<^verbatim>\<open>^[A-Za-z0-9_.-]+/[A-Za-z0-9_.-]+$\<close>\<close>

definition repo_char :: "char \<Rightarrow> bool" where
  "repo_char c \<longleftrightarrow> is_alnum c \<or> c = CHR ''_'' \<or> c = CHR ''.'' \<or> c = CHR ''-''"

definition repository_body :: "string \<Rightarrow> bool" where
  "repository_body s \<longleftrightarrow>
     (let owner = takeWhile (\<lambda>c. c \<noteq> CHR ''/'') s; rest = dropWhile (\<lambda>c. c \<noteq> CHR ''/'') s in
      owner \<noteq> [] \<and> list_all repo_char owner \<and> rest \<noteq> [] \<and> tl rest \<noteq> [] \<and> list_all repo_char (tl rest))"

definition is_repository :: "string \<Rightarrow> bool" where
  "is_repository s \<longleftrightarrow> dollar repository_body s"

text \<open>\<^verbatim>\<open>^sha256:[0-9a-f]{64}$\<close>\<close>

definition digest_body :: "string \<Rightarrow> bool" where
  "digest_body s \<longleftrightarrow> starts_with ''sha256:'' s \<and> length s = 71 \<and> list_all is_hex (drop 7 s)"

definition is_digest :: "string \<Rightarrow> bool" where
  "is_digest s \<longleftrightarrow> dollar digest_body s"

text \<open>\<^verbatim>\<open>^[A-Za-z0-9 .,:/_+-]{1,96}$\<close>\<close>

definition text_char :: "char \<Rightarrow> bool" where
  "text_char c \<longleftrightarrow> is_alnum c \<or> c \<in> set '' .,:/_+-''"

definition free_text_body :: "string \<Rightarrow> bool" where
  "free_text_body s \<longleftrightarrow> s \<noteq> [] \<and> length s \<le> 96 \<and> list_all text_char s"

definition is_free_text :: "string \<Rightarrow> bool" where
  "is_free_text s \<longleftrightarrow> dollar free_text_body s"

definition update_channels :: "string list" where
  "update_channels = [''canary'', ''pinned'', ''stable'']"

datatype trust_class = PUBLIC | PRIVATE | ISOLATED

fun trust_value :: "trust_class \<Rightarrow> string" where
  "trust_value PUBLIC = ''public''"
| "trust_value PRIVATE = ''private''"
| "trust_value ISOLATED = ''isolated''"

datatype runtime = DOCKER | PODMAN

fun runtime_value :: "runtime \<Rightarrow> string" where
  "runtime_value DOCKER = ''docker''"
| "runtime_value PODMAN = ''podman''"

datatype host_state = H_ACTIVE | H_DRAINING | H_DRAINED | H_MAINTENANCE

fun host_state_value :: "host_state \<Rightarrow> string" where
  "host_state_value H_ACTIVE = ''active''"
| "host_state_value H_DRAINING = ''draining''"
| "host_state_value H_DRAINED = ''drained''"
| "host_state_value H_MAINTENANCE = ''maintenance''"

datatype assignment_state = ASSIGNED | RELEASED

datatype drain_state = D_DRAINING | D_DRAINED | D_ENDED

fun drain_state_value :: "drain_state \<Rightarrow> string" where
  "drain_state_value D_DRAINING = ''draining''"
| "drain_state_value D_DRAINED = ''drained''"
| "drain_state_value D_ENDED = ''ended''"

datatype rollout_state = R_IN_PROGRESS | R_COMPLETED | R_ROLLED_BACK

fun rollout_state_value :: "rollout_state \<Rightarrow> string" where
  "rollout_state_value R_IN_PROGRESS = ''in_progress''"
| "rollout_state_value R_COMPLETED = ''completed''"
| "rollout_state_value R_ROLLED_BACK = ''rolled_back''"

section \<open>Scalar validation\<close>

definition model_error :: "string \<Rightarrow> 'a res" where
  "model_error m = raise ModelError m"

definition str_matching :: "(string \<Rightarrow> bool) \<Rightarrow> pyval \<Rightarrow> string \<Rightarrow> string res" where
  "str_matching p v msg =
     (case v of PStr s \<Rightarrow> if p s then Inr s else model_error msg | _ \<Rightarrow> model_error msg)"

definition identifier_of :: "pyval \<Rightarrow> string \<Rightarrow> string res" where
  "identifier_of v w = str_matching is_identifier v
     (w @ '': must be a lowercase identifier (a-z 0-9 . _ -, 1-64 chars)'')"

definition request_id :: "pyval \<Rightarrow> string \<Rightarrow> string res" where
  "request_id v w = str_matching is_request_id v
     (w @ '': must match [A-Za-z0-9][A-Za-z0-9._:-]{0,127}'')"

definition repository_name :: "pyval \<Rightarrow> string \<Rightarrow> string res" where
  "repository_name v w = str_matching is_repository v (w @ '': must be owner/name'')"

definition digest :: "pyval \<Rightarrow> string \<Rightarrow> string res" where
  "digest v w = str_matching is_digest v
     (w @ '': must be a pinned digest, sha256:<64 lowercase hex> (tags and '' @ [CHR 0x27] @ ''latest''
        @ [CHR 0x27] @ '' cannot be pinned)'')"

definition free_text :: "pyval \<Rightarrow> string \<Rightarrow> string res" where
  "free_text v w = str_matching is_free_text v
     (w @ '': must be short free text (letters, digits, . , : / _ + -)'')"

definition count_int :: "pyval \<Rightarrow> string \<Rightarrow> int \<Rightarrow> int res" where
  "count_int v w minimum =
     (case v of
        PInt i \<Rightarrow> if i < minimum then model_error (w @ '': must be an integer >= '' @ int_str minimum)
                  else Inr i
      | _ \<Rightarrow> model_error (w @ '': must be an integer >= '' @ int_str minimum))"

text \<open>\<open>_timestamp\<close> returns the instant in UTC, \<open>_instant\<close> parses that text again.\<close>

definition timestamp :: "pyval \<Rightarrow> string \<Rightarrow> string res" where
  "timestamp v w =
     (case v of
        PStr s \<Rightarrow>
          (case fromisoformat (replace_all ''Z'' ''+00:00'' s) of
             None \<Rightarrow> model_error (w @ '': must be an ISO-8601 timestamp with a timezone'')
           | Some d \<Rightarrow>
               if dt_offset d = None then model_error (w @ '': must carry a timezone'')
               else bindR (astimezone_utc d) (\<lambda>u. Inr (isoformat_utc u)))
      | _ \<Rightarrow> model_error (w @ '': must be an ISO-8601 timestamp with a timezone''))"

definition instant :: "pyval \<Rightarrow> string \<Rightarrow> datetime res" where
  "instant v w =
     bindR (timestamp v w) (\<lambda>s.
       case fromisoformat s of None \<Rightarrow> raise PyValueError ''Invalid isoformat string'' | Some d \<Rightarrow> Inr d)"

text \<open>A validated value stored as it was given.\<close>

definition stamp_of :: "pyval \<Rightarrow> string \<Rightarrow> string res" where
  "stamp_of v w =
     bindR (timestamp v w) (\<lambda>_. case v of PStr s \<Rightarrow> Inr s | _ \<Rightarrow> Inr [])"

definition optional :: "(pyval \<Rightarrow> string \<Rightarrow> 'a res) \<Rightarrow> pyval \<Rightarrow> string \<Rightarrow> 'a option res" where
  "optional f v w = (if v = PNone then Inr None else bindR (f v w) (\<lambda>x. Inr (Some x)))"

text \<open>
  \<open>_choice\<close> over \<open>UPDATE_CHANNELS\<close>: a membership test in a frozenset, so an unhashable value
  is a \<open>TypeError\<close>.
\<close>

definition update_channel_choice :: "pyval \<Rightarrow> string \<Rightarrow> string res" where
  "update_channel_choice v w =
     (let refuse = model_error (w @ '': must be one of '' @ join '', '' update_channels) in
      case v of
        PStr s \<Rightarrow> if s \<in> set update_channels then Inr s else refuse
      | PList _ \<Rightarrow> raise PyTypeError ''unhashable type''
      | PDict _ \<Rightarrow> raise PyTypeError ''unhashable type''
      | _ \<Rightarrow> refuse)"

definition identifiers_at :: "string \<Rightarrow> pyval list \<Rightarrow> string list res" where
  "identifiers_at w vs = eachR (\<lambda>i v. identifier_of v (index_str w i)) 0 vs"

text \<open>\<open>_identifiers\<close> on a sequence.\<close>

definition identifiers :: "pyval list \<Rightarrow> string \<Rightarrow> string list res" where
  "identifiers vs w =
     (if vs = [] then model_error (w @ '': must be a non-empty list'') else identifiers_at w vs)"

definition digests_differ :: "string \<Rightarrow> string \<Rightarrow> string \<Rightarrow> unit res" where
  "digests_differ one other w =
     (if one = other then model_error (w @ '': rollback image must differ from the current image'')
      else Inr ())"

section \<open>Value types\<close>

record disruption_budget =
  max_parallel :: int

definition disruption_budget_make :: "pyval \<Rightarrow> disruption_budget res" where
  "disruption_budget_make v =
     bindR (count_int v ''disruption_budget.max_parallel'' 1) (\<lambda>n. Inr \<lparr>max_parallel = n\<rparr>)"

record repository =
  r_name :: string
  r_trust_class :: trust_class
  r_runner_group :: "string option"

definition repository_make :: "pyval \<Rightarrow> trust_class \<Rightarrow> pyval \<Rightarrow> repository res" where
  "repository_make name trust grp =
     bindR (repository_name name ''repository.name'') (\<lambda>n.
     bindR (optional identifier_of grp ''repository.runner_group'') (\<lambda>g.
       Inr \<lparr>r_name = n, r_trust_class = trust, r_runner_group = g\<rparr>))"

record pool =
  p_pool_id :: string
  p_revision :: int
  p_trust_class :: trust_class
  p_required_labels :: "(string \<times> string) list"
  p_runtime :: runtime
  p_image_digest :: string
  p_architectures :: "string list"
  p_warm_min :: int
  p_warm_max :: int
  p_scale_ceiling :: int
  p_idle_timeout_seconds :: int
  p_job_timeout_seconds :: int
  p_cleanup_timeout_seconds :: int
  p_network_profile :: string
  p_filesystem_profile :: string
  p_secret_profile :: string
  p_update_channel :: string
  p_rollback_image_digest :: string
  p_maintenance_window :: string
  p_disruption_budget :: disruption_budget
  p_owner :: string
  p_escalation :: string
  p_allowed_repositories :: "string list"
  p_runner_group :: "string option"

text \<open>The arguments of \<open>Pool(...)\<close>; \<open>ephemeral\<close> must be \<open>True\<close>, so the record does not keep it.\<close>

record raw_pool =
  rp_pool_id :: pyval
  rp_revision :: pyval
  rp_trust_class :: trust_class
  rp_required_labels :: "(string \<times> string) list"
  rp_runtime :: runtime
  rp_image_digest :: pyval
  rp_architectures :: "pyval list"
  rp_warm_min :: pyval
  rp_warm_max :: pyval
  rp_scale_ceiling :: pyval
  rp_idle_timeout_seconds :: pyval
  rp_job_timeout_seconds :: pyval
  rp_cleanup_timeout_seconds :: pyval
  rp_network_profile :: pyval
  rp_filesystem_profile :: pyval
  rp_secret_profile :: pyval
  rp_update_channel :: pyval
  rp_rollback_image_digest :: pyval
  rp_maintenance_window :: pyval
  rp_disruption_budget :: disruption_budget
  rp_owner :: pyval
  rp_escalation :: pyval
  rp_allowed_repositories :: "pyval list"
  rp_runner_group :: pyval
  rp_ephemeral :: pyval

definition check_pool_label :: "string \<times> string \<Rightarrow> (string \<times> string) res" where
  "check_pool_label l =
     (case l of (key, item) \<Rightarrow>
        bindR (identifier_of (PStr key) (''pool.required_labels.'' @ key)) (\<lambda>_.
          if item = [] \<or> length item > 96
          then model_error (''pool.required_labels.'' @ key @ '': label values must be 1-96 characters'')
          else Inr l))"

definition check_pool_labels :: "(string \<times> string) list \<Rightarrow> (string \<times> string) list res" where
  "check_pool_labels ls =
     (if ls = [] then model_error ''pool.required_labels: must be a non-empty label set''
      else mapR check_pool_label ls)"

definition check_pool_architectures :: "pyval list \<Rightarrow> string list res" where
  "check_pool_architectures vs =
     (if vs = [] then model_error ''pool.architectures: must be a non-empty tuple''
      else identifiers_at ''pool.architectures'' vs)"

definition check_pool_warm :: "pyval \<Rightarrow> pyval \<Rightarrow> pyval \<Rightarrow> (int \<times> int \<times> int) res" where
  "check_pool_warm lo hi ceiling =
     bindR (count_int lo ''pool.warm_min'' 0) (\<lambda>l.
     bindR (count_int hi ''pool.warm_max'' 1) (\<lambda>h.
     bindR (count_int ceiling ''pool.scale_ceiling'' 1) (\<lambda>c.
       if l \<le> h \<and> h \<le> c then Inr (l, h, c)
       else model_error ''pool warm bounds: warm_min <= warm_max <= scale_ceiling must hold'')))"

definition check_pool_scope :: "pyval list \<Rightarrow> pyval \<Rightarrow> (string list \<times> string option) res" where
  "check_pool_scope repos grp =
     bindR (eachR (\<lambda>i v. repository_name v (index_str ''pool.allowed_repositories'' i)) 0 repos) (\<lambda>rs.
       if (rs \<noteq> []) = (grp \<noteq> PNone)
       then model_error ''pool scope: declare exactly one of allowed_repositories or runner_group''
       else bindR (optional identifier_of grp ''pool.runner_group'') (\<lambda>g. Inr (rs, g)))"

definition pool_make :: "raw_pool \<Rightarrow> pool res" where
  "pool_make r =
     bindR (identifier_of (rp_pool_id r) ''pool.pool_id'') (\<lambda>pid.
     bindR (count_int (rp_revision r) ''pool.revision'' 1) (\<lambda>n.
     bindR (digest (rp_image_digest r) ''pool.image_digest'') (\<lambda>img.
     bindR (digest (rp_rollback_image_digest r) ''pool.rollback_image_digest'') (\<lambda>rollback.
     bindR (digests_differ rollback img ''pool'') (\<lambda>_.
     bindR (check_pool_labels (rp_required_labels r)) (\<lambda>labels.
     bindR (check_pool_architectures (rp_architectures r)) (\<lambda>archs.
     bindR (if rp_ephemeral r = PBool True then Inr () else model_error
         (''pool.ephemeral: must be true -- the v1 capacity contract declares demand.ephemeral as const ''
          @ ''true, so a persistent pool would be a fleet the contract cannot request'')) (\<lambda>_.
     bindR (check_pool_warm (rp_warm_min r) (rp_warm_max r) (rp_scale_ceiling r)) (\<lambda>(lo, hi, ceiling).
     bindR (count_int (rp_idle_timeout_seconds r) ''pool.idle_timeout_seconds'' 1) (\<lambda>idle.
     bindR (count_int (rp_job_timeout_seconds r) ''pool.job_timeout_seconds'' 1) (\<lambda>job.
     bindR (count_int (rp_cleanup_timeout_seconds r) ''pool.cleanup_timeout_seconds'' 1) (\<lambda>cleanup.
     bindR (identifier_of (rp_network_profile r) ''pool.network_profile'') (\<lambda>net.
     bindR (identifier_of (rp_filesystem_profile r) ''pool.filesystem_profile'') (\<lambda>fs.
     bindR (identifier_of (rp_secret_profile r) ''pool.secret_profile'') (\<lambda>sec.
     bindR (update_channel_choice (rp_update_channel r) ''pool.update_channel'') (\<lambda>chan.
     bindR (free_text (rp_maintenance_window r) ''pool.maintenance_window'') (\<lambda>window.
     bindR (free_text (rp_owner r) ''pool.owner'') (\<lambda>owner.
     bindR (free_text (rp_escalation r) ''pool.escalation'') (\<lambda>esc.
     bindR (check_pool_scope (rp_allowed_repositories r) (rp_runner_group r)) (\<lambda>(repos, grp).
       Inr \<lparr>p_pool_id = pid, p_revision = n, p_trust_class = rp_trust_class r,
            p_required_labels = labels, p_runtime = rp_runtime r, p_image_digest = img,
            p_architectures = archs, p_warm_min = lo, p_warm_max = hi, p_scale_ceiling = ceiling,
            p_idle_timeout_seconds = idle, p_job_timeout_seconds = job,
            p_cleanup_timeout_seconds = cleanup, p_network_profile = net,
            p_filesystem_profile = fs, p_secret_profile = sec, p_update_channel = chan,
            p_rollback_image_digest = rollback, p_maintenance_window = window,
            p_disruption_budget = rp_disruption_budget r, p_owner = owner, p_escalation = esc,
            p_allowed_repositories = repos, p_runner_group = grp\<rparr>))))))))))))))))))))"

definition raw_of_pool :: "pool \<Rightarrow> raw_pool" where
  "raw_of_pool p =
     \<lparr>rp_pool_id = PStr (p_pool_id p), rp_revision = PInt (p_revision p),
      rp_trust_class = p_trust_class p, rp_required_labels = p_required_labels p,
      rp_runtime = p_runtime p, rp_image_digest = PStr (p_image_digest p),
      rp_architectures = map PStr (p_architectures p), rp_warm_min = PInt (p_warm_min p),
      rp_warm_max = PInt (p_warm_max p), rp_scale_ceiling = PInt (p_scale_ceiling p),
      rp_idle_timeout_seconds = PInt (p_idle_timeout_seconds p),
      rp_job_timeout_seconds = PInt (p_job_timeout_seconds p),
      rp_cleanup_timeout_seconds = PInt (p_cleanup_timeout_seconds p),
      rp_network_profile = PStr (p_network_profile p),
      rp_filesystem_profile = PStr (p_filesystem_profile p),
      rp_secret_profile = PStr (p_secret_profile p), rp_update_channel = PStr (p_update_channel p),
      rp_rollback_image_digest = PStr (p_rollback_image_digest p),
      rp_maintenance_window = PStr (p_maintenance_window p),
      rp_disruption_budget = p_disruption_budget p, rp_owner = PStr (p_owner p),
      rp_escalation = PStr (p_escalation p),
      rp_allowed_repositories = map PStr (p_allowed_repositories p),
      rp_runner_group = opt_str (p_runner_group p), rp_ephemeral = PBool True\<rparr>"

definition pool_replace :: "pool \<Rightarrow> pool res" where
  "pool_replace p = pool_make (raw_of_pool p)"

definition with_image :: "pool \<Rightarrow> string \<Rightarrow> string \<Rightarrow> pool res" where
  "with_image p img rollback =
     pool_replace (p\<lparr>p_revision := p_revision p + 1, p_image_digest := img,
                     p_rollback_image_digest := rollback\<rparr>)"

record host =
  h_host_id :: string
  h_architectures :: "string list"
  h_runtimes :: "runtime list"
  h_labels :: "(string \<times> string) list"
  h_allowed_pools :: "string list"
  h_slots :: int
  h_state :: host_state

definition check_host_label :: "string \<times> string \<Rightarrow> (string \<times> string) res" where
  "check_host_label l =
     (case l of (key, item) \<Rightarrow>
        bindR (identifier_of (PStr key) (''host.labels.'' @ key)) (\<lambda>_.
          if item = [] then model_error (''host.labels.'' @ key @ '': label values must be non-empty'')
          else Inr l))"

definition host_make ::
  "pyval \<Rightarrow> pyval list \<Rightarrow> runtime list \<Rightarrow> (string \<times> string) list \<Rightarrow> pyval list \<Rightarrow> pyval \<Rightarrow> host_state
   \<Rightarrow> host res" where
  "host_make hid archs runtimes labels pools slots st =
     bindR (identifier_of hid ''host.host_id'') (\<lambda>i.
     bindR (if archs = [] then model_error ''host.architectures: must be a non-empty tuple''
            else identifiers_at ''host.architectures'' archs) (\<lambda>as.
     bindR (if runtimes = [] then model_error ''host.runtimes: must be a non-empty tuple''
            else Inr ()) (\<lambda>_.
     bindR (mapR check_host_label labels) (\<lambda>ls.
     bindR (identifiers pools ''host.allowed_pools'') (\<lambda>ps.
     bindR (count_int slots ''host.slots'' 1) (\<lambda>n.
       Inr \<lparr>h_host_id = i, h_architectures = as, h_runtimes = runtimes, h_labels = ls,
            h_allowed_pools = ps, h_slots = n, h_state = st\<rparr>))))))"

definition host_replace :: "host \<Rightarrow> host res" where
  "host_replace h =
     host_make (PStr (h_host_id h)) (map PStr (h_architectures h)) (h_runtimes h) (h_labels h)
       (map PStr (h_allowed_pools h)) (PInt (h_slots h)) (h_state h)"

text \<open>Why a host cannot run a pool, or \<^const>\<open>None\<close> when it can.\<close>

definition refusal_for :: "host \<Rightarrow> pool \<Rightarrow> string option" where
  "refusal_for h p =
     (if h_state h \<noteq> H_ACTIVE then Some (''host is '' @ host_state_value (h_state h))
      else if p_runtime p \<notin> set (h_runtimes h)
        then Some (''host does not offer runtime '' @ runtime_value (p_runtime p))
      else if set (p_architectures p) \<inter> set (h_architectures h) = {}
        then Some (''host architectures do not intersect the pool'' @ [CHR 0x27] @ ''s'')
      else if p_pool_id p \<notin> set (h_allowed_pools h)
        then Some (''pool is not on the host'' @ [CHR 0x27] @ ''s allow-list'')
      else None)"

record assignment =
  a_assignment_id :: string
  a_request_id :: string
  a_pool_id :: string
  a_host_id :: string
  a_issued_at :: string
  a_released_at :: "string option"

definition check_release_order :: "string \<Rightarrow> string \<Rightarrow> unit res" where
  "check_release_order released issued =
     bindR (instant (PStr released) ''assignment.released_at'') (\<lambda>r.
     bindR (instant (PStr issued) ''assignment.issued_at'') (\<lambda>i.
       if dt_instant r < dt_instant i
       then model_error ''assignment.released_at: must not precede issued_at'' else Inr ()))"

definition assignment_make ::
  "pyval \<Rightarrow> pyval \<Rightarrow> pyval \<Rightarrow> pyval \<Rightarrow> pyval \<Rightarrow> pyval \<Rightarrow> assignment res" where
  "assignment_make aid rid pid hid issued released =
     bindR (identifier_of aid ''assignment.assignment_id'') (\<lambda>a.
     bindR (request_id rid ''assignment.request_id'') (\<lambda>r.
     bindR (identifier_of pid ''assignment.pool_id'') (\<lambda>p.
     bindR (identifier_of hid ''assignment.host_id'') (\<lambda>h.
     bindR (stamp_of issued ''assignment.issued_at'') (\<lambda>i.
     bindR (optional stamp_of released ''assignment.released_at'') (\<lambda>e.
     bindR (case e of None \<Rightarrow> Inr () | Some t \<Rightarrow> check_release_order t i) (\<lambda>_.
       Inr \<lparr>a_assignment_id = a, a_request_id = r, a_pool_id = p, a_host_id = h, a_issued_at = i,
            a_released_at = e\<rparr>)))))))"

definition assignment_replace :: "assignment \<Rightarrow> assignment res" where
  "assignment_replace a =
     assignment_make (PStr (a_assignment_id a)) (PStr (a_request_id a)) (PStr (a_pool_id a))
       (PStr (a_host_id a)) (PStr (a_issued_at a)) (opt_str (a_released_at a))"

definition a_state :: "assignment \<Rightarrow> assignment_state" where
  "a_state a = (if a_released_at a \<noteq> None then RELEASED else ASSIGNED)"

record capacity =
  cap_total :: int
  cap_in_use :: int

definition capacity_make :: "int \<Rightarrow> int \<Rightarrow> capacity res" where
  "capacity_make slots in_use =
     bindR (count_int (PInt slots) ''capacity.total'' 0) (\<lambda>_.
     bindR (count_int (PInt in_use) ''capacity.in_use'' 0) (\<lambda>_.
       if in_use > slots then model_error ''capacity.in_use: cannot exceed capacity.total''
       else Inr \<lparr>cap_total = slots, cap_in_use = in_use\<rparr>))"

definition cap_free :: "capacity \<Rightarrow> int" where
  "cap_free c = cap_total c - cap_in_use c"

definition saturated :: "capacity \<Rightarrow> bool" where
  "saturated c \<longleftrightarrow> cap_free c = 0"

text \<open>\<open>completed_at\<close> and \<open>ended_at\<close> are stored without a check, whatever they are.\<close>

record drain =
  d_host_id :: string
  d_reason :: string
  d_requested_at :: string
  d_state :: drain_state
  d_completed_at :: pyval
  d_ended_at :: pyval

definition drain_make ::
  "pyval \<Rightarrow> pyval \<Rightarrow> pyval \<Rightarrow> drain_state \<Rightarrow> pyval \<Rightarrow> pyval \<Rightarrow> drain res" where
  "drain_make hid reason requested st completed ended =
     bindR (identifier_of hid ''drain.host_id'') (\<lambda>h.
     bindR (free_text reason ''drain.reason'') (\<lambda>r.
     bindR (stamp_of requested ''drain.requested_at'') (\<lambda>q.
       Inr \<lparr>d_host_id = h, d_reason = r, d_requested_at = q, d_state = st,
            d_completed_at = completed, d_ended_at = ended\<rparr>)))"

definition drain_replace :: "drain \<Rightarrow> drain res" where
  "drain_replace d =
     drain_make (PStr (d_host_id d)) (PStr (d_reason d)) (PStr (d_requested_at d)) (d_state d)
       (d_completed_at d) (d_ended_at d)"

record rollout =
  ro_rollout_id :: string
  ro_pool_id :: string
  ro_from_image_digest :: string
  ro_to_image_digest :: string
  ro_started_at :: string
  ro_state :: rollout_state

definition rollout_make ::
  "pyval \<Rightarrow> pyval \<Rightarrow> pyval \<Rightarrow> pyval \<Rightarrow> pyval \<Rightarrow> rollout_state \<Rightarrow> rollout res" where
  "rollout_make rid pid from_image to_image started st =
     bindR (identifier_of rid ''rollout.rollout_id'') (\<lambda>r.
     bindR (identifier_of pid ''rollout.pool_id'') (\<lambda>p.
     bindR (digest from_image ''rollout.from_image_digest'') (\<lambda>f.
     bindR (digest to_image ''rollout.to_image_digest'') (\<lambda>t.
     bindR (if f = t then model_error ''rollout: from and to image digests must differ''
            else Inr ()) (\<lambda>_.
     bindR (stamp_of started ''rollout.started_at'') (\<lambda>s.
       Inr \<lparr>ro_rollout_id = r, ro_pool_id = p, ro_from_image_digest = f, ro_to_image_digest = t,
            ro_started_at = s, ro_state = st\<rparr>))))))"

section \<open>The aggregate\<close>

record desired_state =
  ds_revision :: int
  ds_repositories :: "repository list"
  ds_pools :: "pool list"
  ds_hosts :: "host list"
  ds_assignments :: "assignment list"
  ds_drains :: "drain list"
  ds_rollouts :: "rollout list"

fun unique_by :: "string \<Rightarrow> string \<Rightarrow> string list \<Rightarrow> string list \<Rightarrow> unit res" where
  "unique_by attribute w seen [] = Inr ()"
| "unique_by attribute w seen (x # xs) =
     (if x \<in> set seen then model_error (w @ '': duplicate '' @ attribute @ '' '' @ x)
      else unique_by attribute w (x # seen) xs)"

definition check_assignment_refs :: "string list \<Rightarrow> string list \<Rightarrow> assignment \<Rightarrow> assignment res" where
  "check_assignment_refs pool_ids host_ids a =
     (if a_pool_id a \<notin> set pool_ids
        then model_error (''desired_state.assignments: references unknown pool '' @ a_pool_id a)
      else if a_host_id a \<notin> set host_ids
        then model_error (''desired_state.assignments: references unknown host '' @ a_host_id a)
      else Inr a)"

definition check_drain_ref :: "string list \<Rightarrow> drain \<Rightarrow> drain res" where
  "check_drain_ref host_ids d =
     (if d_host_id d \<notin> set host_ids
        then model_error (''desired_state.drains: references unknown host '' @ d_host_id d)
      else Inr d)"

definition check_rollout_ref :: "string list \<Rightarrow> rollout \<Rightarrow> rollout res" where
  "check_rollout_ref pool_ids r =
     (if ro_pool_id r \<notin> set pool_ids
        then model_error (''desired_state.rollouts: references unknown pool '' @ ro_pool_id r)
      else Inr r)"

text \<open>\<open>DesiredState.__post_init__\<close> on the given revision and the typed collections.\<close>

definition desired_state_make :: "pyval \<Rightarrow> desired_state \<Rightarrow> desired_state res" where
  "desired_state_make revision s =
     bindR (count_int revision ''desired_state.revision'' 1) (\<lambda>n.
     bindR (unique_by ''name'' ''desired_state.repositories'' [] (map r_name (ds_repositories s))) (\<lambda>_.
     bindR (unique_by ''pool_id'' ''desired_state.pools'' [] (map p_pool_id (ds_pools s))) (\<lambda>_.
     bindR (unique_by ''host_id'' ''desired_state.hosts'' [] (map h_host_id (ds_hosts s))) (\<lambda>_.
     bindR (unique_by ''assignment_id'' ''desired_state.assignments'' []
             (map a_assignment_id (ds_assignments s))) (\<lambda>_.
     bindR (unique_by ''rollout_id'' ''desired_state.rollouts'' [] (map ro_rollout_id (ds_rollouts s))) (\<lambda>_.
     bindR (mapR (check_assignment_refs (map p_pool_id (ds_pools s)) (map h_host_id (ds_hosts s)))
             (ds_assignments s)) (\<lambda>_.
     bindR (mapR (check_drain_ref (map h_host_id (ds_hosts s))) (ds_drains s)) (\<lambda>_.
     bindR (mapR (check_rollout_ref (map p_pool_id (ds_pools s))) (ds_rollouts s)) (\<lambda>_.
       Inr (s\<lparr>ds_revision := n\<rparr>))))))))))"

text \<open>Lookups.\<close>

definition ds_pool :: "desired_state \<Rightarrow> string \<Rightarrow> pool res" where
  "ds_pool s pid =
     (case find (\<lambda>p. p_pool_id p = pid) (ds_pools s) of
        Some p \<Rightarrow> Inr p
      | None \<Rightarrow> model_error (''pool: no pool '' @ pid @ '' in revision '' @ int_str (ds_revision s)))"

definition ds_host :: "desired_state \<Rightarrow> string \<Rightarrow> host res" where
  "ds_host s hid =
     (case find (\<lambda>h. h_host_id h = hid) (ds_hosts s) of
        Some h \<Rightarrow> Inr h
      | None \<Rightarrow> model_error (''host: no host '' @ hid @ '' in revision '' @ int_str (ds_revision s)))"

definition ds_assignment :: "desired_state \<Rightarrow> string \<Rightarrow> assignment res" where
  "ds_assignment s aid =
     (case find (\<lambda>a. a_assignment_id a = aid) (ds_assignments s) of
        Some a \<Rightarrow> Inr a
      | None \<Rightarrow> model_error (''assignment: no assignment '' @ aid @ '' in revision ''
                  @ int_str (ds_revision s)))"

definition active_drain :: "desired_state \<Rightarrow> string \<Rightarrow> drain option" where
  "active_drain s hid = find (\<lambda>d. d_host_id d = hid \<and> d_state d \<noteq> D_ENDED) (rev (ds_drains s))"

definition in_use_of :: "desired_state \<Rightarrow> string \<Rightarrow> nat" where
  "in_use_of s hid =
     length (filter (\<lambda>a. a_host_id a = hid \<and> a_state a = ASSIGNED) (ds_assignments s))"

definition ds_capacity :: "desired_state \<Rightarrow> string \<Rightarrow> capacity res" where
  "ds_capacity s hid = bindR (ds_host s hid) (\<lambda>h. capacity_make (h_slots h) (int (in_use_of s hid)))"

text \<open>Transitions: each returns a new state at the next revision.\<close>

definition bumped :: "desired_state \<Rightarrow> desired_state \<Rightarrow> desired_state res" where
  "bumped s changed = desired_state_make (PInt (ds_revision s + 1)) changed"

definition with_host :: "desired_state \<Rightarrow> string \<Rightarrow> host_state \<Rightarrow> host list res" where
  "with_host s hid st =
     mapR (\<lambda>h. if h_host_id h = hid then host_replace (h\<lparr>h_state := st\<rparr>) else Inr h) (ds_hosts s)"

definition with_pool :: "desired_state \<Rightarrow> string \<Rightarrow> pool \<Rightarrow> pool list res" where
  "with_pool s pid updated =
     mapR (\<lambda>p. if p_pool_id p = pid
               then pool_replace (p\<lparr>p_revision := p_revision updated,
                      p_image_digest := p_image_digest updated,
                      p_rollback_image_digest := p_rollback_image_digest updated\<rparr>)
               else Inr p) (ds_pools s)"

definition capacity_text :: "capacity \<Rightarrow> string" where
  "capacity_text c =
     ''assignment refused: host is at capacity (total '' @ int_str (cap_total c) @ '', in_use ''
     @ int_str (cap_in_use c) @ '', free '' @ int_str (cap_free c) @ '')''"

definition with_assignment ::
  "desired_state \<Rightarrow> string \<Rightarrow> string \<Rightarrow> string \<Rightarrow> string \<Rightarrow> string \<Rightarrow> desired_state res" where
  "with_assignment s aid rid pid hid at =
     bindR (ds_pool s pid) (\<lambda>p.
     bindR (ds_host s hid) (\<lambda>h.
     bindR (case refusal_for h p of
              Some reason \<Rightarrow> model_error (''assignment refused: '' @ reason) | None \<Rightarrow> Inr ()) (\<lambda>_.
     bindR (ds_capacity s hid) (\<lambda>c.
     bindR (if saturated c then model_error (capacity_text c) else Inr ()) (\<lambda>_.
     bindR (assignment_make (PStr aid) (PStr rid) (PStr pid) (PStr hid) (PStr at) PNone) (\<lambda>a.
     bindR (if \<exists>x\<in>set (ds_assignments s). a_assignment_id x = aid
            then model_error (''assignment refused: '' @ aid @ '' already exists'') else Inr ()) (\<lambda>_.
       bumped s (s\<lparr>ds_assignments := ds_assignments s @ [a]\<rparr>))))))))"

definition with_release :: "desired_state \<Rightarrow> string \<Rightarrow> string \<Rightarrow> desired_state res" where
  "with_release s aid at =
     bindR (ds_assignment s aid) (\<lambda>a.
     bindR (if a_state a = RELEASED
            then model_error (''release refused: '' @ aid @ '' is already released'') else Inr ()) (\<lambda>_.
     bindR (timestamp (PStr at) ''release.at'') (\<lambda>_.
     bindR (mapR (\<lambda>x. if a_assignment_id x = aid
                       then assignment_replace (x\<lparr>a_released_at := Some at\<rparr>) else Inr x)
             (ds_assignments s)) (\<lambda>releases.
       bumped s (s\<lparr>ds_assignments := releases\<rparr>)))))"

definition with_drain :: "desired_state \<Rightarrow> string \<Rightarrow> string \<Rightarrow> string \<Rightarrow> desired_state res" where
  "with_drain s hid reason at =
     bindR (ds_host s hid) (\<lambda>h.
     bindR (if h_state h \<noteq> H_ACTIVE
            then model_error (''drain refused: host is '' @ host_state_value (h_state h)) else Inr ()) (\<lambda>_.
     bindR (drain_make (PStr hid) (PStr reason) (PStr at) D_DRAINING PNone PNone) (\<lambda>d.
     bindR (with_host s hid H_DRAINING) (\<lambda>hs.
       bumped s (s\<lparr>ds_hosts := hs, ds_drains := ds_drains s @ [d]\<rparr>)))))"

definition with_drain_complete :: "desired_state \<Rightarrow> string \<Rightarrow> string \<Rightarrow> desired_state res" where
  "with_drain_complete s hid at =
     bindR (ds_host s hid) (\<lambda>h.
     bindR (if h_state h \<noteq> H_DRAINING
            then model_error (''drain completion refused: host is '' @ host_state_value (h_state h))
            else Inr ()) (\<lambda>_.
     bindR (ds_capacity s hid) (\<lambda>c.
     bindR (if cap_in_use c \<noteq> 0
            then model_error (''drain completion refused: '' @ int_str (cap_in_use c)
                   @ '' assignment(s) still on the host'') else Inr ()) (\<lambda>_.
     bindR (mapR (\<lambda>d. if d_host_id d = hid \<and> d_state d = D_DRAINING
                       then drain_replace (d\<lparr>d_state := D_DRAINED, d_completed_at := PStr at\<rparr>)
                       else Inr d) (ds_drains s)) (\<lambda>ds.
     bindR (with_host s hid H_DRAINED) (\<lambda>hs.
       bumped s (s\<lparr>ds_hosts := hs, ds_drains := ds\<rparr>)))))))"

definition with_host_returned :: "desired_state \<Rightarrow> string \<Rightarrow> string \<Rightarrow> desired_state res" where
  "with_host_returned s hid at =
     bindR (ds_host s hid) (\<lambda>h.
     bindR (if h_state h \<noteq> H_DRAINED
            then model_error (''return refused: host is '' @ host_state_value (h_state h))
            else Inr ()) (\<lambda>_.
     bindR (mapR (\<lambda>d. if d_host_id d = hid \<and> d_state d = D_DRAINED
                       then drain_replace (d\<lparr>d_state := D_ENDED, d_ended_at := PStr at\<rparr>)
                       else Inr d) (ds_drains s)) (\<lambda>ds.
     bindR (with_host s hid H_ACTIVE) (\<lambda>hs.
       bumped s (s\<lparr>ds_hosts := hs, ds_drains := ds\<rparr>)))))"

definition with_rollout ::
  "desired_state \<Rightarrow> string \<Rightarrow> string \<Rightarrow> string \<Rightarrow> string \<Rightarrow> desired_state res" where
  "with_rollout s rid pid to_image at =
     bindR (ds_pool s pid) (\<lambda>p.
     bindR (digest (PStr to_image) ''rollout.to_image_digest'') (\<lambda>_.
     bindR (if to_image = p_image_digest p
            then model_error ''rollout refused: the pool already runs that image'' else Inr ()) (\<lambda>_.
     bindR (rollout_make (PStr rid) (PStr pid) (PStr (p_image_digest p)) (PStr to_image) (PStr at)
             R_IN_PROGRESS) (\<lambda>ro.
     bindR (with_image p to_image (p_image_digest p)) (\<lambda>updated.
     bindR (with_pool s pid updated) (\<lambda>ps.
       bumped s (s\<lparr>ds_pools := ps, ds_rollouts := ds_rollouts s @ [ro]\<rparr>)))))))"

text \<open>A state is stepped by any of the transitions, with any arguments.\<close>

inductive ds_step :: "desired_state \<Rightarrow> desired_state \<Rightarrow> bool" where
  assign: "with_assignment s aid rid pid hid at = Inr t \<Longrightarrow> ds_step s t"
| release: "with_release s aid at = Inr t \<Longrightarrow> ds_step s t"
| drain: "with_drain s hid reason at = Inr t \<Longrightarrow> ds_step s t"
| complete: "with_drain_complete s hid at = Inr t \<Longrightarrow> ds_step s t"
| return: "with_host_returned s hid at = Inr t \<Longrightarrow> ds_step s t"
| rollout: "with_rollout s rid pid to_image at = Inr t \<Longrightarrow> ds_step s t"

section \<open>What a validated value satisfies\<close>

text \<open>The instant a timestamp text denotes, when \<open>_timestamp\<close> accepts it.\<close>

definition stamp_us :: "string \<Rightarrow> int option" where
  "stamp_us s =
     (case fromisoformat (replace_all ''Z'' ''+00:00'' s) of
        None \<Rightarrow> None
      | Some d \<Rightarrow> if dt_offset d \<noteq> None \<and> in_calendar (dt_instant d) then Some (dt_instant d) else None)"

definition repository_ok :: "repository \<Rightarrow> bool" where
  "repository_ok r \<longleftrightarrow> is_repository (r_name r) \<and> pred_option is_identifier (r_runner_group r)"

definition pool_ok :: "pool \<Rightarrow> bool" where
  "pool_ok p \<longleftrightarrow>
     is_identifier (p_pool_id p) \<and> 1 \<le> p_revision p
     \<and> is_digest (p_image_digest p) \<and> is_digest (p_rollback_image_digest p)
     \<and> p_rollback_image_digest p \<noteq> p_image_digest p
     \<and> p_required_labels p \<noteq> []
     \<and> list_all (\<lambda>(k, v). is_identifier k \<and> v \<noteq> [] \<and> length v \<le> 96) (p_required_labels p)
     \<and> p_architectures p \<noteq> [] \<and> list_all is_identifier (p_architectures p)
     \<and> 0 \<le> p_warm_min p \<and> 1 \<le> p_warm_max p
     \<and> p_warm_min p \<le> p_warm_max p \<and> p_warm_max p \<le> p_scale_ceiling p
     \<and> 1 \<le> p_idle_timeout_seconds p \<and> 1 \<le> p_job_timeout_seconds p
     \<and> 1 \<le> p_cleanup_timeout_seconds p
     \<and> is_identifier (p_network_profile p) \<and> is_identifier (p_filesystem_profile p)
     \<and> is_identifier (p_secret_profile p) \<and> p_update_channel p \<in> set update_channels
     \<and> is_free_text (p_maintenance_window p) \<and> is_free_text (p_owner p)
     \<and> is_free_text (p_escalation p)
     \<and> list_all is_repository (p_allowed_repositories p)
     \<and> (p_allowed_repositories p \<noteq> []) = (p_runner_group p = None)
     \<and> pred_option is_identifier (p_runner_group p)"

definition host_ok :: "host \<Rightarrow> bool" where
  "host_ok h \<longleftrightarrow>
     is_identifier (h_host_id h) \<and> h_architectures h \<noteq> [] \<and> list_all is_identifier (h_architectures h)
     \<and> h_runtimes h \<noteq> [] \<and> list_all (\<lambda>(k, v). is_identifier k \<and> v \<noteq> []) (h_labels h)
     \<and> h_allowed_pools h \<noteq> [] \<and> list_all is_identifier (h_allowed_pools h) \<and> 1 \<le> h_slots h"

definition assignment_ok :: "assignment \<Rightarrow> bool" where
  "assignment_ok a \<longleftrightarrow>
     is_identifier (a_assignment_id a) \<and> is_request_id (a_request_id a)
     \<and> is_identifier (a_pool_id a) \<and> is_identifier (a_host_id a) \<and> stamp_us (a_issued_at a) \<noteq> None
     \<and> (case a_released_at a of None \<Rightarrow> True
        | Some r \<Rightarrow> stamp_us r \<noteq> None \<and> the (stamp_us (a_issued_at a)) \<le> the (stamp_us r))"

definition drain_ok :: "drain \<Rightarrow> bool" where
  "drain_ok d \<longleftrightarrow> is_identifier (d_host_id d) \<and> is_free_text (d_reason d)
     \<and> stamp_us (d_requested_at d) \<noteq> None"

definition rollout_ok :: "rollout \<Rightarrow> bool" where
  "rollout_ok r \<longleftrightarrow>
     is_identifier (ro_rollout_id r) \<and> is_identifier (ro_pool_id r)
     \<and> is_digest (ro_from_image_digest r) \<and> is_digest (ro_to_image_digest r)
     \<and> ro_from_image_digest r \<noteq> ro_to_image_digest r \<and> stamp_us (ro_started_at r) \<noteq> None"

definition refs_ok :: "desired_state \<Rightarrow> bool" where
  "refs_ok s \<longleftrightarrow>
     (\<forall>a \<in> set (ds_assignments s). a_pool_id a \<in> p_pool_id ` set (ds_pools s)
        \<and> a_host_id a \<in> h_host_id ` set (ds_hosts s))
     \<and> (\<forall>d \<in> set (ds_drains s). d_host_id d \<in> h_host_id ` set (ds_hosts s))
     \<and> (\<forall>r \<in> set (ds_rollouts s). ro_pool_id r \<in> p_pool_id ` set (ds_pools s))"

definition keys_ok :: "desired_state \<Rightarrow> bool" where
  "keys_ok s \<longleftrightarrow>
     distinct (map r_name (ds_repositories s)) \<and> distinct (map p_pool_id (ds_pools s))
     \<and> distinct (map h_host_id (ds_hosts s)) \<and> distinct (map a_assignment_id (ds_assignments s))
     \<and> distinct (map ro_rollout_id (ds_rollouts s))"

definition ds_ok :: "desired_state \<Rightarrow> bool" where
  "ds_ok s \<longleftrightarrow>
     1 \<le> ds_revision s \<and> keys_ok s \<and> refs_ok s
     \<and> list_all repository_ok (ds_repositories s) \<and> list_all pool_ok (ds_pools s)
     \<and> list_all host_ok (ds_hosts s) \<and> list_all assignment_ok (ds_assignments s)
     \<and> list_all drain_ok (ds_drains s) \<and> list_all rollout_ok (ds_rollouts s)"

subsection \<open>Scalars\<close>

lemma model_error_Inr [simp]: "model_error m \<noteq> Inr a" "Inr a \<noteq> model_error m"
  by (simp_all add: model_error_def)

lemma bindR_model_error [simp]: "bindR (model_error m) f = model_error m"
  by (simp add: model_error_def)

lemma str_matching_ok [value_ok]: "str_matching p v m = Inr s \<longleftrightarrow> v = PStr s \<and> p s"
  by (cases v) (auto simp: str_matching_def)

lemma scalar_ok [value_ok]:
  "identifier_of v w = Inr s \<longleftrightarrow> v = PStr s \<and> is_identifier s"
  "request_id v w = Inr s \<longleftrightarrow> v = PStr s \<and> is_request_id s"
  "repository_name v w = Inr s \<longleftrightarrow> v = PStr s \<and> is_repository s"
  "digest v w = Inr s \<longleftrightarrow> v = PStr s \<and> is_digest s"
  "free_text v w = Inr s \<longleftrightarrow> v = PStr s \<and> is_free_text s"
  by (auto simp: identifier_of_def request_id_def repository_name_def digest_def free_text_def
      str_matching_ok)

lemma count_int_ok [value_ok]: "count_int v w m = Inr i \<longleftrightarrow> v = PInt i \<and> m \<le> i"
  by (cases v) (auto simp: count_int_def)

lemma timestamp_ok [value_ok]: "timestamp v w = Inr r \<longleftrightarrow>
    (\<exists>s t. v = PStr s \<and> stamp_us s = Some t \<and> r = isoformat_utc (utc t))"
  by (cases v) (auto simp: timestamp_def stamp_us_def astimezone_utc_def overflow_def
      split: option.splits if_splits)

lemma stamp_us_calendar: "stamp_us s = Some t \<Longrightarrow> in_calendar t"
  by (auto simp: stamp_us_def split: option.splits if_splits)

lemma instant_ok [value_ok]: "instant v w = Inr d \<longleftrightarrow>
    (\<exists>s t. v = PStr s \<and> stamp_us s = Some t \<and> d = utc t)"
  by (fastforce simp: instant_def bindR_Inr_iff timestamp_ok fromisoformat_isoformat
      dest: stamp_us_calendar)

lemma instant_Some: "stamp_us s = Some t \<Longrightarrow> instant (PStr s) w = Inr (utc t)"
  by (simp add: instant_ok)

lemma stamp_of_ok [value_ok]: "stamp_of v w = Inr s \<longleftrightarrow> v = PStr s \<and> stamp_us s \<noteq> None"
  by (cases v) (auto simp: stamp_of_def bindR_Inr_iff timestamp_ok)

lemma dt_instant_utc [simp]: "dt_instant (utc t) = t"
  by (simp add: dt_instant_def utc_def)

lemma optional_ok [value_ok]: "optional f v w = Inr r \<longleftrightarrow>
    (if v = PNone then r = None else \<exists>x. f v w = Inr x \<and> r = Some x)"
  by (auto simp: optional_def bindR_Inr_iff)

lemma update_channel_ok [value_ok]:
  "update_channel_choice v w = Inr s \<longleftrightarrow> v = PStr s \<and> s \<in> set update_channels"
  by (cases v) (auto simp: update_channel_choice_def Let_def)

lemma eachR_PStr_ok:
  assumes "\<And>i v s. f i v = Inr s \<longleftrightarrow> v = PStr s \<and> P s"
  shows "eachR f n vs = Inr ss \<longleftrightarrow> vs = map PStr ss \<and> list_all P ss"
proof (induction vs arbitrary: n ss)
  case Nil
  then show ?case by auto
next
  case (Cons v vs)
  then show ?case by (cases ss) (auto simp: bindR_Inr_iff assms)
qed

lemma identifiers_at_ok [value_ok]:
  "identifiers_at w vs = Inr ss \<longleftrightarrow> vs = map PStr ss \<and> list_all is_identifier ss"
  unfolding identifiers_at_def by (rule eachR_PStr_ok) (simp add: scalar_ok)

lemma identifiers_ok [value_ok]:
  "identifiers vs w = Inr ss \<longleftrightarrow> vs = map PStr ss \<and> ss \<noteq> [] \<and> list_all is_identifier ss"
  by (auto simp: identifiers_def identifiers_at_ok)

lemma mapR_check_ok:
  assumes "\<And>x y. f x = Inr y \<longleftrightarrow> y = x \<and> P x"
  shows "mapR f xs = Inr ys \<longleftrightarrow> ys = xs \<and> list_all P xs"
  by (auto simp: mapR_ok assms list_all_length intro!: nth_equalityI)

lemma mapR_update_ok:
  assumes "\<And>y z. f y = Inr z \<longleftrightarrow> z = y \<and> P y"
  shows "mapR (\<lambda>x. if Q x then f (g x) else Inr x) xs = Inr ys \<longleftrightarrow>
     ys = map (\<lambda>x. if Q x then g x else x) xs \<and> (\<forall>x \<in> set xs. Q x \<longrightarrow> P (g x))"
  by (auto simp: mapR_ok assms all_set_conv_all_nth intro!: nth_equalityI)

subsection \<open>Value types\<close>

lemma disruption_budget_make_ok:
  "disruption_budget_make v = Inr b \<longleftrightarrow> v = PInt (max_parallel b) \<and> 1 \<le> max_parallel b"
  by (cases b) (auto simp: disruption_budget_make_def bindR_Inr_iff value_ok)

lemma opt_str_eq [simp]: "opt_str x = PNone \<longleftrightarrow> x = None" "PNone = opt_str x \<longleftrightarrow> x = None" "opt_str None = PNone" "opt_str (Some s) = PStr s"
  by (auto simp: opt_str_def split: option.splits)

lemma map_PStr_inj [simp]: "map PStr xs = map PStr ys \<longleftrightarrow> xs = ys"
  by (rule inj_map_eq_map) (simp add: inj_def)

lemma opt_str_inj [simp]: "opt_str x = opt_str y \<longleftrightarrow> x = y"
  by (cases x; cases y) auto

lemma opt_identifier_ok:
  "optional identifier_of v w = Inr r \<longleftrightarrow> v = opt_str r \<and> pred_option is_identifier r"
  by (cases r) (auto simp: optional_ok scalar_ok)

lemma repository_make_ok:
  "repository_make n t g = Inr r \<longleftrightarrow>
     n = PStr (r_name r) \<and> t = r_trust_class r \<and> g = opt_str (r_runner_group r) \<and> repository_ok r"
  by (cases r) (auto simp: repository_make_def bindR_Inr_iff scalar_ok opt_identifier_ok repository_ok_def)

lemma check_pool_labels_ok:
  "check_pool_labels ls = Inr ms \<longleftrightarrow> ms = ls \<and> ls \<noteq> []
     \<and> list_all (\<lambda>(k, v). is_identifier k \<and> v \<noteq> [] \<and> length v \<le> 96) ls"
proof -
  have "check_pool_label l = Inr m \<longleftrightarrow> m = l \<and> (case l of (k, v) \<Rightarrow>
      is_identifier k \<and> v \<noteq> [] \<and> length v \<le> 96)" for l m
    by (auto simp: check_pool_label_def bindR_Inr_iff scalar_ok split: prod.splits)
  note one = mapR_check_ok [of check_pool_label, OF this]
  show ?thesis by (auto simp: check_pool_labels_def one)
qed

lemma check_pool_architectures_ok:
  "check_pool_architectures vs = Inr ss \<longleftrightarrow> vs = map PStr ss \<and> ss \<noteq> [] \<and> list_all is_identifier ss"
  by (auto simp: check_pool_architectures_def identifiers_at_ok)

lemma check_pool_warm_ok:
  "check_pool_warm l h c = Inr r \<longleftrightarrow> (\<exists>lo hi top. r = (lo, hi, top) \<and> l = PInt lo \<and> h = PInt hi
     \<and> c = PInt top \<and> 0 \<le> lo \<and> 1 \<le> hi \<and> lo \<le> hi \<and> hi \<le> top)"
  by (auto simp: check_pool_warm_def bindR_Inr_iff count_int_ok)

lemma check_pool_scope_ok:
  "check_pool_scope vs g = Inr r \<longleftrightarrow> (\<exists>ss o'. r = (ss, o') \<and> vs = map PStr ss \<and> g = opt_str o'
     \<and> list_all is_repository ss \<and> (ss \<noteq> []) = (o' = None) \<and> pred_option is_identifier o')"
proof -
  have "eachR (\<lambda>i v. repository_name v (index_str w i)) n vs = Inr ss \<longleftrightarrow>
      vs = map PStr ss \<and> list_all is_repository ss" for w n ss
    by (rule eachR_PStr_ok) (simp add: scalar_ok)
  then show ?thesis
    by (auto simp: check_pool_scope_def bindR_Inr_iff opt_identifier_ok)
qed

lemma digests_differ_ok: "digests_differ a b w = Inr u \<longleftrightarrow> a \<noteq> b"
  by (simp add: digests_differ_def)

lemma bindR_split_Inr:
  "bindR m (\<lambda>x. case x of (a, b) \<Rightarrow> f a b) = Inr y \<longleftrightarrow> (\<exists>a b. m = Inr (a, b) \<and> f a b = Inr y)"
  by (auto simp: bindR_Inr_iff)

lemma guard_Inr: "(if b then Inr u else model_error m) = Inr v \<longleftrightarrow> b \<and> u = v"
  by auto

lemmas pool_parts_ok = bindR_Inr_iff guard_Inr scalar_ok count_int_ok update_channel_ok
  check_pool_labels_ok check_pool_architectures_ok check_pool_warm_ok check_pool_scope_ok digests_differ_ok

lemma pool_make_ok: "pool_make r = Inr p \<Longrightarrow> pool_ok p"
  by (auto simp: pool_make_def pool_parts_ok pool_ok_def)

lemma pool_replace_self: "pool_ok p \<Longrightarrow> pool_replace p = Inr p"
  by (cases p) (simp add: pool_replace_def pool_make_def raw_of_pool_def pool_parts_ok pool_ok_def)

lemma pool_replace_eq: "pool_replace p = Inr q \<Longrightarrow> q = p"
  by (cases p) (auto simp: pool_replace_def pool_make_def raw_of_pool_def pool_parts_ok)

lemma pool_replace_ok: "pool_replace p = Inr q \<longleftrightarrow> q = p \<and> pool_ok p"
  using pool_replace_self pool_replace_eq pool_make_ok [of "raw_of_pool p" q]
  by (auto simp: pool_replace_def)

lemma check_host_label_ok: "check_host_label l = Inr m \<longleftrightarrow> m = l \<and> (case l of (k, v) \<Rightarrow>
    is_identifier k \<and> v \<noteq> [])"
  by (auto simp: check_host_label_def bindR_Inr_iff scalar_ok split: prod.splits)

lemma host_make_ok: "host_make i as rs ls ps n st = Inr h \<longleftrightarrow>
    i = PStr (h_host_id h) \<and> as = map PStr (h_architectures h) \<and> rs = h_runtimes h \<and> ls = h_labels h
    \<and> ps = map PStr (h_allowed_pools h) \<and> n = PInt (h_slots h) \<and> st = h_state h \<and> host_ok h"
  by (cases h) (auto simp: host_make_def bindR_Inr_iff scalar_ok count_int_ok identifiers_at_ok
      identifiers_ok mapR_check_ok [OF check_host_label_ok] host_ok_def)

lemma host_replace_ok: "host_replace h = Inr k \<longleftrightarrow> k = h \<and> host_ok h"
  by (cases h; cases k) (auto simp: host_replace_def host_make_ok)

lemma check_release_order_ok: "check_release_order r i = Inr u \<longleftrightarrow>
    (\<exists>x y. stamp_us r = Some x \<and> stamp_us i = Some y \<and> y \<le> x)"
  by (cases "stamp_us r"; cases "stamp_us i")
    (auto simp: check_release_order_def bindR_Inr_iff instant_Some instant_ok)

lemma opt_stamp_ok:
  "optional stamp_of v w = Inr r \<longleftrightarrow> v = opt_str r \<and> pred_option (\<lambda>s. stamp_us s \<noteq> None) r"
  by (cases r) (auto simp: optional_ok stamp_of_ok)

lemma assignment_make_ok: "assignment_make ai ri pi hi is rel = Inr a \<longleftrightarrow>
    ai = PStr (a_assignment_id a) \<and> ri = PStr (a_request_id a) \<and> pi = PStr (a_pool_id a)
    \<and> hi = PStr (a_host_id a) \<and> is = PStr (a_issued_at a) \<and> rel = opt_str (a_released_at a)
    \<and> assignment_ok a"
  by (cases a) (auto simp: assignment_make_def bindR_Inr_iff scalar_ok stamp_of_ok opt_stamp_ok
      check_release_order_ok assignment_ok_def split: option.splits)

lemma assignment_replace_ok: "assignment_replace a = Inr b \<longleftrightarrow> b = a \<and> assignment_ok a"
  by (cases a; cases b) (auto simp: assignment_replace_def assignment_make_ok)

lemma drain_make_ok: "drain_make h r q st c e = Inr d \<longleftrightarrow>
    h = PStr (d_host_id d) \<and> r = PStr (d_reason d) \<and> q = PStr (d_requested_at d) \<and> st = d_state d
    \<and> c = d_completed_at d \<and> e = d_ended_at d \<and> drain_ok d"
  by (cases d) (auto simp: drain_make_def bindR_Inr_iff scalar_ok stamp_of_ok drain_ok_def)

lemma drain_replace_ok: "drain_replace d = Inr e \<longleftrightarrow> e = d \<and> drain_ok d"
  by (cases d; cases e) (auto simp: drain_replace_def drain_make_ok)

lemma rollout_make_ok: "rollout_make r p f t q st = Inr x \<longleftrightarrow>
    r = PStr (ro_rollout_id x) \<and> p = PStr (ro_pool_id x) \<and> f = PStr (ro_from_image_digest x)
    \<and> t = PStr (ro_to_image_digest x) \<and> q = PStr (ro_started_at x) \<and> st = ro_state x \<and> rollout_ok x"
  by (cases x) (auto simp: rollout_make_def bindR_Inr_iff scalar_ok stamp_of_ok rollout_ok_def)

lemma capacity_make_ok: "capacity_make n u = Inr c \<longleftrightarrow>
    0 \<le> u \<and> u \<le> n \<and> c = \<lparr>cap_total = n, cap_in_use = u\<rparr>"
  by (auto simp: capacity_make_def bindR_Inr_iff count_int_ok)

subsection \<open>The aggregate and its lookups\<close>

lemma unique_by_ok: "unique_by a w seen xs = Inr u \<longleftrightarrow> distinct xs \<and> set xs \<inter> set seen = {}"
  by (induction xs arbitrary: seen) auto

lemma desired_state_make_ok: "desired_state_make v s = Inr t \<longleftrightarrow>
    (\<exists>n. v = PInt n \<and> 1 \<le> n \<and> keys_ok s \<and> refs_ok s \<and> t = s\<lparr>ds_revision := n\<rparr>)"
proof -
  have a: "check_assignment_refs ps hs x = Inr y \<longleftrightarrow>
      y = x \<and> a_pool_id x \<in> set ps \<and> a_host_id x \<in> set hs" for ps hs x y
    by (auto simp: check_assignment_refs_def)
  have d: "check_drain_ref hs x = Inr y \<longleftrightarrow> y = x \<and> d_host_id x \<in> set hs" for hs x y
    by (auto simp: check_drain_ref_def)
  have r: "check_rollout_ref ps x = Inr y \<longleftrightarrow> y = x \<and> ro_pool_id x \<in> set ps" for ps x y
    by (auto simp: check_rollout_ref_def)
  show ?thesis
    by (auto simp: desired_state_make_def bindR_Inr_iff count_int_ok unique_by_ok
        mapR_check_ok [OF a] mapR_check_ok [OF d] mapR_check_ok [OF r] keys_ok_def refs_ok_def list_all_iff)
qed

lemma bumped_ok: "bumped s c = Inr t \<longleftrightarrow>
    0 \<le> ds_revision s \<and> keys_ok c \<and> refs_ok c \<and> t = c\<lparr>ds_revision := ds_revision s + 1\<rparr>"
  by (auto simp: bumped_def desired_state_make_ok)

lemma find_key_iff: "distinct (map f xs) \<Longrightarrow>
    find (\<lambda>x. f x = k) xs = Some x \<longleftrightarrow> x \<in> set xs \<and> f x = k"
  by (induction xs) (auto simp: rev_image_eqI)

lemma ds_pool_ok: "keys_ok s \<Longrightarrow> ds_pool s i = Inr p \<longleftrightarrow> p \<in> set (ds_pools s) \<and> p_pool_id p = i"
  using find_key_iff [of p_pool_id "ds_pools s" i p]
  by (auto simp: ds_pool_def keys_ok_def split: option.splits)

lemma ds_host_ok: "keys_ok s \<Longrightarrow> ds_host s i = Inr h \<longleftrightarrow> h \<in> set (ds_hosts s) \<and> h_host_id h = i"
  using find_key_iff [of h_host_id "ds_hosts s" i h]
  by (auto simp: ds_host_def keys_ok_def split: option.splits)

lemma ds_assignment_ok: "keys_ok s \<Longrightarrow> ds_assignment s i = Inr a \<longleftrightarrow>
    a \<in> set (ds_assignments s) \<and> a_assignment_id a = i"
  using find_key_iff [of a_assignment_id "ds_assignments s" i a]
  by (auto simp: ds_assignment_def keys_ok_def split: option.splits)

lemma ds_capacity_ok: "keys_ok s \<Longrightarrow> ds_capacity s i = Inr c \<longleftrightarrow>
    (\<exists>h \<in> set (ds_hosts s). h_host_id h = i \<and> int (in_use_of s i) \<le> h_slots h
       \<and> c = \<lparr>cap_total = h_slots h, cap_in_use = int (in_use_of s i)\<rparr>)"
  by (auto simp: ds_capacity_def bindR_Inr_iff ds_host_ok capacity_make_ok)

section \<open>What each transition does\<close>

definition new_assignment :: "string \<Rightarrow> string \<Rightarrow> string \<Rightarrow> string \<Rightarrow> string \<Rightarrow> assignment" where
  "new_assignment aid rid pid hid at =
     \<lparr>a_assignment_id = aid, a_request_id = rid, a_pool_id = pid, a_host_id = hid, a_issued_at = at,
      a_released_at = None\<rparr>"

definition new_drain :: "string \<Rightarrow> string \<Rightarrow> string \<Rightarrow> drain" where
  "new_drain hid reason at =
     \<lparr>d_host_id = hid, d_reason = reason, d_requested_at = at, d_state = D_DRAINING,
      d_completed_at = PNone, d_ended_at = PNone\<rparr>"

definition new_rollout :: "string \<Rightarrow> string \<Rightarrow> string \<Rightarrow> string \<Rightarrow> string \<Rightarrow> rollout" where
  "new_rollout rid pid from_image to_image at =
     \<lparr>ro_rollout_id = rid, ro_pool_id = pid, ro_from_image_digest = from_image,
      ro_to_image_digest = to_image, ro_started_at = at, ro_state = R_IN_PROGRESS\<rparr>"

definition release_in :: "string \<Rightarrow> string \<Rightarrow> assignment list \<Rightarrow> assignment list" where
  "release_in aid at = map (\<lambda>x. if a_assignment_id x = aid then x\<lparr>a_released_at := Some at\<rparr> else x)"

definition host_in :: "string \<Rightarrow> host_state \<Rightarrow> host list \<Rightarrow> host list" where
  "host_in hid st = map (\<lambda>h. if h_host_id h = hid then h\<lparr>h_state := st\<rparr> else h)"

definition drained_in :: "string \<Rightarrow> string \<Rightarrow> drain list \<Rightarrow> drain list" where
  "drained_in hid at = map (\<lambda>d. if d_host_id d = hid \<and> d_state d = D_DRAINING
     then d\<lparr>d_state := D_DRAINED, d_completed_at := PStr at\<rparr> else d)"

definition ended_in :: "string \<Rightarrow> string \<Rightarrow> drain list \<Rightarrow> drain list" where
  "ended_in hid at = map (\<lambda>d. if d_host_id d = hid \<and> d_state d = D_DRAINED
     then d\<lparr>d_state := D_ENDED, d_ended_at := PStr at\<rparr> else d)"

definition rolled :: "pool \<Rightarrow> string \<Rightarrow> pool" where
  "rolled p to_image =
     p\<lparr>p_revision := p_revision p + 1, p_image_digest := to_image,
       p_rollback_image_digest := p_image_digest p\<rparr>"

definition image_in :: "string \<Rightarrow> string \<Rightarrow> pool list \<Rightarrow> pool list" where
  "image_in pid to_image = map (\<lambda>p. if p_pool_id p = pid then rolled p to_image else p)"

definition next_rev :: "desired_state \<Rightarrow> desired_state" where
  "next_rev s = s\<lparr>ds_revision := ds_revision s + 1\<rparr>"

lemma guard_error_Inr: "(if b then model_error m else Inr u) = Inr v \<longleftrightarrow> \<not> b \<and> u = v"
  by auto

lemma option_guard_Inr:
  "(case x of None \<Rightarrow> Inr () | Some y \<Rightarrow> model_error (f y)) = Inr u \<longleftrightarrow> x = None"
  by (cases x) auto

lemma assignment_make_new:
  "assignment_make (PStr aid) (PStr rid) (PStr pid) (PStr hid) (PStr at) PNone = Inr a \<longleftrightarrow>
     a = new_assignment aid rid pid hid at \<and> assignment_ok a"
  by (cases a) (auto simp: assignment_make_ok new_assignment_def)

lemma drain_make_new: "drain_make (PStr hid) (PStr reason) (PStr at) D_DRAINING PNone PNone = Inr d \<longleftrightarrow>
    d = new_drain hid reason at \<and> drain_ok d"
  by (cases d) (auto simp: drain_make_ok new_drain_def)

lemma rollout_make_new:
  "rollout_make (PStr rid) (PStr pid) (PStr f) (PStr t) (PStr at) R_IN_PROGRESS = Inr x \<longleftrightarrow>
     x = new_rollout rid pid f t at \<and> rollout_ok x"
  by (cases x) (auto simp: rollout_make_ok new_rollout_def)

lemma with_host_ok: "with_host s hid st = Inr hs \<longleftrightarrow>
    hs = host_in hid st (ds_hosts s) \<and> (\<forall>h \<in> set (ds_hosts s). h_host_id h = hid \<longrightarrow> host_ok (h\<lparr>h_state := st\<rparr>))"
  by (simp add: with_host_def mapR_update_ok [OF host_replace_ok] host_in_def)

lemma host_ok_state [simp]: "host_ok (h\<lparr>h_state := st\<rparr>) = host_ok h"
  by (simp add: host_ok_def)

lemma drain_ok_state [simp]: "drain_ok (d\<lparr>d_state := st, d_completed_at := c\<rparr>) = drain_ok d"
  "drain_ok (d\<lparr>d_state := st, d_ended_at := c\<rparr>) = drain_ok d"
  by (simp_all add: drain_ok_def)

lemmas step_eqs = bindR_Inr_iff guard_error_Inr option_guard_Inr bumped_ok with_host_ok
  assignment_make_new drain_make_new rollout_make_new timestamp_ok scalar_ok

text \<open>Each transition, as the guards it passed and the state it returned.\<close>

lemma with_assignmentD:
  assumes "with_assignment s aid rid pid hid at = Inr t"
  obtains p h c where "ds_pool s pid = Inr p" and "ds_host s hid = Inr h" and "refusal_for h p = None"
    and "ds_capacity s hid = Inr c" and "\<not> saturated c"
    and "assignment_ok (new_assignment aid rid pid hid at)"
    and "aid \<notin> a_assignment_id ` set (ds_assignments s)"
    and "t = next_rev (s\<lparr>ds_assignments := ds_assignments s @ [new_assignment aid rid pid hid at]\<rparr>)"
    and "keys_ok t" and "refs_ok t"
  using assms by (auto simp: with_assignment_def step_eqs next_rev_def keys_ok_def refs_ok_def)

lemma with_releaseD:
  assumes "with_release s aid at = Inr t"
  obtains a where "ds_assignment s aid = Inr a" and "a_state a = ASSIGNED" and "stamp_us at \<noteq> None"
    and "\<forall>x \<in> set (ds_assignments s). a_assignment_id x = aid \<longrightarrow> assignment_ok (x\<lparr>a_released_at := Some at\<rparr>)"
    and "t = next_rev (s\<lparr>ds_assignments := release_in aid at (ds_assignments s)\<rparr>)"
    and "keys_ok t" and "refs_ok t"
proof -
  obtain a where a: "ds_assignment s aid = Inr a" "a_state a \<noteq> RELEASED" "stamp_us at \<noteq> None"
    and m: "mapR (\<lambda>x. if a_assignment_id x = aid then assignment_replace (x\<lparr>a_released_at := Some at\<rparr>)
          else Inr x) (ds_assignments s) = Inr (release_in aid at (ds_assignments s))"
    and b: "bumped s (s\<lparr>ds_assignments := release_in aid at (ds_assignments s)\<rparr>) = Inr t"
    using assms
    by (auto simp: with_release_def step_eqs release_in_def mapR_update_ok [OF assignment_replace_ok])
  moreover have "a_state a = ASSIGNED" using a(2) by (cases "a_state a") auto
  ultimately show ?thesis
    using that [of a] mapR_update_ok [OF assignment_replace_ok, THEN iffD1, OF m]
    by (simp add: bumped_ok next_rev_def keys_ok_def refs_ok_def)
qed

lemma with_drainD:
  assumes "with_drain s hid reason at = Inr t"
  obtains h where "ds_host s hid = Inr h" and "h_state h = H_ACTIVE" and "drain_ok (new_drain hid reason at)"
    and "t = next_rev (s\<lparr>ds_hosts := host_in hid H_DRAINING (ds_hosts s),
                          ds_drains := ds_drains s @ [new_drain hid reason at]\<rparr>)"
    and "keys_ok t" and "refs_ok t"
  using assms by (auto simp: with_drain_def step_eqs next_rev_def keys_ok_def refs_ok_def)

lemma with_drain_completeD:
  assumes "with_drain_complete s hid at = Inr t"
  obtains h c where "ds_host s hid = Inr h" and "h_state h = H_DRAINING" and "ds_capacity s hid = Inr c"
    and "cap_in_use c = 0"
    and "t = next_rev (s\<lparr>ds_hosts := host_in hid H_DRAINED (ds_hosts s),
                          ds_drains := drained_in hid at (ds_drains s)\<rparr>)"
    and "keys_ok t" and "refs_ok t"
  using assms
  by (auto simp: with_drain_complete_def step_eqs next_rev_def keys_ok_def refs_ok_def
      mapR_update_ok [OF drain_replace_ok] drained_in_def)

lemma with_host_returnedD:
  assumes "with_host_returned s hid at = Inr t"
  obtains h where "ds_host s hid = Inr h" and "h_state h = H_DRAINED"
    and "t = next_rev (s\<lparr>ds_hosts := host_in hid H_ACTIVE (ds_hosts s),
                          ds_drains := ended_in hid at (ds_drains s)\<rparr>)"
    and "keys_ok t" and "refs_ok t"
  using assms
  by (auto simp: with_host_returned_def step_eqs next_rev_def keys_ok_def refs_ok_def
      mapR_update_ok [OF drain_replace_ok] ended_in_def)

lemma with_rolloutD:
  assumes "with_rollout s rid pid to_image at = Inr t" and k: "keys_ok s"
  obtains p where "ds_pool s pid = Inr p" and "is_digest to_image" and "to_image \<noteq> p_image_digest p"
    and "rollout_ok (new_rollout rid pid (p_image_digest p) to_image at)" and "pool_ok (rolled p to_image)"
    and "t = next_rev (s\<lparr>ds_pools := image_in pid to_image (ds_pools s),
           ds_rollouts := ds_rollouts s @ [new_rollout rid pid (p_image_digest p) to_image at]\<rparr>)"
    and "keys_ok t" and "refs_ok t"
proof -
  obtain p ps where p: "ds_pool s pid = Inr p" "is_digest to_image" "to_image \<noteq> p_image_digest p"
      "rollout_ok (new_rollout rid pid (p_image_digest p) to_image at)"
    and ok: "pool_ok (rolled p to_image)"
    and ps: "with_pool s pid (rolled p to_image) = Inr ps"
    and b: "bumped s (s\<lparr>ds_pools := ps,
        ds_rollouts := ds_rollouts s @ [new_rollout rid pid (p_image_digest p) to_image at]\<rparr>) = Inr t"
    using assms(1)
    by (auto simp: with_rollout_def step_eqs with_image_def pool_replace_ok rolled_def)
  have "x = p" if "x \<in> set (ds_pools s)" "p_pool_id x = pid" for x
    using p(1) that k by (auto simp: ds_pool_ok keys_ok_def distinct_map inj_on_def)
  then have "ps = image_in pid to_image (ds_pools s)"
    using ps by (auto simp: with_pool_def mapR_update_ok [OF pool_replace_ok] image_in_def rolled_def)
  with p ok b show ?thesis
    using that [of p] by (simp add: bumped_ok next_rev_def keys_ok_def refs_ok_def)
qed

section \<open>The state invariant\<close>

definition open_drains :: "desired_state \<Rightarrow> string \<Rightarrow> drain list" where
  "open_drains s hid = filter (\<lambda>d. d_host_id d = hid \<and> d_state d \<noteq> D_ENDED) (ds_drains s)"

text \<open>The drain records say what the host state says: one open drain while it drains.\<close>

definition expected_drains :: "host_state \<Rightarrow> drain_state list" where
  "expected_drains st =
     (case st of H_DRAINING \<Rightarrow> [D_DRAINING] | H_DRAINED \<Rightarrow> [D_DRAINED] | _ \<Rightarrow> [])"

definition drains_agree :: "desired_state \<Rightarrow> bool" where
  "drains_agree s \<longleftrightarrow> (\<forall>h \<in> set (ds_hosts s).
     map d_state (open_drains s (h_host_id h)) = expected_drains (h_state h))"

definition within_slots :: "desired_state \<Rightarrow> bool" where
  "within_slots s \<longleftrightarrow> (\<forall>h \<in> set (ds_hosts s). int (in_use_of s (h_host_id h)) \<le> h_slots h)"

definition drained_idle :: "desired_state \<Rightarrow> bool" where
  "drained_idle s \<longleftrightarrow> (\<forall>h \<in> set (ds_hosts s). h_state h = H_DRAINED \<longrightarrow> in_use_of s (h_host_id h) = 0)"

definition ds_inv :: "desired_state \<Rightarrow> bool" where
  "ds_inv s \<longleftrightarrow> ds_ok s \<and> within_slots s \<and> drained_idle s \<and> drains_agree s"

lemma next_rev_simps [simp]:
  "ds_revision (next_rev s) = ds_revision s + 1" "ds_repositories (next_rev s) = ds_repositories s"
  "ds_pools (next_rev s) = ds_pools s" "ds_hosts (next_rev s) = ds_hosts s"
  "ds_assignments (next_rev s) = ds_assignments s" "ds_drains (next_rev s) = ds_drains s"
  "ds_rollouts (next_rev s) = ds_rollouts s"
  by (simp_all add: next_rev_def)

lemma in_use_cong: "ds_assignments s = ds_assignments t \<Longrightarrow> in_use_of s = in_use_of t"
  by (rule ext) (simp add: in_use_of_def)

lemma in_use_release: "in_use_of (s\<lparr>ds_assignments := release_in aid at xs\<rparr>) hid
    \<le> in_use_of (s\<lparr>ds_assignments := xs\<rparr>) hid"
  by (induction xs) (auto simp: in_use_of_def release_in_def a_state_def)

lemma host_unique: "keys_ok s \<Longrightarrow> h \<in> set (ds_hosts s) \<Longrightarrow> k \<in> set (ds_hosts s) \<Longrightarrow>
    h_host_id h = h_host_id k \<Longrightarrow> h = k"
  by (auto simp: keys_ok_def distinct_map inj_on_def)

lemma host_in_mem: "k \<in> set (host_in hid st hs) \<longleftrightarrow>
    (\<exists>h \<in> set hs. k = (if h_host_id h = hid then h\<lparr>h_state := st\<rparr> else h))"
  by (simp only: host_in_def set_map image_iff)

lemma list_all_host_in: "list_all host_ok hs \<Longrightarrow> list_all host_ok (host_in hid st hs)"
  by (auto simp: list_all_iff host_in_mem)

lemma list_all_drains: "list_all drain_ok (drained_in hid at ds) = list_all drain_ok ds"
  "list_all drain_ok (ended_in hid at ds) = list_all drain_ok ds"
  by (induction ds) (simp_all add: drained_in_def ended_in_def)

lemma with_assignment_inv:
  assumes inv: "ds_inv s" and eq: "with_assignment s aid rid pid hid at = Inr t"
  shows "ds_inv t \<and> ds_revision t = ds_revision s + 1"
proof -
  have k: "keys_ok s" using inv by (simp add: ds_inv_def ds_ok_def)
  obtain p h c where p: "ds_pool s pid = Inr p" and h: "ds_host s hid = Inr h"
    and ref: "refusal_for h p = None" and c: "ds_capacity s hid = Inr c" and free: "\<not> saturated c"
    and a: "assignment_ok (new_assignment aid rid pid hid at)"
    and t: "t = next_rev (s\<lparr>ds_assignments := ds_assignments s @ [new_assignment aid rid pid hid at]\<rparr>)"
    and kt: "keys_ok t" "refs_ok t"
    using eq by (rule with_assignmentD) blast
  have hm: "h \<in> set (ds_hosts s)" "h_host_id h = hid" using h k by (simp_all add: ds_host_ok)
  have act: "h_state h = H_ACTIVE" using ref by (auto simp: refusal_for_def split: if_splits)
  have room: "int (in_use_of s hid) < h_slots h"
    using c free h by (auto simp: ds_capacity_def capacity_make_ok saturated_def cap_free_def)
  have use: "in_use_of t x = in_use_of s x + (if x = hid then 1 else 0)" for x
    by (simp add: t in_use_of_def new_assignment_def a_state_def)
  have "ds_ok t" using inv a kt by (simp add: ds_inv_def ds_ok_def t)
  moreover have "within_slots t"
    unfolding within_slots_def
  proof
    fix x assume x: "x \<in> set (ds_hosts t)"
    then have "x \<in> set (ds_hosts s)" by (simp add: t)
    moreover have "int (in_use_of s (h_host_id x)) \<le> h_slots x"
      using inv calculation by (simp add: ds_inv_def within_slots_def)
    ultimately show "int (in_use_of t (h_host_id x)) \<le> h_slots x"
      using room host_unique [OF k _ hm(1)] hm(2) by (fastforce simp: use)
  qed
  moreover have "drained_idle t"
    unfolding drained_idle_def
  proof (intro ballI impI)
    fix x assume "x \<in> set (ds_hosts t)" and d: "h_state x = H_DRAINED"
    then have x: "x \<in> set (ds_hosts s)" by (simp add: t)
    then have "h_host_id x \<noteq> hid" using host_unique [OF k x hm(1)] hm(2) act d by auto
    then show "in_use_of t (h_host_id x) = 0" using inv x d by (simp add: use ds_inv_def drained_idle_def)
  qed
  moreover have "drains_agree t"
    using inv by (simp add: ds_inv_def drains_agree_def open_drains_def t)
  ultimately show ?thesis by (simp add: ds_inv_def t)
qed

lemma with_release_inv:
  assumes inv: "ds_inv s" and eq: "with_release s aid at = Inr t"
  shows "ds_inv t \<and> ds_revision t = ds_revision s + 1"
proof -
  obtain a where ok: "\<forall>x \<in> set (ds_assignments s). a_assignment_id x = aid \<longrightarrow>
        assignment_ok (x\<lparr>a_released_at := Some at\<rparr>)"
    and t: "t = next_rev (s\<lparr>ds_assignments := release_in aid at (ds_assignments s)\<rparr>)"
    and kt: "keys_ok t" "refs_ok t"
    using eq by (rule with_releaseD) blast
  have "in_use_of t x \<le> in_use_of s x" for x
    using in_use_release [where s = s and aid = aid and at = at and xs = "ds_assignments s" and hid = x] by (simp add: t in_use_of_def)
  then have use: "int (in_use_of t x) \<le> int (in_use_of s x)" for x by simp
  have "list_all assignment_ok (release_in aid at (ds_assignments s))"
    using inv ok by (auto simp: ds_inv_def ds_ok_def list_all_iff release_in_def)
  then have "ds_ok t" using inv kt by (simp add: ds_inv_def ds_ok_def t)
  moreover have "within_slots t"
    using inv by (auto simp: ds_inv_def within_slots_def t [THEN arg_cong [of _ _ ds_hosts]]
        intro: order_trans [OF use])
  moreover have "drained_idle t"
  proof -
    have "in_use_of t x = 0" if "in_use_of s x = 0" for x using use [of x] that by simp
    then show ?thesis using inv by (simp add: drained_idle_def ds_inv_def t [THEN arg_cong [of _ _ ds_hosts]])
  qed
  moreover have "drains_agree t" using inv by (simp add: ds_inv_def drains_agree_def open_drains_def t)
  ultimately show ?thesis by (simp add: ds_inv_def t)
qed

text \<open>Changing one host's state, with the drain records that go with it.\<close>

lemma host_state_inv:
  assumes inv: "ds_inv s"
    and t: "t = next_rev (s\<lparr>ds_hosts := host_in hid st (ds_hosts s), ds_drains := ds\<rparr>)"
    and kt: "keys_ok t" "refs_ok t" and ds: "list_all drain_ok ds"
    and idle: "st = H_DRAINED \<Longrightarrow> in_use_of s hid = 0"
    and here: "map d_state (open_drains t hid) = expected_drains st"
    and away: "\<And>x. x \<noteq> hid \<Longrightarrow> open_drains t x = open_drains s x"
  shows "ds_inv t \<and> ds_revision t = ds_revision s + 1"
proof -
  have use: "in_use_of t = in_use_of s" by (rule in_use_cong) (simp add: t)
  have hosts: "ds_hosts t = host_in hid st (ds_hosts s)" by (simp add: t)
  have "ds_ok t" using inv kt ds list_all_host_in by (simp add: ds_inv_def ds_ok_def t)
  moreover have "within_slots t"
    using inv by (auto simp: ds_inv_def within_slots_def use hosts host_in_mem)
  moreover have "drained_idle t"
    using inv idle by (auto simp: ds_inv_def drained_idle_def use hosts host_in_mem)
  moreover have "drains_agree t"
    unfolding drains_agree_def
  proof
    fix k assume "k \<in> set (ds_hosts t)"
    then obtain h where h: "h \<in> set (ds_hosts s)"
      and k: "k = (if h_host_id h = hid then h\<lparr>h_state := st\<rparr> else h)"
      by (auto simp: hosts host_in_mem)
    show "map d_state (open_drains t (h_host_id k)) = expected_drains (h_state k)"
    proof (cases "h_host_id h = hid")
      case True
      then show ?thesis using here by (simp add: k)
    next
      case False
      then show ?thesis using away inv h by (simp add: k ds_inv_def drains_agree_def)
    qed
  qed
  ultimately show ?thesis by (simp add: ds_inv_def t)
qed

lemma host_drains:
  assumes "ds_inv s" and "ds_host s hid = Inr h"
  shows "map d_state (open_drains s hid) = expected_drains (h_state h)"
  using assms by (auto simp: ds_inv_def ds_ok_def drains_agree_def ds_host_ok)

lemma with_drain_inv:
  assumes inv: "ds_inv s" and eq: "with_drain s hid reason at = Inr t"
  shows "ds_inv t \<and> ds_revision t = ds_revision s + 1"
proof -
  obtain h where h: "ds_host s hid = Inr h" and act: "h_state h = H_ACTIVE"
    and d: "drain_ok (new_drain hid reason at)"
    and t: "t = next_rev (s\<lparr>ds_hosts := host_in hid H_DRAINING (ds_hosts s),
                             ds_drains := ds_drains s @ [new_drain hid reason at]\<rparr>)"
    and kt: "keys_ok t" "refs_ok t"
    using eq by (rule with_drainD) blast
  have none: "open_drains s hid = []"
    using host_drains [OF inv h] act by (simp add: expected_drains_def)
  show ?thesis
  proof (rule host_state_inv [OF inv t kt])
    show "list_all drain_ok (ds_drains s @ [new_drain hid reason at])"
      using inv d by (simp add: ds_inv_def ds_ok_def)
    show "map d_state (open_drains t hid) = expected_drains H_DRAINING"
      using none by (simp add: open_drains_def t new_drain_def expected_drains_def)
    show "open_drains t x = open_drains s x" if "x \<noteq> hid" for x
      using that by (auto simp: open_drains_def t new_drain_def)
  qed simp
qed

lemma drained_in_open: "open_drains (s\<lparr>ds_hosts := hs, ds_drains := drained_in hid at ds\<rparr>) x =
    (if x = hid then drained_in hid at (filter (\<lambda>d. d_host_id d = x \<and> d_state d \<noteq> D_ENDED) ds)
     else filter (\<lambda>d. d_host_id d = x \<and> d_state d \<noteq> D_ENDED) ds)"
  by (induction ds) (auto simp: open_drains_def drained_in_def)

lemma ended_in_open: "open_drains (s\<lparr>ds_hosts := hs, ds_drains := ended_in hid at ds\<rparr>) x =
    (if x = hid then filter (\<lambda>d. d_host_id d = x \<and> d_state d = D_DRAINING) ds
     else filter (\<lambda>d. d_host_id d = x \<and> d_state d \<noteq> D_ENDED) ds)"
proof (induction ds)
  case Nil
  then show ?case by (simp add: open_drains_def ended_in_def)
next
  case (Cons d ds)
  then show ?case by (cases "d_state d") (auto simp: open_drains_def ended_in_def)
qed

lemma open_drains_next [simp]: "open_drains (next_rev s) = open_drains s"
  by (rule ext) (simp add: open_drains_def)

lemma with_drain_complete_inv:
  assumes inv: "ds_inv s" and eq: "with_drain_complete s hid at = Inr t"
  shows "ds_inv t \<and> ds_revision t = ds_revision s + 1"
proof -
  obtain h c where h: "ds_host s hid = Inr h" and st: "h_state h = H_DRAINING"
    and c: "ds_capacity s hid = Inr c" "cap_in_use c = 0"
    and t: "t = next_rev (s\<lparr>ds_hosts := host_in hid H_DRAINED (ds_hosts s),
                             ds_drains := drained_in hid at (ds_drains s)\<rparr>)"
    and kt: "keys_ok t" "refs_ok t"
    using eq by (rule with_drain_completeD) blast
  obtain d where one: "open_drains s hid = [d]" and d: "d_state d = D_DRAINING"
    using host_drains [OF inv h] st by (auto simp: expected_drains_def)
  then have "d \<in> set (open_drains s hid)" by simp
  then have dh: "d_host_id d = hid" by (simp add: open_drains_def)
  show ?thesis
  proof (rule host_state_inv [OF inv t kt])
    show "list_all drain_ok (drained_in hid at (ds_drains s))"
      using inv by (simp add: list_all_drains ds_inv_def ds_ok_def)
    show "in_use_of s hid = 0"
      using c by (auto simp: ds_capacity_def bindR_Inr_iff capacity_make_ok)
    have "open_drains t hid = drained_in hid at (open_drains s hid)"
      by (simp add: t drained_in_open) (simp add: open_drains_def)
    then show "map d_state (open_drains t hid) = expected_drains H_DRAINED"
      using one d dh by (simp add: drained_in_def expected_drains_def)
    show "open_drains t x = open_drains s x" if "x \<noteq> hid" for x
      using that by (simp add: t drained_in_open) (simp add: open_drains_def)
  qed
qed

lemma with_host_returned_inv:
  assumes inv: "ds_inv s" and eq: "with_host_returned s hid at = Inr t"
  shows "ds_inv t \<and> ds_revision t = ds_revision s + 1"
proof -
  obtain h where h: "ds_host s hid = Inr h" and st: "h_state h = H_DRAINED"
    and t: "t = next_rev (s\<lparr>ds_hosts := host_in hid H_ACTIVE (ds_hosts s),
                             ds_drains := ended_in hid at (ds_drains s)\<rparr>)"
    and kt: "keys_ok t" "refs_ok t"
    using eq by (rule with_host_returnedD) blast
  have "D_DRAINING \<notin> d_state ` set (open_drains s hid)"
    using host_drains [OF inv h] st by (simp add: expected_drains_def flip: set_map)
  then have "filter (\<lambda>d. d_host_id d = hid \<and> d_state d = D_DRAINING) (ds_drains s) = []"
    by (auto simp: open_drains_def filter_empty_conv image_iff)
  show ?thesis
  proof (rule host_state_inv [OF inv t kt])
    show "list_all drain_ok (ended_in hid at (ds_drains s))"
      using inv by (simp add: list_all_drains ds_inv_def ds_ok_def)
    show "map d_state (open_drains t hid) = expected_drains H_ACTIVE"
      using \<open>filter _ _ = []\<close> by (simp add: t ended_in_open expected_drains_def)
    show "open_drains t x = open_drains s x" if "x \<noteq> hid" for x
      using that by (simp add: t ended_in_open) (simp add: open_drains_def)
  qed simp
qed

lemma with_rollout_inv:
  assumes inv: "ds_inv s" and eq: "with_rollout s rid pid to_image at = Inr t"
  shows "ds_inv t \<and> ds_revision t = ds_revision s + 1"
proof -
  have k: "keys_ok s" using inv by (simp add: ds_inv_def ds_ok_def)
  obtain p where p: "ds_pool s pid = Inr p" and r: "pool_ok (rolled p to_image)"
    "rollout_ok (new_rollout rid pid (p_image_digest p) to_image at)"
    and t: "t = next_rev (s\<lparr>ds_pools := image_in pid to_image (ds_pools s),
           ds_rollouts := ds_rollouts s @ [new_rollout rid pid (p_image_digest p) to_image at]\<rparr>)"
    and kt: "keys_ok t" "refs_ok t"
    using eq k by (rule with_rolloutD) blast
  have "x = p" if "x \<in> set (ds_pools s)" "p_pool_id x = pid" for x
    using p that k by (auto simp: ds_pool_ok keys_ok_def distinct_map inj_on_def)
  then have "list_all pool_ok (image_in pid to_image (ds_pools s))"
    using inv r by (auto simp: ds_inv_def ds_ok_def list_all_iff image_in_def)
  then have "ds_ok t" using inv kt r by (simp add: ds_inv_def ds_ok_def t)
  moreover have "in_use_of t = in_use_of s" by (rule in_use_cong) (simp add: t)
  ultimately show ?thesis
    using inv by (simp add: ds_inv_def within_slots_def drained_idle_def drains_agree_def open_drains_def t)
qed

lemma ds_step_inv: "ds_step s t \<Longrightarrow> ds_inv s \<Longrightarrow> ds_inv t \<and> ds_revision t = ds_revision s + 1"
  by (induction rule: ds_step.induct)
    (blast dest: with_assignment_inv with_release_inv with_drain_inv with_drain_complete_inv
      with_host_returned_inv with_rollout_inv)+

interpretation fleet: versioned_system ds_step ds_inv ds_revision
  by unfold_locales (use ds_step_inv in blast)+

inductive_cases ds_stepE: "ds_step s t"

section \<open>When a transition succeeds\<close>

lemma keys_ok_assignments: "keys_ok (s\<lparr>ds_assignments := xs\<rparr>) \<longleftrightarrow>
    distinct (map r_name (ds_repositories s)) \<and> distinct (map p_pool_id (ds_pools s))
    \<and> distinct (map h_host_id (ds_hosts s)) \<and> distinct (map a_assignment_id xs)
    \<and> distinct (map ro_rollout_id (ds_rollouts s))"
  by (simp add: keys_ok_def)

lemma refusal_for_None: "refusal_for h p = None \<longleftrightarrow>
    h_state h = H_ACTIVE \<and> p_runtime p \<in> set (h_runtimes h)
    \<and> set (p_architectures p) \<inter> set (h_architectures h) \<noteq> {} \<and> p_pool_id p \<in> set (h_allowed_pools h)"
  by (simp add: refusal_for_def)

lemma ids_host_in [simp]: "map h_host_id (host_in hid st hs) = map h_host_id hs"
  "h_host_id ` set (host_in hid st hs) = h_host_id ` set hs"
proof -
  show ids: "map h_host_id (host_in hid st hs) = map h_host_id hs" by (simp add: host_in_def)
  show "h_host_id ` set (host_in hid st hs) = h_host_id ` set hs"
    using arg_cong [OF ids, of set] by simp
qed

lemma ids_drains [simp]: "d_host_id ` set (drained_in hid at ds) = d_host_id ` set ds"
  "d_host_id ` set (ended_in hid at ds) = d_host_id ` set ds"
proof -
  have "map d_host_id (drained_in hid at ds) = map d_host_id ds" by (simp add: drained_in_def)
  then show "d_host_id ` set (drained_in hid at ds) = d_host_id ` set ds" by (metis set_map)
  have "map d_host_id (ended_in hid at ds) = map d_host_id ds" by (simp add: ended_in_def)
  then show "d_host_id ` set (ended_in hid at ds) = d_host_id ` set ds" by (metis set_map)
qed

lemma refs_drains: "refs_ok s \<longleftrightarrow>
    (\<forall>a \<in> set (ds_assignments s). a_pool_id a \<in> p_pool_id ` set (ds_pools s)
        \<and> a_host_id a \<in> h_host_id ` set (ds_hosts s))
    \<and> d_host_id ` set (ds_drains s) \<subseteq> h_host_id ` set (ds_hosts s)
    \<and> (\<forall>r \<in> set (ds_rollouts s). ro_pool_id r \<in> p_pool_id ` set (ds_pools s))"
  by (auto simp: refs_ok_def)

text \<open>The guard of a placement: a pool and a host that can run it, with a slot left.\<close>

definition placeable :: "desired_state \<Rightarrow> string \<Rightarrow> string \<Rightarrow> bool" where
  "placeable s pid hid \<longleftrightarrow>
     (\<exists>p \<in> set (ds_pools s). \<exists>h \<in> set (ds_hosts s). p_pool_id p = pid \<and> h_host_id h = hid
        \<and> h_state h = H_ACTIVE \<and> p_runtime p \<in> set (h_runtimes h)
        \<and> set (p_architectures p) \<inter> set (h_architectures h) \<noteq> {} \<and> pid \<in> set (h_allowed_pools h)
        \<and> int (in_use_of s hid) < h_slots h)"

lemma placeable_iff:
  assumes k: "keys_ok s"
  shows "placeable s pid hid \<longleftrightarrow> (\<exists>p h c. ds_pool s pid = Inr p \<and> ds_host s hid = Inr h
    \<and> refusal_for h p = None \<and> ds_capacity s hid = Inr c \<and> \<not> saturated c)"
proof
  assume "placeable s pid hid"
  then obtain p h where "ds_pool s pid = Inr p" "ds_host s hid = Inr h" "refusal_for h p = None"
    and room: "int (in_use_of s hid) < h_slots h"
    by (auto simp: placeable_def ds_pool_ok [OF k] ds_host_ok [OF k] refusal_for_None)
  moreover have "ds_capacity s hid = Inr \<lparr>cap_total = h_slots h, cap_in_use = int (in_use_of s hid)\<rparr>"
    using calculation by (simp add: ds_capacity_def bindR_Inr_iff capacity_make_ok)
  ultimately show "\<exists>p h c. ds_pool s pid = Inr p \<and> ds_host s hid = Inr h
      \<and> refusal_for h p = None \<and> ds_capacity s hid = Inr c \<and> \<not> saturated c"
    by (fastforce simp: saturated_def cap_free_def)
next
  assume "\<exists>p h c. ds_pool s pid = Inr p \<and> ds_host s hid = Inr h
      \<and> refusal_for h p = None \<and> ds_capacity s hid = Inr c \<and> \<not> saturated c"
  then obtain p h c where a: "ds_pool s pid = Inr p" "ds_host s hid = Inr h" "refusal_for h p = None"
      "ds_capacity s hid = Inr c" "\<not> saturated c" by blast
  then have "int (in_use_of s hid) < h_slots h"
    by (auto simp: ds_capacity_def capacity_make_ok saturated_def cap_free_def)
  with a show "placeable s pid hid"
    unfolding placeable_def by (auto simp: ds_pool_ok [OF k] ds_host_ok [OF k] refusal_for_None)
qed

section \<open>Properties\<close>

lemma isoformat_utc_no_Z: "CHR ''Z'' \<notin> set (isoformat_utc d)"
proof -
  have "\<not> is_digit CHR ''Z''" by (simp add: is_digit_def code_def)
  then show ?thesis using isoformat_local_absent [of "CHR ''Z''" d] by (simp add: isoformat_utc_def)
qed

lemma stamp_us_isoformat: "in_calendar t \<Longrightarrow> stamp_us (isoformat_utc (utc t)) = Some t"
  using isoformat_utc_no_Z
  by (simp add: stamp_us_def replace_all_absent fromisoformat_isoformat) (simp add: utc_def)

text \<open>
  Timestamps are normalised once. Whatever spelling \<open>_timestamp\<close> accepts (any offset, a
  trailing \<open>Z\<close>, basic or week dates), the text it returns is accepted again, is returned
  unchanged, and denotes the same instant.
\<close>

theorem timestamp_normal_form:
  assumes "timestamp v w = Inr r"
  shows "timestamp (PStr r) w' = Inr r \<and> instant (PStr r) w' = instant v w'"
proof -
  obtain s t where v: "v = PStr s" and t: "stamp_us s = Some t" and r: "r = isoformat_utc (utc t)"
    using assms by (auto simp: timestamp_ok)
  have "stamp_us r = Some t" using stamp_us_isoformat stamp_us_calendar t r by blast
  then show ?thesis using r t v by (simp add: timestamp_ok instant_Some)
qed

lemma assignment_granted:
  assumes inv: "ds_inv s"
  shows "with_assignment s aid rid pid hid at = Inr t \<longleftrightarrow>
    placeable s pid hid \<and> aid \<notin> a_assignment_id ` set (ds_assignments s)
    \<and> is_identifier aid \<and> is_request_id rid \<and> is_identifier pid \<and> is_identifier hid
    \<and> stamp_us at \<noteq> None
    \<and> t = next_rev (s\<lparr>ds_assignments := ds_assignments s @ [new_assignment aid rid pid hid at]\<rparr>)"
    (is "?run \<longleftrightarrow> ?spec")
proof
  have k: "keys_ok s" using inv by (simp add: ds_inv_def ds_ok_def)
  {
    assume ?run
    then show ?spec
      by (rule with_assignmentD) (auto simp: placeable_iff [OF k] assignment_ok_def new_assignment_def)
  next
    assume spec: ?spec
    then obtain p h c where a: "ds_pool s pid = Inr p" "ds_host s hid = Inr h" "refusal_for h p = None"
      "ds_capacity s hid = Inr c" "\<not> saturated c" using placeable_iff [OF k] by blast
    have "keys_ok t" using k spec by (simp add: keys_ok_def new_assignment_def)
    moreover have "refs_ok t"
      using inv a spec
      by (auto simp: ds_inv_def ds_ok_def refs_ok_def new_assignment_def ds_pool_ok [OF k] ds_host_ok [OF k])
    moreover have "0 \<le> ds_revision s" using inv by (simp add: ds_inv_def ds_ok_def)
    ultimately have "bumped s (s\<lparr>ds_assignments := ds_assignments s @ [new_assignment aid rid pid hid at]\<rparr>) = Inr t"
      using spec by (simp add: bumped_ok next_rev_def keys_ok_def refs_ok_def)
    moreover have "assignment_make (PStr aid) (PStr rid) (PStr pid) (PStr hid) (PStr at) PNone
        = Inr (new_assignment aid rid pid hid at)"
      using spec by (simp add: assignment_make_new) (simp add: assignment_ok_def new_assignment_def)
    moreover have "\<not> (\<exists>x \<in> set (ds_assignments s). a_assignment_id x = aid)" using spec by blast
    ultimately show ?run using a by (simp add: with_assignment_def)
  }
qed

text \<open>
  C7: when an assignment is granted. On a valid state \<open>with_assignment\<close> succeeds exactly when the
  pool and the host exist, the host is active, offers the runtime and an architecture, allows the
  pool and has a slot left, the assignment id is new and the ids and the instant are well formed;
  the new state differs by that one assignment and the revision.
\<close>

theorem with_assignment_iff:
  assumes inv: "ds_inv s"
  shows "with_assignment s aid rid pid hid at = Inr t \<longleftrightarrow>
    placeable s pid hid \<and> aid \<notin> a_assignment_id ` set (ds_assignments s)
    \<and> is_identifier aid \<and> is_request_id rid \<and> is_identifier pid \<and> is_identifier hid
    \<and> stamp_us at \<noteq> None
    \<and> t = next_rev (s\<lparr>ds_assignments := ds_assignments s @ [new_assignment aid rid pid hid at]\<rparr>)"
  by (rule assignment_granted [OF inv])

lemma drain_completes:
  assumes inv: "ds_inv s"
  shows "with_drain_complete s hid at = Inr t \<longleftrightarrow>
    (\<exists>h \<in> set (ds_hosts s). h_host_id h = hid \<and> h_state h = H_DRAINING) \<and> in_use_of s hid = 0
    \<and> t = next_rev (s\<lparr>ds_hosts := host_in hid H_DRAINED (ds_hosts s),
                       ds_drains := drained_in hid at (ds_drains s)\<rparr>)"
    (is "?run \<longleftrightarrow> ?spec")
proof
  have k: "keys_ok s" and ok: "ds_ok s" using inv by (simp_all add: ds_inv_def ds_ok_def)
  {
    assume ?run
    then show ?spec
      by (rule with_drain_completeD) (auto simp: ds_host_ok [OF k] ds_capacity_ok [OF k])
  next
    assume spec: ?spec
    then obtain h where h: "ds_host s hid = Inr h" "h_state h = H_DRAINING" "h \<in> set (ds_hosts s)"
      by (auto simp: ds_host_ok [OF k])
    then have c: "ds_capacity s hid = Inr \<lparr>cap_total = h_slots h, cap_in_use = 0\<rparr>"
      using spec ok by (auto simp: ds_capacity_def capacity_make_ok ds_ok_def list_all_iff host_ok_def)
    have "drain_ok d" if "d \<in> set (ds_drains s)" for d using ok that by (simp add: ds_ok_def list_all_iff)
    moreover have "host_ok x" if "x \<in> set (ds_hosts s)" for x
      using ok that by (simp add: ds_ok_def list_all_iff)
    moreover have "keys_ok t" "refs_ok t"
      using ok spec by (simp_all add: ds_ok_def keys_ok_def refs_drains)
    ultimately show ?run
      using h c spec ok
      by (auto simp: with_drain_complete_def step_eqs mapR_update_ok [OF drain_replace_ok] drained_in_def
          next_rev_def keys_ok_def refs_drains ds_ok_def)
  }
qed

text \<open>
  When a drain completes. On a valid state \<open>with_drain_complete\<close> succeeds exactly for a host
  that is draining and has no assignment left; it moves the host and its open drain record to
  \<open>drained\<close> and changes nothing else but the revision.
\<close>

theorem with_drain_complete_iff:
  assumes inv: "ds_inv s"
  shows "with_drain_complete s hid at = Inr t \<longleftrightarrow>
    (\<exists>h \<in> set (ds_hosts s). h_host_id h = hid \<and> h_state h = H_DRAINING) \<and> in_use_of s hid = 0
    \<and> t = next_rev (s\<lparr>ds_hosts := host_in hid H_DRAINED (ds_hosts s),
                       ds_drains := drained_in hid at (ds_drains s)\<rparr>)"
  by (rule drain_completes [OF inv])

text \<open>
  C3: every reachable desired state is valid. Starting from a valid state, after any \<open>n\<close> accepted
  transitions with any arguments the state is still valid: references resolve, ids are unique, no
  host holds more assignments than it has slots, a drained host holds none, each host's open drain
  records say what its state says; and the revision has advanced by exactly \<open>n\<close>.
\<close>

theorem reachable_states_valid:
  assumes "(ds_step ^^ n) s t" and "ds_inv s"
  shows "ds_ok t
    \<and> (\<forall>h \<in> set (ds_hosts t). int (in_use_of t (h_host_id h)) \<le> h_slots h)
    \<and> (\<forall>h \<in> set (ds_hosts t). h_state h = H_DRAINED \<longrightarrow> in_use_of t (h_host_id h) = 0)
    \<and> (\<forall>h \<in> set (ds_hosts t). map d_state (open_drains t (h_host_id h)) = expected_drains (h_state h))
    \<and> ds_revision t = ds_revision s + int n"
proof -
  have "ds_inv t" using fleet.steps_keep [OF assms] .
  then show ?thesis
    using fleet.steps_count [OF assms]
    by (simp add: ds_inv_def within_slots_def drained_idle_def drains_agree_def)
qed

end
