(* ===== verification/Py_Json.thy ===== *)
theory Py_Json
  imports Prelude "HOL-Library.Word"
begin

text \<open>
  What the code uses of \<open>json\<close> and \<open>hashlib\<close>: the compact encoder with sorted keys
  (\<open>json.dumps(value, sort_keys=True, separators=(",", ":"))\<close>) in its ASCII and its UTF-8
  profile, and SHA-256 (FIPS 180-4) over bytes, computed on 32-bit words.
\<close>

section \<open>SHA-256\<close>

type_synonym byte = "8 word"
type_synonym bytes = "byte list"

unbundle bit_operations_syntax

text \<open>
  The constants are the first 32 bits of the fractional parts of square and cube roots of primes,
  so they are computed: the integer \<open>k\<close>-th root of \<open>p * 2 ^ (32 * k)\<close>, modulo \<open>2 ^ 32\<close>.
\<close>

definition iroot :: "nat \<Rightarrow> int \<Rightarrow> int" where
  "iroot k n = foldl (\<lambda>r i. if (r + 2 ^ i) ^ k \<le> n then r + 2 ^ i else r) 0 (rev [0..<40])"

definition first_primes :: "nat \<Rightarrow> nat list" where
  "first_primes n = take n (filter (\<lambda>p. list_all (\<lambda>d. p mod d \<noteq> 0) [2..<p]) [2..<312])"

definition root_bits :: "nat \<Rightarrow> nat \<Rightarrow> 32 word" where
  "root_bits k p = word_of_int (iroot k (int p * 2 ^ (32 * k)))"

definition sha_constants :: "32 word list" where
  "sha_constants = map (root_bits 3) (first_primes 64)"

definition sha_start :: "32 word list" where
  "sha_start = map (root_bits 2) (first_primes 8)"

definition big_sigma0 :: "32 word \<Rightarrow> 32 word" where
  "big_sigma0 x = word_rotr 2 x XOR word_rotr 13 x XOR word_rotr 22 x"

definition big_sigma1 :: "32 word \<Rightarrow> 32 word" where
  "big_sigma1 x = word_rotr 6 x XOR word_rotr 11 x XOR word_rotr 25 x"

definition small_sigma0 :: "32 word \<Rightarrow> 32 word" where
  "small_sigma0 x = word_rotr 7 x XOR word_rotr 18 x XOR drop_bit 3 x"

definition small_sigma1 :: "32 word \<Rightarrow> 32 word" where
  "small_sigma1 x = word_rotr 17 x XOR word_rotr 19 x XOR drop_bit 10 x"

text \<open>The message schedule, newest word first.\<close>

primrec extend_schedule :: "nat \<Rightarrow> 32 word list \<Rightarrow> 32 word list" where
  "extend_schedule 0 ws = ws"
| "extend_schedule (Suc n) ws =
     extend_schedule n ((small_sigma1 (ws ! 1) + ws ! 6 + small_sigma0 (ws ! 14) + ws ! 15) # ws)"

fun sha_round :: "32 word list \<Rightarrow> 32 word \<times> 32 word \<Rightarrow> 32 word list" where
  "sha_round [a, b, c, d, e, f, g, h] (k, w) =
     (let t1 = h + big_sigma1 e + ((e AND f) XOR (NOT e AND g)) + k + w;
          t2 = big_sigma0 a + ((a AND b) XOR (a AND c) XOR (b AND c))
      in [t1 + t2, a, b, c, d + t1, e, f, g])"
| "sha_round st kw = st"

definition sha_block :: "32 word list \<Rightarrow> 32 word list \<Rightarrow> 32 word list" where
  "sha_block st ws =
     map2 (+) st (foldl sha_round st (zip sha_constants (rev (extend_schedule 48 (rev ws)))))"

fun words_of :: "bytes \<Rightarrow> 32 word list" where
  "words_of (a # b # c # d # bs) =
     (push_bit 24 (ucast a) OR push_bit 16 (ucast b) OR push_bit 8 (ucast c) OR ucast d) # words_of bs"
| "words_of _ = []"

text \<open>The low \<open>n\<close> bytes of a number, most significant first.\<close>

primrec big_endian :: "nat \<Rightarrow> nat \<Rightarrow> bytes" where
  "big_endian 0 x = []"
| "big_endian (Suc n) x = big_endian n (x div 256) @ [of_nat (x mod 256)]"

definition sha_pad :: "bytes \<Rightarrow> bytes" where
  "sha_pad bs =
     bs @ [0x80] @ replicate ((119 - length bs mod 64) mod 64) 0 @ big_endian 8 (8 * length bs)"

fun sha_blocks :: "32 word list \<Rightarrow> 32 word list \<Rightarrow> 32 word list" where
  "sha_blocks st ws =
     (if ws = [] then st else sha_blocks (sha_block st (take 16 ws)) (drop 16 ws))"

declare sha_blocks.simps [simp del]

definition sha256 :: "bytes \<Rightarrow> bytes" where
  "sha256 bs = concat (map (\<lambda>w. big_endian 4 (unat w)) (sha_blocks sha_start (words_of (sha_pad bs))))"

definition hex_digit :: "nat \<Rightarrow> char" where
  "hex_digit n = (if n < 10 then char_of (48 + n) else char_of (87 + n))"

text \<open>\<open>bytes.hex()\<close>, and so \<open>hexdigest()\<close>.\<close>

definition hex_of :: "bytes \<Rightarrow> string" where
  "hex_of bs = concat (map (\<lambda>b. [hex_digit (unat b div 16), hex_digit (unat b mod 16)]) bs)"

definition hexdigest :: "bytes \<Rightarrow> string" where
  "hexdigest bs = hex_of (sha256 bs)"

text \<open>\<open>str.encode("utf-8")\<close> on code points up to U+00FF.\<close>

definition utf8_char :: "char \<Rightarrow> bytes" where
  "utf8_char c =
     (if code c < 128 then [of_nat (code c)]
      else [of_nat (192 + code c div 64), of_nat (128 + code c mod 64)])"

definition utf8 :: "string \<Rightarrow> bytes" where
  "utf8 s = concat (map utf8_char s)"

section \<open>The encoder\<close>

definition hex4 :: "nat \<Rightarrow> string" where
  "hex4 n = [hex_digit (n div 4096 mod 16), hex_digit (n div 256 mod 16), hex_digit (n div 16 mod 16),
             hex_digit (n mod 16)]"

definition quote_char :: char where
  "quote_char = CHR 0x22"

definition backslash :: char where
  "backslash = CHR 0x5C"

text \<open>
  How a character of a string is written: the short escapes first; then everything outside
  printable ASCII as a four-digit escape when \<open>ensure_ascii\<close> is set, and only the control
  characters when it is not.
\<close>

definition json_char :: "bool \<Rightarrow> char \<Rightarrow> string" where
  "json_char ascii c =
     (if c = quote_char \<or> c = backslash then [backslash, c]
      else if c = newline then [backslash, CHR ''n'']
      else if code c = 13 then [backslash, CHR ''r'']
      else if code c = 9 then [backslash, CHR ''t'']
      else if code c = 12 then [backslash, CHR ''f'']
      else if code c = 8 then [backslash, CHR ''b'']
      else if code c < 32 \<or> (ascii \<and> 126 < code c) then backslash # CHR ''u'' # hex4 (code c)
      else [c])"

definition json_str :: "bool \<Rightarrow> string \<Rightarrow> string" where
  "json_str ascii s = quote_char # concat (map (json_char ascii) s) @ [quote_char]"

fun json_text :: "bool \<Rightarrow> pyval \<Rightarrow> string" where
  "json_text a PNone = ''null''"
| "json_text a (PBool b) = (if b then ''true'' else ''false'')"
| "json_text a (PInt i) = int_str i"
| "json_text a (PFloat s) = s"
| "json_text a (PInf b) = (if b then ''-Infinity'' else ''Infinity'')"
| "json_text a PNaN = ''NaN''"
| "json_text a (PStr s) = json_str a s"
| "json_text a (PList vs) = ''['' @ join '','' (map (json_text a) vs) @ '']''"
| "json_text a (PDict kvs) =
     ''{'' @ join '','' (map (\<lambda>(k, t). json_str a k @ '':'' @ t)
        (sort_key fst (map (\<lambda>(k, v). (k, json_text a v)) kvs))) @ ''}''"

text \<open>\<open>json.dumps(value, sort_keys=True, separators=(",", ":"))\<close>, for finite numbers.\<close>

definition dumps :: "pyval \<Rightarrow> string" where
  "dumps v = json_text True v"

definition digest_id :: "string \<Rightarrow> pyval \<Rightarrow> string" where
  "digest_id tag payload = tag @ take 32 (hexdigest (utf8 (dumps payload)))"

end
