(* ===== verification/Fleet_Plan.thy ===== *)
theory Fleet_Plan
  imports Fleet_Model Interfaces Py_Json
begin

text \<open>
  Plans, \<open>fleet_manager/plan.py\<close>: changes, the plan value and its digest, the clock a plan is
  simulated at, and the simulation that builds a plan. A \<open>dict\<close> keyed by host id is an association
  list in insertion order.
\<close>

section \<open>Changes\<close>

definition plan_clock_floor :: string where
  "plan_clock_floor = ''1970-01-01T00:00:00+00:00''"

definition plan_error :: "string \<Rightarrow> 'a res" where
  "plan_error m = raise PlanError m"

datatype change_kind = ASSIGN | RELEASE | DRAIN | COMPLETE_DRAIN | RETURN_TO_SERVICE | ROLLOUT

fun change_kind_value :: "change_kind \<Rightarrow> string" where
  "change_kind_value ASSIGN = ''assign''"
| "change_kind_value RELEASE = ''release''"
| "change_kind_value DRAIN = ''drain''"
| "change_kind_value COMPLETE_DRAIN = ''complete_drain''"
| "change_kind_value RETURN_TO_SERVICE = ''return_to_service''"
| "change_kind_value ROLLOUT = ''rollout''"

definition destructive_kinds :: "change_kind set" where
  "destructive_kinds = {RELEASE, DRAIN, COMPLETE_DRAIN, ROLLOUT}"

record change =
  ch_kind :: change_kind
  ch_subject :: string
  ch_parameters :: "(string \<times> string) list"

fun check_parameters :: "string list \<Rightarrow> (string \<times> string) list \<Rightarrow> unit res" where
  "check_parameters seen [] = Inr ()"
| "check_parameters seen ((name, item) # ps) =
     (if name = [] then plan_error ''change.parameters: names and values must be strings''
      else if name \<in> set seen then plan_error (''change.parameters: duplicate name '' @ name)
      else check_parameters (name # seen) ps)"

definition change_make :: "change_kind \<Rightarrow> string \<Rightarrow> (string \<times> string) list \<Rightarrow> change res" where
  "change_make k subject ps =
     bindR (if subject = [] then plan_error ''change.subject: must be a non-empty string''
            else Inr ()) (\<lambda>_.
     bindR (check_parameters [] ps) (\<lambda>_.
       Inr \<lparr>ch_kind = k, ch_subject = subject, ch_parameters = ps\<rparr>))"

definition ch_destructive :: "change \<Rightarrow> bool" where
  "ch_destructive c \<longleftrightarrow> ch_kind c \<in> destructive_kinds"

definition parameter :: "change \<Rightarrow> string \<Rightarrow> string res" where
  "parameter c name =
     (case map_of (ch_parameters c) name of
        Some v \<Rightarrow> Inr v
      | None \<Rightarrow> plan_error (''change.parameters: '' @ change_kind_value (ch_kind c) @ '' needs '' @ name))"

definition change_document :: "change \<Rightarrow> pyval" where
  "change_document c = PDict
     [(''kind'', PStr (change_kind_value (ch_kind c))), (''subject'', PStr (ch_subject c)),
      (''parameters'', PDict (map (\<lambda>(n, v). (n, PStr v)) (ch_parameters c)))]"

section \<open>Plans\<close>

record capacity_impact =
  im_host_id :: string
  im_before_free :: int
  im_after_free :: int

definition im_delta :: "capacity_impact \<Rightarrow> int" where
  "im_delta i = im_after_free i - im_before_free i"

record plan =
  pl_plan_id :: string
  pl_base_revision :: int
  pl_changes :: "change list"
  pl_impacts :: "capacity_impact list"
  pl_resulting_revision :: int

definition plan_payload :: "int \<Rightarrow> change list \<Rightarrow> pyval" where
  "plan_payload base cs =
     PDict [(''base_revision'', PInt base), (''changes'', PList (map change_document cs))]"

definition plan_id_for :: "int \<Rightarrow> change list \<Rightarrow> string" where
  "plan_id_for base cs = digest_id ''plan:'' (plan_payload base cs)"

text \<open>\<open>Plan.__post_init__\<close>\<close>

definition plan_make :: "plan \<Rightarrow> plan res" where
  "plan_make p =
     (if pl_changes p = [] then plan_error ''plan: at least one change is required''
      else if pl_plan_id p \<noteq> plan_id_for (pl_base_revision p) (pl_changes p)
      then plan_error (''plan.plan_id: does not match its base revision and changes ''
             @ ''(a plan is not editable after it is built)'')
      else if pl_resulting_revision p \<noteq> pl_base_revision p + int (length (pl_changes p))
      then plan_error ''plan.resulting_revision: must be the base revision plus one per change''
      else Inr p)"

definition pl_destructive :: "plan \<Rightarrow> bool" where
  "pl_destructive p \<longleftrightarrow> list_ex ch_destructive (pl_changes p)"

definition plan_document :: "plan \<Rightarrow> pyval" where
  "plan_document p = PDict
     [(''schema'', PStr ''fleet-manager-plan/1''), (''plan_id'', PStr (pl_plan_id p)),
      (''base_revision'', PInt (pl_base_revision p)),
      (''resulting_revision'', PInt (pl_resulting_revision p)),
      (''destructive'', PBool (pl_destructive p)),
      (''changes'', PList (map change_document (pl_changes p))),
      (''capacity_impact'', PList (map (\<lambda>i. PDict
          [(''host_id'', PStr (im_host_id i)), (''before_free'', PInt (im_before_free i)),
           (''after_free'', PInt (im_after_free i))]) (pl_impacts p)))]"

section \<open>Simulation\<close>

definition present :: "pyval \<Rightarrow> pyval list" where
  "present v = (if v = PNone then [] else [v])"

definition state_timestamps :: "desired_state \<Rightarrow> pyval list" where
  "state_timestamps s =
     concat (map (\<lambda>a. PStr (a_issued_at a) # present (opt_str (a_released_at a))) (ds_assignments s))
     @ concat (map (\<lambda>d. PStr (d_requested_at d) # present (d_completed_at d) @ present (d_ended_at d))
         (ds_drains s))
     @ map (\<lambda>r. PStr (ro_started_at r)) (ds_rollouts s)"

definition later :: "datetime \<Rightarrow> datetime \<Rightarrow> datetime" where
  "later d e = (if dt_instant d < dt_instant e then e else d)"

definition plan_clock :: "desired_state \<Rightarrow> string res" where
  "plan_clock s =
     bindR (mapR (\<lambda>v. instant v ''plan_clock'') (state_timestamps s)) (\<lambda>instants.
       Inr (case instants of [] \<Rightarrow> plan_clock_floor | d # ds \<Rightarrow> isoformat_utc (foldl later d ds)))"

text \<open>The branches of \<open>simulate\<close>, once the instant is known.\<close>

definition simulate_at :: "desired_state \<Rightarrow> change \<Rightarrow> string \<Rightarrow> desired_state res" where
  "simulate_at s c at =
     (case ch_kind c of
        ASSIGN \<Rightarrow>
          bindR (parameter c ''assignment_id'') (\<lambda>aid.
          bindR (parameter c ''request_id'') (\<lambda>rid.
          bindR (parameter c ''pool_id'') (\<lambda>pid.
          bindR (parameter c ''host_id'') (\<lambda>hid.
            with_assignment s aid rid pid hid at))))
      | RELEASE \<Rightarrow> with_release s (ch_subject c) at
      | DRAIN \<Rightarrow> bindR (parameter c ''reason'') (\<lambda>reason. with_drain s (ch_subject c) reason at)
      | COMPLETE_DRAIN \<Rightarrow> with_drain_complete s (ch_subject c) at
      | RETURN_TO_SERVICE \<Rightarrow> with_host_returned s (ch_subject c) at
      | ROLLOUT \<Rightarrow>
          bindR (parameter c ''rollout_id'') (\<lambda>rid.
          bindR (parameter c ''to_image_digest'') (\<lambda>img.
            with_rollout s rid (ch_subject c) img at)))"

definition simulate :: "desired_state \<Rightarrow> change \<Rightarrow> string option \<Rightarrow> desired_state res" where
  "simulate s c at =
     bindR (case at of None \<Rightarrow> plan_clock s | Some t \<Rightarrow> Inr t) (simulate_at s c)"

definition host_of :: "change \<Rightarrow> string option res" where
  "host_of c =
     (case ch_kind c of
        ASSIGN \<Rightarrow> bindR (parameter c ''host_id'') (\<lambda>h. Inr (Some h))
      | DRAIN \<Rightarrow> Inr (Some (ch_subject c))
      | COMPLETE_DRAIN \<Rightarrow> Inr (Some (ch_subject c))
      | RETURN_TO_SERVICE \<Rightarrow> Inr (Some (ch_subject c))
      | _ \<Rightarrow> Inr None)"

definition free_of :: "desired_state \<Rightarrow> string \<Rightarrow> int res" where
  "free_of s hid =
     (case ds_capacity s hid of
        Inr c \<Rightarrow> Inr (cap_free c)
      | Inl e \<Rightarrow> if of_class ModelError e then Inr 0 else Inl e)"

text \<open>The host a change touches, as the loop of \<open>build_plan\<close> finds it.\<close>

definition touched_host :: "desired_state \<Rightarrow> change \<Rightarrow> string option res" where
  "touched_host s c =
     bindR (host_of c) (\<lambda>h.
       if h = None \<and> ch_kind c = RELEASE
       then bindR (ds_assignment s (ch_subject c)) (\<lambda>a. Inr (Some (a_host_id a)))
       else Inr h)"

definition setdefault :: "(string \<times> int) list \<Rightarrow> string \<Rightarrow> int \<Rightarrow> (string \<times> int) list" where
  "setdefault d k v = (if k \<in> fst ` set d then d else d @ [(k, v)])"

definition assign_key :: "(string \<times> int) list \<Rightarrow> string \<Rightarrow> int \<Rightarrow> (string \<times> int) list" where
  "assign_key d k v =
     (if k \<in> fst ` set d then map (\<lambda>(x, y). if x = k then (k, v) else (x, y)) d else d @ [(k, v)])"

definition change_refused :: "nat \<Rightarrow> change \<Rightarrow> exn \<Rightarrow> exn" where
  "change_refused i c e =
     Exn PlanError (''plan: change '' @ nat_str i @ '' ('' @ change_kind_value (ch_kind c) @ '') is ''
       @ (if of_class ModelError e then ''not possible: '' else ''malformed: '') @ exn_text e)"

text \<open>The loop of \<open>build_plan\<close>: the working state and the two dictionaries.\<close>

fun plan_loop ::
  "nat \<Rightarrow> change list \<Rightarrow> desired_state \<times> (string \<times> int) list \<times> (string \<times> int) list
   \<Rightarrow> (desired_state \<times> (string \<times> int) list \<times> (string \<times> int) list) res" where
  "plan_loop i [] st = Inr st"
| "plan_loop i (c # cs) (w, fb, la) =
     bindR (mapErr (\<lambda>e. of_class ModelError e \<or> of_class PlanError e) (change_refused i c)
              (simulate w c None)) (\<lambda>following.
     bindR (touched_host w c) (\<lambda>h.
     bindR (case h of
              None \<Rightarrow> Inr (fb, la)
            | Some hid \<Rightarrow>
                bindR (free_of w hid) (\<lambda>before.
                bindR (free_of following hid) (\<lambda>after.
                  Inr (setdefault fb hid before, assign_key la hid after)))) (\<lambda>(fb2, la2).
       plan_loop (Suc i) cs (following, fb2, la2))))"

definition impact_of :: "(string \<times> int) list \<Rightarrow> (string \<times> int) list \<Rightarrow> string \<Rightarrow> capacity_impact" where
  "impact_of fb la hid =
     (let before = the (map_of fb hid) in
      \<lparr>im_host_id = hid, im_before_free = before,
       im_after_free = (case map_of la hid of Some v \<Rightarrow> v | None \<Rightarrow> before)\<rparr>)"

definition build_plan :: "desired_state \<Rightarrow> change list \<Rightarrow> plan res" where
  "build_plan s cs =
     (if cs = [] then plan_error ''plan: at least one change is required''
      else bindR (plan_loop 0 cs (s, [], [])) (\<lambda>(w, fb, la).
        plan_make
          \<lparr>pl_plan_id = plan_id_for (ds_revision s) cs, pl_base_revision = ds_revision s,
           pl_changes = cs, pl_impacts = map (impact_of fb la) (sort (map fst fb)),
           pl_resulting_revision = ds_revision s + int (length cs)\<rparr>))"

section \<open>What planning guarantees\<close>

lemma plan_error_Inr [simp]: "plan_error m \<noteq> Inr a" "Inr a \<noteq> plan_error m"
  by (simp_all add: plan_error_def)

lemma parameter_ok: "parameter c n = Inr v \<longleftrightarrow> map_of (ch_parameters c) n = Some v"
  by (simp add: parameter_def split: option.splits)

lemma simulate_at_step: "simulate_at s c at = Inr t \<Longrightarrow> ds_step s t"
  by (cases "ch_kind c") (auto simp: simulate_at_def bindR_Inr_iff intro: ds_step.intros)

lemma simulate_step: "simulate s c at = Inr t \<Longrightarrow> ds_step s t"
  by (auto simp: simulate_def bindR_Inr_iff dest: simulate_at_step)

lemma simulate_inv: "simulate s c at = Inr t \<Longrightarrow> ds_inv s \<Longrightarrow> ds_inv t \<and> ds_revision t = ds_revision s + 1"
  by (blast dest: simulate_step ds_step_inv)

text \<open>The changes of a plan, one after the other, at one instant or at the clock of each state.\<close>

definition simulate_all :: "string option \<Rightarrow> change list \<Rightarrow> desired_state \<Rightarrow> desired_state res" where
  "simulate_all at cs s = foldR (\<lambda>c w. simulate w c at) cs s"

lemma simulate_all_inv: "simulate_all at cs s = Inr t \<Longrightarrow> ds_inv s \<Longrightarrow>
    ds_inv t \<and> ds_revision t = ds_revision s + int (length cs)"
proof (induction cs arbitrary: s)
  case Nil
  then show ?case by (simp add: simulate_all_def)
next
  case (Cons c cs)
  then obtain u where "simulate s c at = Inr u" "simulate_all at cs u = Inr t"
    by (auto simp: simulate_all_def bindR_Inr_iff)
  with Cons simulate_inv show ?case by fastforce
qed

subsection \<open>Free slots\<close>

definition slots_map :: "desired_state \<Rightarrow> (string \<times> int) list" where
  "slots_map s = map (\<lambda>h. (h_host_id h, h_slots h)) (ds_hosts s)"

definition free_slots :: "desired_state \<Rightarrow> string \<Rightarrow> int" where
  "free_slots s hid =
     (case map_of (slots_map s) hid of
        Some n \<Rightarrow> if int (in_use_of s hid) \<le> n then n - int (in_use_of s hid) else 0
      | None \<Rightarrow> 0)"

lemma find_slots: "map_option h_slots (find (\<lambda>h. h_host_id h = k) hs) =
    map_of (map (\<lambda>h. (h_host_id h, h_slots h)) hs) k"
  by (induction hs) auto

lemma capacity_make_Inl: "capacity_make n u = Inl e \<Longrightarrow> of_class ModelError e"
  by (auto simp: capacity_make_def bindR_Inl_iff count_int_def model_error_def raise_def of_class_def
      split: if_splits)

lemma ds_capacity_Inl: "ds_capacity s hid = Inl e \<Longrightarrow> of_class ModelError e"
  by (auto simp: ds_capacity_def bindR_Inl_iff ds_host_def model_error_def raise_def of_class_def
      split: option.splits dest: capacity_make_Inl [unfolded of_class_def])

lemma free_of_eq [simp]: "free_of s hid = Inr (free_slots s hid)"
proof -
  have look: "map_of (slots_map s) hid = map_option h_slots (find (\<lambda>h. h_host_id h = hid) (ds_hosts s))"
    by (simp add: slots_map_def find_slots)
  show ?thesis
  proof (cases "ds_capacity s hid")
    case (Inl e)
    then have "\<not> (\<exists>c. ds_capacity s hid = Inr c)" by simp
    then have "free_slots s hid = 0"
      by (auto simp: free_slots_def look ds_capacity_def bindR_Inr_iff ds_host_def capacity_make_ok
          split: option.splits)
    then show ?thesis using ds_capacity_Inl [OF Inl] by (simp add: free_of_def Inl)
  next
    case (Inr c)
    then have "free_slots s hid = cap_free c"
      by (auto simp: free_slots_def look ds_capacity_def bindR_Inr_iff ds_host_def
          capacity_make_ok cap_free_def split: option.splits)
    then show ?thesis by (simp add: free_of_def Inr)
  qed
qed

lemma free_slots_cong: "slots_map s = slots_map t \<Longrightarrow> in_use_of s h = in_use_of t h \<Longrightarrow>
    free_slots s h = free_slots t h"
  by (simp add: free_slots_def split: option.split)

lemma slots_host_in: "map (\<lambda>h. (h_host_id h, h_slots h)) (host_in hid st hs)
    = map (\<lambda>h. (h_host_id h, h_slots h)) hs"
  by (simp add: host_in_def)

lemma in_use_release_other:
  assumes "\<forall>x \<in> set xs. a_assignment_id x = aid \<longrightarrow> a_host_id x \<noteq> h"
  shows "length (filter (\<lambda>a. a_host_id a = h \<and> a_state a = ASSIGNED) (release_in aid at xs)) =
    length (filter (\<lambda>a. a_host_id a = h \<and> a_state a = ASSIGNED) xs)"
  using assms by (induction xs) (auto simp: release_in_def a_state_def)

lemma transition_slots:
  "with_assignment s aid rid pid hid at = Inr t \<Longrightarrow> slots_map t = slots_map s"
  "with_release s aid at = Inr t \<Longrightarrow> slots_map t = slots_map s"
  "with_drain s hid reason at = Inr t \<Longrightarrow> slots_map t = slots_map s"
  "with_drain_complete s hid at = Inr t \<Longrightarrow> slots_map t = slots_map s"
  "with_host_returned s hid at = Inr t \<Longrightarrow> slots_map t = slots_map s"
  by (auto simp: slots_map_def slots_host_in elim!: with_assignmentD with_releaseD with_drainD
      with_drain_completeD with_host_returnedD)

lemma rollout_slots: "keys_ok s \<Longrightarrow> with_rollout s rid pid img at = Inr t \<Longrightarrow> slots_map t = slots_map s"
  by (auto simp: slots_map_def elim!: with_rolloutD)

lemma host_change_use:
  "with_drain s hid reason at = Inr t \<Longrightarrow> in_use_of t = in_use_of s"
  "with_drain_complete s hid at = Inr t \<Longrightarrow> in_use_of t = in_use_of s"
  "with_host_returned s hid at = Inr t \<Longrightarrow> in_use_of t = in_use_of s"
  by (auto intro!: in_use_cong elim!: with_drainD with_drain_completeD with_host_returnedD)

lemma rollout_use: "keys_ok s \<Longrightarrow> with_rollout s rid pid img at = Inr t \<Longrightarrow> in_use_of t = in_use_of s"
  by (auto intro!: in_use_cong elim!: with_rolloutD)

lemma assignment_use: "with_assignment s aid rid pid hid at = Inr t \<Longrightarrow> h \<noteq> hid \<Longrightarrow>
    in_use_of t h = in_use_of s h"
  by (auto simp: in_use_of_def new_assignment_def elim!: with_assignmentD)

lemma release_use:
  assumes k: "keys_ok s" and eq: "with_release s aid at = Inr t"
    and a: "ds_assignment s aid = Inr a" and h: "a_host_id a \<noteq> h"
  shows "in_use_of t h = in_use_of s h"
proof -
  have "x = a" if "x \<in> set (ds_assignments s)" "a_assignment_id x = aid" for x
    using a that k by (auto simp: ds_assignment_ok keys_ok_def distinct_map inj_on_def)
  then have "\<forall>x \<in> set (ds_assignments s). a_assignment_id x = aid \<longrightarrow> a_host_id x \<noteq> h" using h by blast
  moreover have "ds_assignments t = release_in aid at (ds_assignments s)"
    using eq by (rule with_releaseD) simp
  ultimately show ?thesis by (simp add: in_use_of_def in_use_release_other)
qed

lemmas transition_effects = transition_slots rollout_slots host_change_use rollout_use

text \<open>A change moves no slot of a host it does not touch.\<close>

lemma simulate_at_free:
  assumes inv: "ds_inv s" and eq: "simulate_at s c at = Inr t" and th: "touched_host s c = Inr k"
    and other: "k \<noteq> Some h"
  shows "free_slots t h = free_slots s h"
proof -
  have ks: "keys_ok s" using inv by (simp add: ds_inv_def ds_ok_def)
  have "slots_map t = slots_map s \<and> in_use_of t h = in_use_of s h"
  proof (cases "ch_kind c")
    case ASSIGN
    then obtain aid rid pid hid where "with_assignment s aid rid pid hid at = Inr t" and "k = Some hid"
      using eq th by (auto simp: simulate_at_def touched_host_def host_of_def bindR_Inr_iff)
    then show ?thesis using other assignment_use transition_slots(1) by simp
  next
    case RELEASE
    then obtain a where "ds_assignment s (ch_subject c) = Inr a" and "k = Some (a_host_id a)"
      using th by (auto simp: touched_host_def host_of_def bindR_Inr_iff)
    then show ?thesis
      using eq other RELEASE release_use [OF ks] transition_slots(2) by (simp add: simulate_at_def)
  qed (use eq ks in \<open>auto simp: simulate_at_def bindR_Inr_iff transition_effects\<close>)
  then show ?thesis by (intro free_slots_cong) auto
qed

lemma simulate_free:
  "ds_inv s \<Longrightarrow> simulate s c at = Inr t \<Longrightarrow> touched_host s c = Inr k \<Longrightarrow> k \<noteq> Some h \<Longrightarrow>
   free_slots t h = free_slots s h"
  by (auto simp: simulate_def bindR_Inr_iff intro: simulate_at_free)

lemma touched_host_total:
  assumes "simulate s c at = Inr t"
  shows "\<exists>k. touched_host s c = Inr k"
  using assms
  by (cases "ch_kind c")
    (auto simp: simulate_def simulate_at_def touched_host_def host_of_def bindR_Inr_iff elim!: with_releaseD)

subsection \<open>The plan loop\<close>

text \<open>What the two dictionaries say, relative to the state the plan starts from.\<close>

definition books_ok ::
  "desired_state \<Rightarrow> desired_state \<Rightarrow> (string \<times> int) list \<Rightarrow> (string \<times> int) list \<Rightarrow> bool" where
  "books_ok s w fb la \<longleftrightarrow>
     map fst la = map fst fb \<and> distinct (map fst fb)
     \<and> (\<forall>(h, n) \<in> set fb. n = free_slots s h) \<and> (\<forall>(h, n) \<in> set la. n = free_slots w h)
     \<and> (\<forall>h. h \<notin> fst ` set fb \<longrightarrow> free_slots w h = free_slots s h)"

lemma setdefault_keys: "map fst (setdefault d k v) = (if k \<in> fst ` set d then map fst d else map fst d @ [k])"
  by (simp add: setdefault_def)

lemma assign_key_keys: "map fst (assign_key d k v) = (if k \<in> fst ` set d then map fst d else map fst d @ [k])"
  by (auto simp: assign_key_def)

lemma assign_key_mem: "(h, n) \<in> set (assign_key d k v) \<Longrightarrow> h = k \<and> n = v \<or> h \<noteq> k \<and> (h, n) \<in> set d"
  by (auto simp: assign_key_def split: if_splits intro: rev_image_eqI)

lemma books_ok_step:
  assumes b: "books_ok s w fb la" and same: "\<And>h. h \<noteq> k \<Longrightarrow> free_slots u h = free_slots w h"
  shows "books_ok s u (setdefault fb k (free_slots w k)) (assign_key la k (free_slots u k))"
proof -
  have keys: "fst ` set la = fst ` set fb" using b by (simp add: books_ok_def flip: set_map)
  have la: "\<forall>(h, n) \<in> set (assign_key la k (free_slots u k)). n = free_slots u h"
    using b same by (auto simp: books_ok_def dest!: assign_key_mem)
  have fb: "\<forall>(h, n) \<in> set (setdefault fb k (free_slots w k)). n = free_slots s h"
    using b by (auto simp: books_ok_def setdefault_def)
  have away: "free_slots u h = free_slots s h" if "h \<notin> fst ` set (setdefault fb k (free_slots w k))" for h
    using b that same [of h] by (auto simp: books_ok_def setdefault_def split: if_splits)
  have km: "map fst (assign_key la k (free_slots u k)) = map fst (setdefault fb k (free_slots w k))"
    using b keys by (simp add: books_ok_def assign_key_keys setdefault_keys)
  have "distinct (map fst (setdefault fb k (free_slots w k)))"
    using b by (auto simp: books_ok_def setdefault_keys)
  then show ?thesis using la fb away km unfolding books_ok_def by blast
qed

lemma books_ok_skip:
  "books_ok s w fb la \<Longrightarrow> (\<And>h. free_slots u h = free_slots w h) \<Longrightarrow> books_ok s u fb la"
  by (simp add: books_ok_def)

lemma plan_loop_ok:
  assumes "plan_loop i cs (w, fb, la) = Inr (t, fb2, la2)" and "ds_inv w" and "books_ok s w fb la"
  shows "simulate_all None cs w = Inr t \<and> books_ok s t fb2 la2"
  using assms
proof (induction cs arbitrary: i w fb la)
  case Nil
  then show ?case by (simp add: simulate_all_def)
next
  case (Cons c cs)
  then obtain u k where u: "simulate w c None = Inr u" and k: "touched_host w c = Inr k"
    by (auto simp: bindR_Inr_iff mapErr_Inr_iff)
  obtain fb1 la1 where books: "(fb1, la1) = (case k of None \<Rightarrow> (fb, la) | Some h \<Rightarrow>
        (setdefault fb h (free_slots w h), assign_key la h (free_slots u h)))"
    by (metis surj_pair)
  then have rest: "plan_loop (Suc i) cs (u, fb1, la1) = Inr (t, fb2, la2)"
    using Cons.prems(1) by (cases k) (simp_all add: u k)
  have "books_ok s u fb1 la1"
  proof (cases k)
    case None
    then show ?thesis
      using books Cons.prems(3) simulate_free [OF Cons.prems(2) u k] by (auto intro: books_ok_skip)
  next
    case (Some h)
    then show ?thesis
      using books books_ok_step [OF Cons.prems(3), of h u] simulate_free [OF Cons.prems(2) u k] by simp
  qed
  with Cons.IH [OF rest] simulate_inv [OF u Cons.prems(2)] u show ?case
    by (simp add: simulate_all_def)
qed

lemma plan_loop_simulates:
  "plan_loop i cs (w, fb, la) = Inr (t, fb2, la2) \<Longrightarrow> simulate_all None cs w = Inr t"
proof (induction cs arbitrary: i w fb la)
  case Nil
  then show ?case by (simp add: simulate_all_def)
next
  case (Cons c cs)
  then obtain u fb1 la1 where "simulate w c None = Inr u"
    and "plan_loop (Suc i) cs (u, fb1, la1) = Inr (t, fb2, la2)"
    by (auto simp: bindR_Inr_iff mapErr_Inr_iff)
  with Cons.IH show ?case by (auto simp: simulate_all_def)
qed

lemma plan_loop_total:
  assumes "simulate_all None cs w = Inr t"
  shows "\<exists>fb2 la2. plan_loop i cs (w, fb, la) = Inr (t, fb2, la2)"
  using assms
proof (induction cs arbitrary: i w fb la)
  case Nil
  then show ?case by (simp add: simulate_all_def)
next
  case (Cons c cs)
  then obtain u where u: "simulate w c None = Inr u" and rest: "simulate_all None cs u = Inr t"
    by (auto simp: simulate_all_def bindR_Inr_iff)
  obtain k where k: "touched_host w c = Inr k" using touched_host_total [OF u] by blast
  show ?case using Cons.IH [OF rest] by (cases k) (simp_all add: u k)
qed

lemma plan_make_ok: "plan_make p = Inr q \<longleftrightarrow> q = p \<and> pl_changes p \<noteq> []
    \<and> pl_plan_id p = plan_id_for (pl_base_revision p) (pl_changes p)
    \<and> pl_resulting_revision p = pl_base_revision p + int (length (pl_changes p))"
  by (auto simp: plan_make_def)

section \<open>Properties\<close>

lemma map_of_books: "books_ok s w fb la \<Longrightarrow> h \<in> fst ` set fb \<Longrightarrow>
    map_of fb h = Some (free_slots s h) \<and> map_of la h = Some (free_slots w h)"
proof -
  assume b: "books_ok s w fb la" and h: "h \<in> fst ` set fb"
  then have "h \<in> fst ` set la" by (simp add: books_ok_def flip: set_map)
  with b h show ?thesis
    by (auto simp: books_ok_def map_of_eq_Some_iff image_iff split_beta)
qed

lemma impacts_of_books:
  assumes b: "books_ok s t fb la" and i: "i \<in> set (map (impact_of fb la) (sort (map fst fb)))"
  shows "im_before_free i = free_slots s (im_host_id i) \<and> im_after_free i = free_slots t (im_host_id i)"
proof -
  obtain h where h: "h \<in> fst ` set fb" and i: "i = impact_of fb la h" using i by auto
  show ?thesis using map_of_books [OF b h] by (simp add: i impact_of_def Let_def)
qed

text \<open>
  C4: a plan predicts. A plan built on a valid state carries the id of its base revision and
  changes; its changes, simulated one after the other, reach a valid state at the revision it
  declares; its impacts list each touched host once, in order, with the slots free before the first
  change and after the last one; and every host it does not list has as many free slots as before.
\<close>

theorem build_plan_describes:
  assumes inv: "ds_inv s" and eq: "build_plan s cs = Inr p"
  shows "\<exists>t. simulate_all None cs s = Inr t \<and> ds_inv t \<and> ds_revision t = pl_resulting_revision p
    \<and> pl_changes p = cs \<and> pl_base_revision p = ds_revision s
    \<and> pl_plan_id p = plan_id_for (ds_revision s) cs
    \<and> sorted_wrt (<) (map im_host_id (pl_impacts p))
    \<and> (\<forall>i \<in> set (pl_impacts p). im_before_free i = free_slots s (im_host_id i)
         \<and> im_after_free i = free_slots t (im_host_id i))
    \<and> (\<forall>h. h \<notin> im_host_id ` set (pl_impacts p) \<longrightarrow> free_slots t h = free_slots s h)"
proof -
  obtain t fb la where loop: "plan_loop 0 cs (s, [], []) = Inr (t, fb, la)"
    and p: "p = \<lparr>pl_plan_id = plan_id_for (ds_revision s) cs, pl_base_revision = ds_revision s,
       pl_changes = cs, pl_impacts = map (impact_of fb la) (sort (map fst fb)),
       pl_resulting_revision = ds_revision s + int (length cs)\<rparr>"
    using eq by (auto simp: build_plan_def bindR_Inr_iff plan_make_ok split: if_splits)
  have "books_ok s s [] []" by (simp add: books_ok_def)
  then have sim: "simulate_all None cs s = Inr t" and b: "books_ok s t fb la"
    using plan_loop_ok [OF loop inv] by simp_all
  have ids: "map im_host_id (pl_impacts p) = sort (map fst fb)"
    by (simp add: p impact_of_def Let_def comp_def)
  then have "sorted_wrt (<) (map im_host_id (pl_impacts p))"
    using b by (simp add: strict_sorted_iff books_ok_def)
  moreover have "free_slots t h = free_slots s h" if "h \<notin> im_host_id ` set (pl_impacts p)" for h
    using that b arg_cong [OF ids, of set] by (simp add: books_ok_def)
  moreover have "\<forall>i \<in> set (pl_impacts p). im_before_free i = free_slots s (im_host_id i)
      \<and> im_after_free i = free_slots t (im_host_id i)"
    using impacts_of_books [OF b] by (simp add: p)
  ultimately show ?thesis using sim simulate_all_inv [OF sim inv] by (auto simp: p)
qed

lemma build_plan_total: "cs \<noteq> [] \<Longrightarrow> simulate_all None cs s = Inr t \<Longrightarrow> \<exists>p. build_plan s cs = Inr p"
  using plan_loop_total [of cs s t 0 "[]" "[]"] by (auto simp: build_plan_def plan_make_ok)

text \<open>
  Planning is exactly simulation. A plan is built if and only if there is at least one change
  and every change is possible in turn; nothing else is refused and nothing impossible is planned.
\<close>

theorem build_plan_iff_possible:
  "(\<exists>p. build_plan s cs = Inr p) \<longleftrightarrow> cs \<noteq> [] \<and> (\<exists>t. simulate_all None cs s = Inr t)"
proof
  assume "\<exists>p. build_plan s cs = Inr p"
  then obtain t fb la where "cs \<noteq> []" and "plan_loop 0 cs (s, [], []) = Inr (t, fb, la)"
    by (auto simp: build_plan_def bindR_Inr_iff split: if_splits)
  then show "cs \<noteq> [] \<and> (\<exists>t. simulate_all None cs s = Inr t)" using plan_loop_simulates by blast
next
  assume "cs \<noteq> [] \<and> (\<exists>t. simulate_all None cs s = Inr t)"
  then show "\<exists>p. build_plan s cs = Inr p" using build_plan_total by blast
qed

end
