(* ===== verification/Fleet_Audit.thy ===== *)
theory Fleet_Audit
  imports Fleet_Model Interfaces
begin

text \<open>
  Authorization (\<open>fleet_manager/auth.py\<close>) and the audit log (\<open>fleet_manager/audit.py\<close>): the
  scope ladder, the principal, the audit event with what it refuses to record, and the log that
  only grows.
\<close>

section \<open>Authorization\<close>

datatype scope = FLEET_READ | FLEET_PLAN | FLEET_APPLY | FLEET_ADMIN

fun scope_value :: "scope \<Rightarrow> string" where
  "scope_value FLEET_READ = ''fleet.read''"
| "scope_value FLEET_PLAN = ''fleet.plan''"
| "scope_value FLEET_APPLY = ''fleet.apply''"
| "scope_value FLEET_ADMIN = ''fleet.admin''"

datatype principal_kind = OPERATOR | SYSTEM | SERVICE

fun principal_kind_value :: "principal_kind \<Rightarrow> string" where
  "principal_kind_value OPERATOR = ''operator''"
| "principal_kind_value SYSTEM = ''system''"
| "principal_kind_value SERVICE = ''service''"

fun satisfied_by :: "scope \<Rightarrow> scope set" where
  "satisfied_by FLEET_READ = {FLEET_READ, FLEET_PLAN, FLEET_APPLY, FLEET_ADMIN}"
| "satisfied_by FLEET_PLAN = {FLEET_PLAN, FLEET_APPLY, FLEET_ADMIN}"
| "satisfied_by FLEET_APPLY = {FLEET_APPLY, FLEET_ADMIN}"
| "satisfied_by FLEET_ADMIN = {FLEET_ADMIN}"

record principal =
  principal_id :: string
  pr_kind :: principal_kind
  pr_scopes :: "scope set"

definition principal_make :: "pyval \<Rightarrow> principal_kind \<Rightarrow> scope set \<Rightarrow> principal res" where
  "principal_make v k scopes =
     bindR (mapErr (of_class ModelError) (\<lambda>e. Exn AuthorizationError (exn_text e))
              (request_id v ''principal.principal_id'')) (\<lambda>i.
       Inr \<lparr>principal_id = i, pr_kind = k, pr_scopes = scopes\<rparr>)"

definition holds :: "principal \<Rightarrow> scope \<Rightarrow> bool" where
  "holds p s \<longleftrightarrow> (\<exists>granted \<in> pr_scopes p. granted \<in> satisfied_by s)"

definition held_text :: "principal \<Rightarrow> string" where
  "held_text p =
     (let t = join '', '' (sorted_list_of_set (scope_value ` pr_scopes p)) in
      if t = [] then ''no scopes'' else t)"

definition require :: "principal \<Rightarrow> scope \<Rightarrow> unit res" where
  "require p s =
     (if holds p s then Inr ()
      else raise AuthorizationError
        (''authorization refused: '' @ scope_value s @ '' is required (principal ''
          @ principal_id p @ '' holds '' @ held_text p @ '')''))"

text \<open>The ladder as an order: a scope's rank.\<close>

fun scope_rank :: "scope \<Rightarrow> nat" where
  "scope_rank FLEET_READ = 0"
| "scope_rank FLEET_PLAN = 1"
| "scope_rank FLEET_APPLY = 2"
| "scope_rank FLEET_ADMIN = 3"

instantiation scope :: linorder
begin

definition less_eq_scope :: "scope \<Rightarrow> scope \<Rightarrow> bool" where
  "less_eq_scope a b \<longleftrightarrow> scope_rank a \<le> scope_rank b"

definition less_scope :: "scope \<Rightarrow> scope \<Rightarrow> bool" where
  "less_scope a b \<longleftrightarrow> scope_rank a < scope_rank b"

instance
proof
  fix a b :: scope
  show "a \<le> b \<Longrightarrow> b \<le> a \<Longrightarrow> a = b"
    by (cases a; cases b) (simp_all add: less_eq_scope_def)
qed (auto simp: less_eq_scope_def less_scope_def)

end

lemma satisfied_by_ladder: "g \<in> satisfied_by s \<longleftrightarrow> s \<le> g"
  by (cases g; cases s) (simp_all add: less_eq_scope_def)

lemma holds_iff: "holds p s \<longleftrightarrow> (\<exists>g \<in> pr_scopes p. s \<le> g)"
  by (simp add: holds_def satisfied_by_ladder)

lemma holds_mono: "holds p s \<Longrightarrow> r \<le> s \<Longrightarrow> holds p r"
  by (meson holds_iff order_trans)

lemma require_ok [value_ok]: "require p s = Inr u \<longleftrightarrow> holds p s"
  by (simp add: require_def)

lemma require_Inl: "require p s = Inl e \<Longrightarrow> exn_class e = AuthorizationError"
  by (auto simp: require_def raise_def split: if_splits)

section \<open>What a reason may not look like\<close>

text \<open>\<^verbatim>\<open>^[a-z][a-z0-9._-]{0,63}$\<close>\<close>

definition action_body :: "string \<Rightarrow> bool" where
  "action_body s \<longleftrightarrow> s \<noteq> [] \<and> length s \<le> 64 \<and> is_lower (hd s) \<and> list_all id_char (tl s)"

definition is_action :: "string \<Rightarrow> bool" where
  "is_action s \<longleftrightarrow> dollar action_body s"

text \<open>At least \<open>n\<close> characters of a class in a row.\<close>

definition run_of :: "(char \<Rightarrow> bool) \<Rightarrow> nat \<Rightarrow> string \<Rightarrow> bool" where
  "run_of p n s \<longleftrightarrow> n \<le> length s \<and> list_all p (take n s)"

definition key_header :: "string \<Rightarrow> bool" where
  "key_header s \<longleftrightarrow> starts_with ''-----begin '' s \<and>
     (let rest = drop 11 s in
      list_ex (\<lambda>i. list_all (\<lambda>c. is_lower c \<or> c = CHR '' '') (take i rest)
                 \<and> starts_with ''private key-----'' (drop i rest)) [0..<Suc (length rest)])"

text \<open>The alternatives of \<open>_SECRET_SHAPED\<close> at the start of a text already in lower case.\<close>

definition secret_at :: "string \<Rightarrow> bool" where
  "secret_at s \<longleftrightarrow>
     (starts_with ''gh'' s \<and> 4 \<le> length s \<and> s ! 2 \<in> set ''pousr'' \<and> s ! 3 = CHR ''_''
        \<and> run_of is_alnum 16 (drop 4 s))
     \<or> (starts_with ''github_pat_'' s \<and> run_of (\<lambda>c. is_alnum c \<or> c = CHR ''_'') 20 (drop 11 s))
     \<or> (starts_with ''xox'' s \<and> 5 \<le> length s \<and> s ! 3 \<in> set ''abprs'' \<and> s ! 4 = CHR ''-''
        \<and> run_of (\<lambda>c. is_alnum c \<or> c = CHR ''-'') 10 (drop 5 s))
     \<or> (starts_with ''akia'' s \<and> run_of is_alnum 16 (drop 4 s))
     \<or> key_header s"

text \<open>\<open>search\<close> under \<open>(?i)\<close>: some suffix, compared in lower case.\<close>

fun secret_in :: "string \<Rightarrow> bool" where
  "secret_in [] = False"
| "secret_in (c # s) = (secret_at (c # s) \<or> secret_in s)"

definition secret_shaped :: "string \<Rightarrow> bool" where
  "secret_shaped s \<longleftrightarrow> secret_in (map to_lower s)"

section \<open>Audit events\<close>

datatype outcome = APPLIED | REFUSED | REPLAYED

fun outcome_value :: "outcome \<Rightarrow> string" where
  "outcome_value APPLIED = ''applied''"
| "outcome_value REFUSED = ''refused''"
| "outcome_value REPLAYED = ''replayed''"

record audit_event =
  ev_seq :: int
  ev_at :: string
  ev_actor :: principal
  ev_action :: string
  ev_subject :: string
  ev_outcome :: outcome
  ev_plan_id :: "string option"
  ev_idempotency_key :: "string option"
  ev_reason :: "string option"

definition audit_error :: "string \<Rightarrow> 'a res" where
  "audit_error m = raise AuditError m"

definition event_instant :: "string \<Rightarrow> string \<Rightarrow> datetime res" where
  "event_instant v w =
     mapErr (of_class ModelError) (\<lambda>e. Exn AuditError (exn_text e)) (instant (PStr v) w)"

definition check_reason :: "string \<Rightarrow> unit res" where
  "check_reason r =
     (if r = [] then audit_error ''audit_event.reason: must be a non-empty string or None''
      else if secret_shaped r
      then audit_error (''audit_event.reason: looks like it carries a secret value; ''
             @ ''record the refusal, not the value'')
      else Inr ())"

text \<open>\<open>AuditEvent.__post_init__\<close>\<close>

definition event_check :: "audit_event \<Rightarrow> unit res" where
  "event_check e =
     bindR (if ev_seq e < 1 then audit_error ''audit_event.seq: must be an integer >= 1''
            else Inr ()) (\<lambda>_.
     bindR (event_instant (ev_at e) ''audit_event.at'') (\<lambda>_.
     bindR (if \<not> is_action (ev_action e)
            then audit_error (''audit_event.action: must be a lowercase token ''
                   @ ''(a-z 0-9 . _ -, 1-64 chars)'') else Inr ()) (\<lambda>_.
     bindR (if ev_subject e = [] then audit_error ''audit_event.subject: must be a non-empty string''
            else Inr ()) (\<lambda>_.
       case ev_reason e of None \<Rightarrow> Inr () | Some r \<Rightarrow> check_reason r))))"

definition event_document :: "audit_event \<Rightarrow> pyval" where
  "event_document e = PDict
     [(''seq'', PInt (ev_seq e)), (''at'', PStr (ev_at e)),
      (''actor'', PDict [(''kind'', PStr (principal_kind_value (pr_kind (ev_actor e)))),
                         (''id'', PStr (principal_id (ev_actor e)))]),
      (''action'', PStr (ev_action e)), (''subject'', PStr (ev_subject e)),
      (''outcome'', PStr (outcome_value (ev_outcome e))), (''plan_id'', opt_str (ev_plan_id e)),
      (''idempotency_key'', opt_str (ev_idempotency_key e)), (''reason'', opt_str (ev_reason e))]"

section \<open>The log\<close>

type_synonym audit_log = "audit_event list"

text \<open>\<open>AuditLog.__post_init__\<close>: the loop over the events, with the previous one.\<close>

fun check_events :: "nat \<Rightarrow> audit_event option \<Rightarrow> audit_log \<Rightarrow> unit res" where
  "check_events i before [] = Inr ()"
| "check_events i before (e # es) =
     bindR (if ev_seq e \<noteq> int i + 1
            then audit_error (''audit_log.events['' @ nat_str i @ '']: seq '' @ int_str (ev_seq e)
                   @ '' breaks the contiguous 1..n sequence (expected '' @ nat_str (i + 1) @ '')'')
            else Inr ()) (\<lambda>_.
     bindR (case before of None \<Rightarrow> Inr ()
            | Some p \<Rightarrow>
                bindR (event_instant (ev_at e) ''audit_event.at'') (\<lambda>now.
                bindR (event_instant (ev_at p) ''audit_event.at'') (\<lambda>prev.
                  if dt_instant now < dt_instant prev
                  then audit_error (''audit_log.events['' @ nat_str i @ '']: timestamp precedes the ''
                         @ ''previous entry -- an audit log does not run backwards'')
                  else Inr ()))) (\<lambda>_.
       check_events (Suc i) (Some e) es))"

definition log_make :: "audit_log \<Rightarrow> audit_log res" where
  "log_make es = bindR (check_events 0 None es) (\<lambda>_. Inr es)"

definition head_seq :: "audit_log \<Rightarrow> int" where
  "head_seq l = int (length l)"

text \<open>\<open>AuditLog.append\<close>; the sequence number of the given event is replaced by the next one.\<close>

definition log_append :: "audit_log \<Rightarrow> audit_event \<Rightarrow> audit_log res" where
  "log_append l e =
     (let ev = e\<lparr>ev_seq := head_seq l + 1\<rparr> in
      bindR (event_check ev) (\<lambda>_. log_make (l @ [ev])))"

definition for_plan :: "audit_log \<Rightarrow> string \<Rightarrow> audit_log" where
  "for_plan l pid = filter (\<lambda>e. ev_plan_id e = Some pid) l"

definition log_after :: "audit_log \<Rightarrow> int \<Rightarrow> audit_log" where
  "log_after l n = filter (\<lambda>e. ev_seq e > n) l"

section \<open>What a log guarantees\<close>

definition event_ok :: "audit_event \<Rightarrow> bool" where
  "event_ok e \<longleftrightarrow> 1 \<le> ev_seq e \<and> stamp_us (ev_at e) \<noteq> None \<and> is_action (ev_action e)
     \<and> ev_subject e \<noteq> [] \<and> pred_option (\<lambda>r. r \<noteq> [] \<and> \<not> secret_shaped r) (ev_reason e)"

definition event_time :: "audit_event \<Rightarrow> int" where
  "event_time e = the (stamp_us (ev_at e))"

definition log_ok :: "audit_log \<Rightarrow> bool" where
  "log_ok l \<longleftrightarrow> list_all event_ok l \<and> map ev_seq l = map int [1..<Suc (length l)]
     \<and> sorted (map event_time l)"

lemma audit_error_Inr [simp]: "audit_error m \<noteq> Inr a" "Inr a \<noteq> audit_error m"
  by (simp_all add: audit_error_def)

lemma event_instant_ok [value_ok]:
  "event_instant v w = Inr d \<longleftrightarrow> (\<exists>t. stamp_us v = Some t \<and> d = utc t)"
  by (simp add: event_instant_def mapErr_Inr_iff instant_ok)

lemma event_instant_Some: "stamp_us v = Some t \<Longrightarrow> event_instant v w = Inr (utc t)"
  by (simp add: event_instant_ok)

lemma check_reason_ok: "check_reason r = Inr u \<longleftrightarrow> r \<noteq> [] \<and> \<not> secret_shaped r"
  by (simp add: check_reason_def)

lemma audit_guard: "(if b then audit_error m else Inr ()) = Inr u \<longleftrightarrow> \<not> b"
  by simp

lemma event_check_ok [value_ok]: "event_check e = Inr u \<longleftrightarrow> event_ok e"
proof -
  have "(case ev_reason e of None \<Rightarrow> Inr () | Some r \<Rightarrow> check_reason r) = Inr u \<longleftrightarrow>
      pred_option (\<lambda>r. r \<noteq> [] \<and> \<not> secret_shaped r) (ev_reason e)"
    by (cases "ev_reason e") (simp_all add: check_reason_ok)
  then show ?thesis
    by (auto simp: event_check_def bindR_Inr_iff audit_guard event_instant_ok event_ok_def not_less)
qed

definition follows :: "audit_event option \<Rightarrow> audit_log \<Rightarrow> bool" where
  "follows before es \<longleftrightarrow> (case before of None \<Rightarrow> True | Some p \<Rightarrow> es = [] \<or> event_time p \<le> event_time (hd es))"

lemma check_events_ok:
  assumes "list_all event_ok es" and "pred_option event_ok before"
  shows "check_events i before es = Inr u \<longleftrightarrow>
    map ev_seq es = map int [Suc i..<Suc i + length es] \<and> follows before es \<and> sorted (map event_time es)"
  using assms
proof (induction es arbitrary: i before)
  case Nil
  then show ?case by (cases before) (simp_all add: follows_def)
next
  case (Cons e es)
  obtain t where t: "stamp_us (ev_at e) = Some t" using Cons.prems by (auto simp: event_ok_def)
  have prev: "(case before of None \<Rightarrow> Inr ()
      | Some p \<Rightarrow> bindR (event_instant (ev_at e) w) (\<lambda>now. bindR (event_instant (ev_at p) w) (\<lambda>prev.
          if dt_instant now < dt_instant prev then audit_error m else Inr ()))) = Inr u
      \<longleftrightarrow> follows before (e # es)" for u w m
    using Cons.prems t
    by (auto simp: follows_def event_time_def event_ok_def event_instant_Some
        split: option.splits if_splits)
  have rest: "follows (Some e) es \<and> sorted (map event_time es) \<longleftrightarrow> sorted (map event_time (e # es))"
    by (cases es) (auto simp: follows_def)
  have "check_events i before (e # es) = Inr u \<longleftrightarrow>
      ev_seq e = int i + 1 \<and> follows before (e # es) \<and> check_events (Suc i) (Some e) es = Inr u"
    by (simp add: bindR_Inr_iff prev)
  also have "\<dots> \<longleftrightarrow> ev_seq e = int i + 1 \<and> follows before (e # es) \<and>
      map ev_seq es = map int [Suc (Suc i)..<Suc (Suc i) + length es] \<and> sorted (map event_time (e # es))"
    using Cons.prems Cons.IH [of "Some e" "Suc i"] rest by auto
  also have "\<dots> \<longleftrightarrow> map ev_seq (e # es) = map int [Suc i..<Suc i + length (e # es)]
      \<and> follows before (e # es) \<and> sorted (map event_time (e # es))"
    by (auto simp: upt_conv_Cons simp del: upt_Suc)
  finally show ?case .
qed

lemma log_make_ok: "list_all event_ok es \<Longrightarrow> log_make es = Inr l \<longleftrightarrow> l = es \<and> log_ok es"
  by (auto simp: log_make_def bindR_Inr_iff check_events_ok log_ok_def follows_def simp del: upt_Suc)

text \<open>Appending, for a log that is one: when it succeeds and what it returns.\<close>

definition not_before :: "audit_log \<Rightarrow> string \<Rightarrow> bool" where
  "not_before l at \<longleftrightarrow> (l = [] \<or> event_time (last l) \<le> the (stamp_us at))"

lemma sorted_snoc_iff: "sorted (xs @ [x::int]) \<longleftrightarrow> sorted xs \<and> (xs = [] \<or> last xs \<le> x)"
  by (induction xs) (auto, meson last_in_set order_trans)

lemma log_ok_snoc: "log_ok (l @ [e]) \<longleftrightarrow>
    log_ok l \<and> event_ok e \<and> ev_seq e = int (length l) + 1 \<and> (l = [] \<or> event_time (last l) \<le> event_time e)"
  by (cases "l = []") (auto simp: log_ok_def sorted_snoc_iff last_map)

lemma log_append_ok:
  assumes "log_ok l"
  shows "log_append l e = Inr m \<longleftrightarrow>
    m = l @ [e\<lparr>ev_seq := head_seq l + 1\<rparr>] \<and> event_ok (e\<lparr>ev_seq := head_seq l + 1\<rparr>)
    \<and> not_before l (ev_at e)"
proof -
  let ?e = "e\<lparr>ev_seq := head_seq l + 1\<rparr>"
  have all: "event_ok ?e \<Longrightarrow> list_all event_ok (l @ [?e])" using assms by (simp add: log_ok_def)
  have "log_append l e = Inr m \<longleftrightarrow> event_ok ?e \<and> m = l @ [?e] \<and> log_ok (l @ [?e])"
    using log_make_ok [OF all] by (auto simp: log_append_def Let_def bindR_Inr_iff event_check_ok)
  then show ?thesis
    using assms by (auto simp: log_ok_snoc head_seq_def not_before_def event_time_def)
qed

lemma log_append_keeps: "log_append l e = Inr m \<Longrightarrow> log_ok l \<Longrightarrow> log_ok m \<and> (\<exists>x. m = l @ [x])"
  by (auto simp: log_append_ok log_ok_snoc not_before_def event_time_def head_seq_def)

interpretation audit: append_log log_append log_ok
  by unfold_locales (rule log_append_keeps)

lemma log_after_drop: "log_ok l \<Longrightarrow> 0 \<le> n \<Longrightarrow> log_after l n = drop (nat n) l"
proof (induction l rule: rev_induct)
  case Nil
  then show ?case by (simp add: log_after_def)
next
  case (snoc e l)
  then have "log_ok l" "ev_seq e = int (length l) + 1" by (simp_all add: log_ok_snoc)
  with snoc show ?case by (auto simp: log_after_def)
qed

text \<open>Every alternative of the pattern needs one of three characters.\<close>

lemma secret_at_marks: "secret_at s \<Longrightarrow> CHR ''_'' \<in> set s \<or> CHR ''-'' \<in> set s \<or> CHR ''k'' \<in> set s"
proof -
  have mem: "c \<in> set s" if "starts_with p s" "c \<in> set p" for p c
    using that set_take_subset [of "length p" s] by (auto simp: starts_with_def)
  have at: "c \<in> set s" if "n < length s" "s ! n = c" for n c using that by auto
  assume "secret_at s"
  then show ?thesis
    using mem [of "''github_pat_''" "CHR ''_''"] mem [of "''akia''" "CHR ''k''"]
      mem [of "''-----begin ''" "CHR ''-''"] at [of 3 "CHR ''_''"] at [of 4 "CHR ''-''"]
    by (auto simp: secret_at_def key_header_def)
qed

lemma secret_marks: "{CHR ''_'', CHR ''-'', CHR ''k''} \<inter> set (map to_lower s) = {} \<Longrightarrow> \<not> secret_shaped s"
proof -
  have "secret_in t \<Longrightarrow> {CHR ''_'', CHR ''-'', CHR ''k''} \<inter> set t \<noteq> {}" for t
    by (induction t) (use secret_at_marks in \<open>fastforce+\<close>)
  then show "{CHR ''_'', CHR ''-'', CHR ''k''} \<inter> set (map to_lower s) = {} \<Longrightarrow> \<not> secret_shaped s"
    unfolding secret_shaped_def by blast
qed

end
