(* ===== verification/Fleet_Apply.thy ===== *)
theory Fleet_Apply
  imports Fleet_Plan Fleet_Audit
begin

text \<open>
  Apply, \<open>fleet_manager/apply.py\<close>: the idempotency ledger and \<open>apply_plan\<close>, the one place where
  a plan becomes a new revision. A call either fails with an exception, is refused with the log
  that records the refusal (\<open>ApplyRefused\<close>), or returns an \<open>ApplyResult\<close>.
\<close>

section \<open>The idempotency ledger\<close>

definition apply_error :: "string \<Rightarrow> 'a res" where
  "apply_error m = raise ApplyError m"

text \<open>\<open>_key\<close>; the pattern is that of a request id.\<close>

definition apply_key :: "string \<Rightarrow> string \<Rightarrow> string res" where
  "apply_key v w =
     (if is_request_id v then Inr v
      else apply_error (w @ '': must match [A-Za-z0-9][A-Za-z0-9._:-]{0,127}''))"

type_synonym ledger = "(string \<times> string \<times> int) list"

fun check_entries :: "nat \<Rightarrow> string list \<Rightarrow> ledger \<Rightarrow> unit res" where
  "check_entries i seen [] = Inr ()"
| "check_entries i seen ((key, pid, revision) # es) =
     (let w = ''idempotency.entries['' @ nat_str i @ '']'' in
      bindR (apply_key key (w @ ''.key'')) (\<lambda>_.
      bindR (if \<not> starts_with ''plan:'' pid then apply_error (w @ ''.plan_id: must be a plan id'')
             else Inr ()) (\<lambda>_.
      bindR (if revision < 2 then apply_error (w @ ''.revision: must be an integer >= 2'')
             else Inr ()) (\<lambda>_.
      bindR (if key \<in> set seen then apply_error (w @ '': key '' @ key @ '' appears twice'')
             else Inr ()) (\<lambda>_.
        check_entries (Suc i) (key # seen) es)))))"

definition ledger_make :: "ledger \<Rightarrow> ledger res" where
  "ledger_make es = bindR (check_entries 0 [] es) (\<lambda>_. Inr es)"

definition ledger_lookup :: "ledger \<Rightarrow> string \<Rightarrow> (string \<times> int) option" where
  "ledger_lookup es key = map_option snd (find (\<lambda>e. fst e = key) es)"

definition with_applied :: "ledger \<Rightarrow> string \<Rightarrow> string \<times> int \<Rightarrow> ledger res" where
  "with_applied es key pr =
     bindR (apply_key key ''idempotency.key'') (\<lambda>_.
     bindR (if ledger_lookup es key \<noteq> None
            then apply_error (''idempotency: key '' @ key @ '' is already recorded; ''
                   @ ''a ledger is appended to, never rewritten'') else Inr ()) (\<lambda>_.
       ledger_make (es @ [(key, pr)])))"

section \<open>Applying a plan\<close>

record apply_result =
  res_state :: desired_state
  res_audit_log :: audit_log
  res_ledger :: ledger
  res_plan_id :: string
  res_base_revision :: int
  res_resulting_revision :: int
  res_replayed :: bool

datatype apply_fail = Failed exn | ApplyRefused string audit_log

type_synonym 'a apply_res = "apply_fail + 'a"

definition failing :: "'a res \<Rightarrow> 'a apply_res" where
  "failing m = (case m of Inl e \<Rightarrow> Inl (Failed e) | Inr a \<Rightarrow> Inr a)"

text \<open>The event every entry of one call shares.\<close>

definition apply_event :: "plan \<Rightarrow> principal \<Rightarrow> string \<Rightarrow> string \<Rightarrow> audit_event" where
  "apply_event p who at key =
     \<lparr>ev_seq = 0, ev_at = at, ev_actor = who, ev_action = ''apply'', ev_subject = pl_plan_id p,
      ev_outcome = REFUSED, ev_plan_id = Some (pl_plan_id p), ev_idempotency_key = Some key,
      ev_reason = None\<rparr>"

text \<open>\<open>raise refused(message)\<close>\<close>

definition refused :: "audit_log \<Rightarrow> audit_event \<Rightarrow> string \<Rightarrow> 'a apply_res" where
  "refused log ev message =
     bindR (failing (log_append log (ev\<lparr>ev_outcome := REFUSED, ev_reason := Some message\<rparr>))) (\<lambda>l.
       Inl (ApplyRefused message l))"

definition applied_event :: "audit_event \<Rightarrow> change \<Rightarrow> audit_event" where
  "applied_event ev c =
     ev\<lparr>ev_action := change_kind_value (ch_kind c), ev_subject := ch_subject c, ev_outcome := APPLIED\<rparr>"

fun apply_loop ::
  "audit_log \<Rightarrow> audit_event \<Rightarrow> string \<Rightarrow> nat \<Rightarrow> change list \<Rightarrow> desired_state \<Rightarrow> audit_log
   \<Rightarrow> (desired_state \<times> audit_log) apply_res" where
  "apply_loop log ev at i [] working pending = Inr (working, pending)"
| "apply_loop log ev at i (c # cs) working pending =
     (case simulate working c (Some at) of
        Inl e \<Rightarrow>
          if of_class ModelError e
          then refused log ev (''change '' @ nat_str i @ '' ('' @ change_kind_value (ch_kind c)
                 @ '') is not possible: '' @ exn_text e)
          else Inl (Failed e)
      | Inr w \<Rightarrow>
          bindR (failing (log_append pending (applied_event ev c))) (\<lambda>l.
            apply_loop log ev at (Suc i) cs w l))"

definition authorize :: "principal \<Rightarrow> plan \<Rightarrow> unit res" where
  "authorize who p =
     bindR (require who FLEET_APPLY) (\<lambda>_.
       if pl_destructive p then require who FLEET_ADMIN else Inr ())"

definition replay_result ::
  "desired_state \<Rightarrow> plan \<Rightarrow> ledger \<Rightarrow> int \<Rightarrow> audit_log \<Rightarrow> apply_result" where
  "replay_result s p book recorded l =
     \<lparr>res_state = s, res_audit_log = l, res_ledger = book, res_plan_id = pl_plan_id p,
      res_base_revision = pl_base_revision p, res_resulting_revision = recorded,
      res_replayed = True\<rparr>"

text \<open>Step 4 of \<open>apply_plan\<close>: execute, check the revision, record the key.\<close>

definition execute ::
  "desired_state \<Rightarrow> plan \<Rightarrow> audit_event \<Rightarrow> string \<Rightarrow> string \<Rightarrow> ledger \<Rightarrow> audit_log
   \<Rightarrow> apply_result apply_res" where
  "execute s p ev at key book log =
     bindR (apply_loop log ev at 0 (pl_changes p) s log) (\<lambda>(working, pending).
     bindR (if ds_revision working \<noteq> pl_resulting_revision p
            then Inl (Failed (Exn ApplyError (''apply: produced revision '' @ int_str (ds_revision working)
                   @ '', the plan declared '' @ int_str (pl_resulting_revision p)))) else Inr ()) (\<lambda>_.
     bindR (failing (with_applied book key (pl_plan_id p, ds_revision working))) (\<lambda>book2.
       Inr \<lparr>res_state = working, res_audit_log = pending, res_ledger = book2,
            res_plan_id = pl_plan_id p, res_base_revision = pl_base_revision p,
            res_resulting_revision = ds_revision working, res_replayed = False\<rparr>)))"

definition apply_plan ::
  "desired_state \<Rightarrow> plan \<Rightarrow> principal \<Rightarrow> string \<Rightarrow> string \<Rightarrow> ledger \<Rightarrow> audit_log
   \<Rightarrow> apply_result apply_res" where
  "apply_plan s p who at key book log =
     bindR (failing (apply_key key ''apply.idempotency_key'')) (\<lambda>_.
     bindR (failing (mapErr (of_class ModelError) (\<lambda>e. Exn ApplyError (exn_text e))
              (instant (PStr at) ''apply.at''))) (\<lambda>_.
     let ev = apply_event p who at key in
     case authorize who p of
       Inl e \<Rightarrow> refused log ev (exn_text e)
     | Inr _ \<Rightarrow>
         (case ledger_lookup book key of
            Some (recorded_plan, recorded_revision) \<Rightarrow>
              if recorded_plan \<noteq> pl_plan_id p
              then refused log ev (''idempotency: key '' @ key @ '' was already used for plan ''
                     @ recorded_plan @ ''; it cannot also cover '' @ pl_plan_id p)
              else bindR (failing (log_append log (ev\<lparr>ev_outcome := REPLAYED\<rparr>))) (\<lambda>l.
                     Inr (replay_result s p book recorded_revision l))
          | None \<Rightarrow>
              if pl_base_revision p \<noteq> ds_revision s
              then refused log ev (''stale plan '' @ pl_plan_id p @ '': planned against revision ''
                     @ int_str (pl_base_revision p) @ '', the state is at revision ''
                     @ int_str (ds_revision s))
              else execute s p ev at key book log)))"

section \<open>The ledger's contract\<close>

definition entry_ok :: "string \<times> string \<times> int \<Rightarrow> bool" where
  "entry_ok e \<longleftrightarrow> (case e of (key, pid, revision) \<Rightarrow>
     is_request_id key \<and> starts_with ''plan:'' pid \<and> 2 \<le> revision)"

definition ledger_ok :: "ledger \<Rightarrow> bool" where
  "ledger_ok es \<longleftrightarrow> distinct (map fst es) \<and> list_all entry_ok es"

lemma apply_error_Inr [simp]: "apply_error m \<noteq> Inr a" "Inr a \<noteq> apply_error m"
  by (simp_all add: apply_error_def)

lemma apply_key_ok [value_ok]: "apply_key v w = Inr u \<longleftrightarrow> u = v \<and> is_request_id v"
  by (auto simp: apply_key_def)

lemma check_entries_ok: "check_entries i seen es = Inr u \<longleftrightarrow>
    distinct (map fst es) \<and> set (map fst es) \<inter> set seen = {} \<and> list_all entry_ok es"
  by (induction i seen es rule: check_entries.induct)
    (auto simp: Let_def bindR_Inr_iff apply_key_ok entry_ok_def simp del: set_map)

lemma ledger_make_ok: "ledger_make es = Inr l \<longleftrightarrow> l = es \<and> ledger_ok es"
  by (auto simp: ledger_make_def bindR_Inr_iff check_entries_ok ledger_ok_def)

lemma ledger_lookup_map: "ledger_lookup es = map_of es"
proof
  show "ledger_lookup es k = map_of es k" for k
    by (induction es) (auto simp: ledger_lookup_def)
qed

lemma with_applied_ok: "ledger_ok es \<Longrightarrow> with_applied es key pr = Inr l \<longleftrightarrow>
    l = es @ [(key, pr)] \<and> ledger_lookup es key = None \<and> entry_ok (key, pr)"
  by (cases pr) (auto simp: with_applied_def bindR_Inr_iff apply_key_ok ledger_make_ok ledger_ok_def entry_ok_def
      ledger_lookup_map map_of_eq_None_iff)

lemma ledger_ok_snoc: "ledger_ok es \<Longrightarrow> ledger_lookup es key = None \<Longrightarrow> entry_ok (key, pr) \<Longrightarrow>
    ledger_ok (es @ [(key, pr)])"
  by (simp add: ledger_ok_def ledger_lookup_map map_of_eq_None_iff)

lemma map_of_snoc: "map_of es k = None \<Longrightarrow> [k \<mapsto> v] ++ map_of es = (map_of es)(k \<mapsto> v)"
  by (rule ext) (auto simp: map_add_def split: option.splits)

interpretation idempotency: once_ledger ledger_lookup with_applied ledger_ok
proof
  fix l k v m assume eq: "with_applied l k v = Inr m" and ok: "ledger_ok l"
  then have m: "m = l @ [(k, v)]" "ledger_lookup l k = None" "entry_ok (k, v)"
    by (simp_all add: with_applied_ok)
  then show "ledger_ok m" "ledger_lookup l k = None" using ok ledger_ok_snoc by simp_all
  show "ledger_lookup m = (ledger_lookup l)(k \<mapsto> v)" using m by (simp add: ledger_lookup_map map_of_snoc)
qed

section \<open>What apply guarantees\<close>

lemma failing_Inr [simp]: "failing m = Inr a \<longleftrightarrow> m = Inr a"
  by (cases m) (simp_all add: failing_def)

lemma failing_of_Inr [simp]: "failing (Inr a) = Inr a"
  by (simp add: failing_def)

lemma refused_Inr [simp]: "refused log ev m \<noteq> Inr a"
  by (auto simp: refused_def bindR_Inr_iff)

lemma failing_refused: "failing m \<noteq> Inl (ApplyRefused t l)"
  by (cases m) (simp_all add: failing_def)

fun numbered :: "int \<Rightarrow> audit_event list \<Rightarrow> audit_event list" where
  "numbered n [] = []"
| "numbered n (e # es) = e\<lparr>ev_seq := n + 1\<rparr> # numbered (n + 1) es"

lemma length_numbered [simp]: "length (numbered n es) = length es"
  by (induction es arbitrary: n) auto

definition change_ok :: "change \<Rightarrow> bool" where
  "change_ok c \<longleftrightarrow> ch_subject c \<noteq> [] \<and> distinct (map fst (ch_parameters c)) \<and> [] \<notin> fst ` set (ch_parameters c)"

lemma check_parameters_ok: "check_parameters seen ps = Inr u \<longleftrightarrow>
    distinct (map fst ps) \<and> [] \<notin> fst ` set ps \<and> fst ` set ps \<inter> set seen = {}"
  by (induction seen ps rule: check_parameters.induct) auto

lemma change_make_ok: "change_make k sub ps = Inr c \<longleftrightarrow>
    c = \<lparr>ch_kind = k, ch_subject = sub, ch_parameters = ps\<rparr> \<and> change_ok c"
  by (auto simp: change_make_def bindR_Inr_iff check_parameters_ok change_ok_def)

lemma kind_is_action: "is_action (change_kind_value k)"
  by (cases k) (simp_all add: is_action_def dollar_def action_body_def id_char_def is_lower_def
      is_digit_def code_def)

lemma apply_is_action: "is_action ''apply''"
  by (simp add: is_action_def dollar_def action_body_def id_char_def is_lower_def is_digit_def code_def)

text \<open>Appending the record of a change: it succeeds exactly when the log reaches the instant.\<close>

lemma append_applied:
  assumes "log_ok l" and "change_ok c"
  shows "log_append l (applied_event (apply_event p who at key) c) = Inr m \<longleftrightarrow>
    stamp_us at \<noteq> None \<and> not_before l at
    \<and> m = l @ [(applied_event (apply_event p who at key) c)\<lparr>ev_seq := head_seq l + 1\<rparr>]"
  using assms kind_is_action
  by (auto simp: log_append_ok applied_event_def apply_event_def event_ok_def change_ok_def head_seq_def)

lemma not_before_snoc: "not_before (l @ [e]) (ev_at e)"
  by (simp add: not_before_def event_time_def)

lemma not_before_applied:
  "not_before (l @ [(applied_event (apply_event p who at key) c)\<lparr>ev_seq := n\<rparr>]) at"
  by (simp add: not_before_def event_time_def applied_event_def apply_event_def)

lemma log_snoc_applied:
  assumes "log_ok l" and "change_ok c" and "stamp_us at \<noteq> None" and "not_before l at"
  shows "log_ok (l @ [(applied_event (apply_event p who at key) c)\<lparr>ev_seq := head_seq l + 1\<rparr>])"
  using assms log_append_keeps append_applied by blast

lemma apply_loop_Inr:
  assumes "log_ok pending" and "list_all change_ok cs" and "stamp_us at \<noteq> None"
  shows "apply_loop log (apply_event p who at key) at i cs w pending = Inr (t, l) \<longleftrightarrow>
    simulate_all (Some at) cs w = Inr t \<and> (cs = [] \<or> not_before pending at)
    \<and> l = pending @ numbered (head_seq pending) (map (applied_event (apply_event p who at key)) cs)"
  using assms
proof (induction cs arbitrary: i w pending)
  case Nil
  then show ?case by (auto simp: simulate_all_def)
next
  case (Cons c cs)
  let ?ev = "apply_event p who at key"
  let ?n = "pending @ [(applied_event ?ev c)\<lparr>ev_seq := head_seq pending + 1\<rparr>]"
  show ?case
  proof (cases "simulate w c (Some at)")
    case (Inl e)
    then show ?thesis by (simp add: simulate_all_def)
  next
    case (Inr u)
    have "apply_loop log ?ev at i (c # cs) w pending = Inr (t, l) \<longleftrightarrow>
        not_before pending at \<and> apply_loop log ?ev at (Suc i) cs u ?n = Inr (t, l)"
      using Cons.prems append_applied [of pending c p who at key] by (auto simp: Inr bindR_Inr_iff)
    also have "\<dots> \<longleftrightarrow> not_before pending at \<and> simulate_all (Some at) cs u = Inr t
        \<and> l = ?n @ numbered (head_seq ?n) (map (applied_event ?ev) cs)"
      using Cons.IH [of ?n "Suc i" u] Cons.prems log_snoc_applied not_before_applied by auto
    finally show ?thesis by (auto simp: simulate_all_def Inr head_seq_def add.commute)
  qed
qed

lemma authorize_ok: "authorize who p = Inr u \<longleftrightarrow>
    holds who FLEET_APPLY \<and> (pl_destructive p \<longrightarrow> holds who FLEET_ADMIN)"
  by (auto simp: authorize_def bindR_Inr_iff require_ok)

definition plan_ok :: "plan \<Rightarrow> bool" where
  "plan_ok p \<longleftrightarrow> plan_make p = Inr p \<and> list_all change_ok (pl_changes p)"

definition authorized :: "principal \<Rightarrow> plan \<Rightarrow> bool" where
  "authorized who p \<longleftrightarrow> holds who FLEET_APPLY \<and> (pl_destructive p \<longrightarrow> holds who FLEET_ADMIN)"

text \<open>The result of a plan that applies, as the specification states it.\<close>

definition applied_result ::
  "plan \<Rightarrow> principal \<Rightarrow> string \<Rightarrow> string \<Rightarrow> ledger \<Rightarrow> audit_log \<Rightarrow> desired_state \<Rightarrow> apply_result" where
  "applied_result p who at key book log t =
     \<lparr>res_state = t,
      res_audit_log = log @ numbered (head_seq log)
        (map (applied_event (apply_event p who at key)) (pl_changes p)),
      res_ledger = book @ [(key, pl_plan_id p, pl_resulting_revision p)],
      res_plan_id = pl_plan_id p, res_base_revision = pl_base_revision p,
      res_resulting_revision = pl_resulting_revision p, res_replayed = False\<rparr>"

lemma plan_okD:
  assumes "plan_ok p"
  shows "pl_changes p \<noteq> []" and "list_all change_ok (pl_changes p)"
    and "starts_with ''plan:'' (pl_plan_id p)"
    and "pl_resulting_revision p = pl_base_revision p + int (length (pl_changes p))"
  using assms by (simp_all add: plan_ok_def plan_make_ok plan_id_for_def digest_id_def starts_with_def)

lemma execute_Inr:
  assumes inv: "ds_inv s" and log: "log_ok log" and book: "ledger_ok book" and p: "plan_ok p"
    and key: "is_request_id key" "ledger_lookup book key = None" and at: "stamp_us at \<noteq> None"
    and base: "pl_base_revision p = ds_revision s"
  shows "execute s p (apply_event p who at key) at key book log = Inr r \<longleftrightarrow>
    (\<exists>t. simulate_all (Some at) (pl_changes p) s = Inr t \<and> not_before log at
       \<and> r = applied_result p who at key book log t)"
proof -
  note p = plan_okD [OF p]
  have rev: "ds_revision t = pl_resulting_revision p" if "simulate_all (Some at) (pl_changes p) s = Inr t" for t
    using simulate_all_inv [OF that inv] base p by simp
  have "2 \<le> pl_resulting_revision p"
    using inv p base by (cases "pl_changes p") (auto simp: ds_inv_def ds_ok_def)
  then have "entry_ok (key, pl_plan_id p, pl_resulting_revision p)" using key p by (simp add: entry_ok_def)
  then show ?thesis
    using rev p key book apply_loop_Inr [OF log p(2) at]
    by (fastforce simp: execute_def bindR_split_Inr bindR_Inr_iff with_applied_ok applied_result_def)
qed

lemma apply_plan_unfold:
  "apply_plan s p who at key book log = Inr r \<longleftrightarrow>
     is_request_id key \<and> stamp_us at \<noteq> None \<and> authorized who p \<and>
     (case ledger_lookup book key of
        Some (pid, n) \<Rightarrow> pid = pl_plan_id p \<and>
          (\<exists>l. log_append log ((apply_event p who at key)\<lparr>ev_outcome := REPLAYED\<rparr>) = Inr l
             \<and> r = replay_result s p book n l)
      | None \<Rightarrow> pl_base_revision p = ds_revision s \<and>
          execute s p (apply_event p who at key) at key book log = Inr r)"
proof -
  have at: "mapErr q g (instant (PStr at) w) = Inr d \<longleftrightarrow> (\<exists>x. stamp_us at = Some x \<and> d = utc x)" for q g w d
    by (simp add: mapErr_Inr_iff instant_ok)
  have auth: "(case authorize who p of Inl e \<Rightarrow> refused log ev (exn_text e) | Inr x \<Rightarrow> k) = Inr r \<longleftrightarrow>
      authorized who p \<and> k = Inr r" for ev k
    using authorize_ok [of who p] by (cases "authorize who p") (auto simp: authorized_def)
  show ?thesis
    by (auto simp: apply_plan_def bindR_Inr_iff at apply_key_ok Let_def auth split: option.splits)
qed

lemma replayed_event_ok:
  assumes "log_ok log" and "stamp_us at \<noteq> None" and "plan_ok p"
  shows "log_append log ((apply_event p who at key)\<lparr>ev_outcome := REPLAYED\<rparr>) = Inr l \<longleftrightarrow>
    not_before log at \<and>
    l = log @ [(apply_event p who at key)\<lparr>ev_outcome := REPLAYED, ev_seq := head_seq log + 1\<rparr>]"
proof -
  have "pl_plan_id p \<noteq> []" using plan_okD(3) [OF assms(3)] by (auto simp: starts_with_def)
  then show ?thesis
    using assms apply_is_action by (auto simp: log_append_ok apply_event_def event_ok_def head_seq_def)
qed

lemma apply_plan_state:
  assumes "ds_inv s" and "ledger_ok book" and "log_ok log" and "plan_ok p"
    and "apply_plan s p who at key book log = Inr r"
  shows "ledger_lookup (res_ledger r) key = Some (pl_plan_id p, res_resulting_revision r)"
  using assms
  by (auto simp: apply_plan_unfold replay_result_def execute_Inr applied_result_def ledger_lookup_map
      map_of_snoc split: option.splits)

lemma log_ok_numbered:
  assumes "log_ok l" and "list_all change_ok cs" and "stamp_us at \<noteq> None" and "not_before l at"
  shows "log_ok (l @ numbered (head_seq l) (map (applied_event (apply_event p who at key)) cs))"
  using assms
proof (induction cs arbitrary: l)
  case Nil
  then show ?case by simp
next
  case (Cons c cs)
  let ?l = "l @ [(applied_event (apply_event p who at key) c)\<lparr>ev_seq := head_seq l + 1\<rparr>]"
  have "log_ok ?l" using Cons.prems log_snoc_applied by simp
  then have "log_ok (?l @ numbered (head_seq ?l) (map (applied_event (apply_event p who at key)) cs))"
    using Cons.IH [of ?l] Cons.prems not_before_applied by simp
  then show ?case by (simp add: head_seq_def add.commute)
qed

lemma apply_plan_keeps_ledger:
  assumes "ds_inv s" and "ledger_ok book" and "log_ok log" and "plan_ok p"
    and "apply_plan s p who at key book log = Inr r"
  shows "ledger_ok (res_ledger r)"
proof (cases "ledger_lookup book key")
  case None
  then obtain l where "with_applied book key (pl_plan_id p, res_resulting_revision r) = Inr l"
      and "res_ledger r = l"
    using assms by (auto simp: apply_plan_unfold execute_def bindR_split_Inr bindR_Inr_iff)
  then show ?thesis using idempotency.record_keeps assms by blast
next
  case (Some e)
  then show ?thesis using assms by (auto simp: apply_plan_unfold replay_result_def)
qed

section \<open>Properties\<close>

text \<open>
  C1: when a plan applies. For a well-formed state, ledger, log and plan, \<open>apply_plan\<close> returns a
  fresh result exactly when the key is well formed and unused, the principal holds the scopes the
  plan needs, the plan was built against the current revision, the instant parses and does not
  precede the log, and every change is possible at that instant; the result then is the simulated
  state, the log with one entry per change in order, and the ledger with the key bound to the
  plan and the revision it declared. In particular the \<open>produced revision\<close> fault is unreachable.
\<close>

theorem apply_plan_applies:
  assumes "ds_inv s" and "log_ok log" and "ledger_ok book" and "plan_ok p"
  shows "apply_plan s p who at key book log = Inr r \<and> \<not> res_replayed r \<longleftrightarrow>
    is_request_id key \<and> stamp_us at \<noteq> None \<and> not_before log at \<and> authorized who p
    \<and> ledger_lookup book key = None \<and> pl_base_revision p = ds_revision s
    \<and> (\<exists>t. simulate_all (Some at) (pl_changes p) s = Inr t
          \<and> r = applied_result p who at key book log t)"
proof (cases "ledger_lookup book key")
  case None
  then show ?thesis
    using execute_Inr [OF assms] by (auto simp: apply_plan_unfold applied_result_def)
next
  case (Some e)
  then show ?thesis by (auto simp: apply_plan_unfold replay_result_def split: prod.splits)
qed

text \<open>
  C5: whatever \<open>apply_plan\<close> returns keeps the invariants: the state stays valid (capacity never
  exceeded, drained hosts idle, drain records in agreement), the log stays contiguous and does not
  run backwards, the ledger's keys stay unique; the log only grew, and the revision advanced by one
  per change, or not at all for a replay.
\<close>

theorem apply_plan_keeps:
  assumes inv: "ds_inv s" and log: "log_ok log" and book: "ledger_ok book" and p: "plan_ok p"
    and eq: "apply_plan s p who at key book log = Inr r"
  shows "ds_inv (res_state r) \<and> log_ok (res_audit_log r) \<and> ledger_ok (res_ledger r)
    \<and> take (length log) (res_audit_log r) = log
    \<and> ds_revision (res_state r) = ds_revision s + (if res_replayed r then 0 else int (length (pl_changes p)))"
proof (cases "ledger_lookup book key")
  case None
  then obtain t where t: "simulate_all (Some at) (pl_changes p) s = Inr t" and k: "is_request_id key"
    and at: "stamp_us at \<noteq> None" and base: "pl_base_revision p = ds_revision s"
    and r: "r = applied_result p who at key book log t" and ex: "not_before log at"
    using eq execute_Inr [OF inv log book p] by (auto simp: apply_plan_unfold)
  have inv_t: "ds_inv t" "ds_revision t = ds_revision s + int (length (pl_changes p))"
    using simulate_all_inv [OF t inv] by simp_all
  have "2 \<le> ds_revision t"
    using inv inv_t plan_okD(1) [OF p] by (cases "pl_changes p") (auto simp: ds_inv_def ds_ok_def)
  then have "ledger_ok (res_ledger r)"
    using ledger_ok_snoc [OF book None] k plan_okD [OF p] inv_t base
    by (simp add: r applied_result_def entry_ok_def)
  moreover have "log_ok (res_audit_log r)"
    using log plan_okD(2) [OF p] ex at unfolding r applied_result_def
    by (simp add: log_ok_numbered)
  ultimately show ?thesis using inv_t by (simp add: r applied_result_def)
next
  case (Some e)
  then obtain n l where "log_append log ((apply_event p who at key)\<lparr>ev_outcome := REPLAYED\<rparr>) = Inr l"
    and r: "r = replay_result s p book n l"
    using eq by (auto simp: apply_plan_unfold split: prod.splits)
  moreover from this obtain x where "l = log @ [x]" and "log_ok l" using log_append_keeps [OF _ log] by blast
  ultimately show ?thesis using inv book by (simp add: replay_result_def)
qed

text \<open>
  C6: a refusal is on the record. When \<open>apply_plan\<close> refuses, the log it carries is the given log
  with exactly one entry more, outcome \<open>refused\<close>, that names the principal the decision was made
  about, the plan, the key and the reason.
\<close>

theorem apply_refusal_recorded:
  assumes log: "log_ok log" and eq: "apply_plan s p who at key book log = Inl (ApplyRefused m l)"
  shows "log_ok l \<and> l = log @ [(apply_event p who at key)
    \<lparr>ev_outcome := REFUSED, ev_reason := Some m, ev_seq := head_seq log + 1\<rparr>]"
proof -
  have "apply_loop log ev at i cs w pend = Inl (ApplyRefused m l) \<Longrightarrow> refused log ev m = Inl (ApplyRefused m l)"
    for ev i cs w pend
    by (induction cs arbitrary: i w pend)
      (auto simp: bindR_Inl_iff failing_refused refused_def split: sum.splits if_splits)
  then have "refused log (apply_event p who at key) m = (Inl (ApplyRefused m l) :: unit apply_res)"
    using eq
    by (auto simp: apply_plan_def execute_def bindR_Inl_iff failing_refused Let_def refused_def
        split: sum.splits option.splits if_splits prod.splits)
  then have "log_append log ((apply_event p who at key)\<lparr>ev_outcome := REFUSED, ev_reason := Some m\<rparr>) = Inr l"
    by (auto simp: refused_def bindR_Inl_iff failing_refused)
  then show ?thesis using log_append_keeps [OF _ log] log by (auto simp: log_append_ok)
qed

text \<open>
  C2: a key covers its plan for good. Once a call with a key has returned, and however the ledger
  has been appended to since, sending the key again returns exactly when it is for the same plan,
  by an authorized principal, at an instant the log can take; it returns the revision recorded the
  first time, as a replay: state and ledger are left alone and the log gains one \<open>replayed\<close> entry.
\<close>

theorem apply_plan_idempotent:
  assumes ok: "ds_inv s" "ledger_ok book" "log_ok log" "plan_ok p"
    and first: "apply_plan s p who at key book log = Inr r"
    and later: "idempotency.record_step\<^sup>*\<^sup>* (res_ledger r) book2"
    and then_ok: "log_ok log2" "plan_ok q"
  shows "apply_plan s2 q who2 at2 key book2 log2 = Inr r2 \<longleftrightarrow>
    pl_plan_id q = pl_plan_id p \<and> authorized who2 q \<and> stamp_us at2 \<noteq> None \<and> not_before log2 at2
    \<and> r2 = replay_result s2 q book2 (res_resulting_revision r)
        (log2 @ [(apply_event q who2 at2 key)\<lparr>ev_outcome := REPLAYED, ev_seq := head_seq log2 + 1\<rparr>])"
proof -
  have "ledger_ok (res_ledger r)" using apply_plan_keeps_ledger [OF ok first] .
  then have "ledger_lookup book2 key = Some (pl_plan_id p, res_resulting_revision r)"
    using idempotency.binding_persists [OF later] apply_plan_state [OF ok first] by simp
  moreover have "is_request_id key" using first by (simp add: apply_plan_unfold)
  ultimately show ?thesis using replayed_event_ok [OF then_ok(1) _ then_ok(2)]
    by (auto simp: apply_plan_unfold)
qed

end
