(* ===== verification/Fleet_Example.thy ===== *)
theory Fleet_Example
  imports Fleet_Apply
begin

text \<open>
  A small concrete fleet, two hosts and one pool, on which the properties of the other theories
  are instantiated, and the instances themselves.
\<close>

definition hex_a :: string where
  "hex_a = ''sha256:aaaaaaaaaaaaaaaaaaaaaaaaaaaaaaaaaaaaaaaaaaaaaaaaaaaaaaaaaaaaaaaa''"

definition hex_b :: string where
  "hex_b = ''sha256:bbbbbbbbbbbbbbbbbbbbbbbbbbbbbbbbbbbbbbbbbbbbbbbbbbbbbbbbbbbbbbbb''"

definition demo_pool :: pool where
  "demo_pool =
     \<lparr>p_pool_id = ''p1'', p_revision = 1, p_trust_class = PRIVATE,
      p_required_labels = [(''os'', ''linux'')], p_runtime = PODMAN, p_image_digest = hex_a,
      p_architectures = [''x64''], p_warm_min = 0, p_warm_max = 1, p_scale_ceiling = 2,
      p_idle_timeout_seconds = 60, p_job_timeout_seconds = 60, p_cleanup_timeout_seconds = 60,
      p_network_profile = ''net'', p_filesystem_profile = ''fs'', p_secret_profile = ''none'',
      p_update_channel = ''stable'', p_rollback_image_digest = hex_b,
      p_maintenance_window = ''sun'', p_disruption_budget = \<lparr>max_parallel = 1\<rparr>,
      p_owner = ''ops'', p_escalation = ''ops'', p_allowed_repositories = [''o/r''],
      p_runner_group = None\<rparr>"

definition demo_host :: "string \<Rightarrow> int \<Rightarrow> host" where
  "demo_host hid slots =
     \<lparr>h_host_id = hid, h_architectures = [''x64''], h_runtimes = [PODMAN], h_labels = [],
      h_allowed_pools = [''p1''], h_slots = slots, h_state = H_ACTIVE\<rparr>"

definition demo_state :: desired_state where
  "demo_state =
     \<lparr>ds_revision = 1, ds_repositories = [], ds_pools = [demo_pool],
      ds_hosts = [demo_host ''h1'' 1, demo_host ''h2'' 2], ds_assignments = [], ds_drains = [],
      ds_rollouts = []\<rparr>"

text \<open>Instants, by their microseconds.\<close>

definition stamp :: "int \<Rightarrow> string" where
  "stamp n = isoformat_utc (utc n)"

definition noon :: int where
  "noon = 63000000000000000"

definition operator :: principal where
  "operator = \<lparr>principal_id = ''root'', pr_kind = OPERATOR, pr_scopes = {FLEET_ADMIN}\<rparr>"

definition assign_a1 :: change where
  "assign_a1 = \<lparr>ch_kind = ASSIGN, ch_subject = ''a1'',
     ch_parameters = [(''assignment_id'', ''a1''), (''request_id'', ''r1''), (''pool_id'', ''p1''),
                      (''host_id'', ''h1'')]\<rparr>"

definition drain_h2 :: change where
  "drain_h2 = \<lparr>ch_kind = DRAIN, ch_subject = ''h2'', ch_parameters = [(''reason'', ''patch'')]\<rparr>"

definition demo_plan :: plan where
  "demo_plan =
     \<lparr>pl_plan_id = plan_id_for 1 [assign_a1, drain_h2], pl_base_revision = 1,
      pl_changes = [assign_a1, drain_h2], pl_impacts = [], pl_resulting_revision = 3\<rparr>"

lemmas char_simps = dollar_def identifier_body_def id_char_def is_lower_def is_upper_def is_digit_def
  is_alnum_def code_def is_hex_def newline_def

lemma demo_ids [simp]:
  "is_identifier ''p1''" "is_identifier ''h1''" "is_identifier ''h2''" "is_identifier ''os''"
  "is_identifier ''x64''" "is_identifier ''net''" "is_identifier ''fs''" "is_identifier ''none''"
  "is_identifier ''a1''"
  by (simp_all add: is_identifier_def char_simps)

lemma demo_request_ids [simp]: "is_request_id ''r1''" "is_request_id ''k1''"
  by (simp_all add: is_request_id_def char_simps request_body_def request_char_def)

lemma demo_texts [simp]: "is_free_text ''sun''" "is_free_text ''ops''" "is_free_text ''patch''"
  "is_repository ''o/r''"
  by (simp_all add: is_free_text_def free_text_body_def text_char_def is_repository_def
      repository_body_def repo_char_def char_simps)

lemma demo_digests [simp]: "is_digest hex_a" "is_digest hex_b" "hex_a \<noteq> hex_b" "hex_b \<noteq> hex_a"
  by (simp_all add: is_digest_def digest_body_def starts_with_def hex_a_def hex_b_def char_simps)

lemma demo_pool_ok: "pool_ok demo_pool"
  by (simp add: pool_ok_def demo_pool_def update_channels_def)

lemma demo_inv: "ds_inv demo_state"
  by (simp add: ds_inv_def ds_ok_def demo_state_def keys_ok_def refs_ok_def demo_pool_ok demo_host_def
      host_ok_def within_slots_def in_use_of_def drained_idle_def drains_agree_def open_drains_def
      expected_drains_def)

lemma noon_in_calendar: "in_calendar noon"
  by (simp add: in_calendar_def max_us_def noon_def max_ordinal_def day_us_def second_us_def)

lemma stamp_noon [simp]: "stamp_us (stamp noon) = Some noon"
  by (simp add: stamp_def stamp_us_isoformat noon_in_calendar)

lemma demo_plan_ok: "plan_ok demo_plan"
  by (simp add: plan_ok_def plan_make_ok demo_plan_def change_ok_def assign_a1_def drain_h2_def)

lemma demo_simps [simp]: "pl_changes demo_plan = [assign_a1, drain_h2]" "pl_base_revision demo_plan = 1"
  "ds_revision demo_state = 1"
  by (simp_all add: demo_plan_def demo_state_def)

lemma demo_authorized: "authorized operator demo_plan"
  by (simp add: authorized_def holds_def operator_def)

definition state1 :: desired_state where
  "state1 = next_rev (demo_state\<lparr>ds_assignments := [new_assignment ''a1'' ''r1'' ''p1'' ''h1'' (stamp noon)]\<rparr>)"

definition state2 :: desired_state where
  "state2 = next_rev (state1\<lparr>ds_hosts := host_in ''h2'' H_DRAINING (ds_hosts state1),
     ds_drains := [new_drain ''h2'' ''patch'' (stamp noon)]\<rparr>)"

lemma demo_assign: "with_assignment demo_state ''a1'' ''r1'' ''p1'' ''h1'' (stamp noon) = Inr state1"
  by (simp add: assignment_granted [OF demo_inv])
    (simp add: placeable_def demo_state_def demo_pool_def demo_host_def in_use_of_def state1_def)

lemma demo_drain: "with_drain state1 ''h2'' ''patch'' (stamp noon) = Inr state2"
proof -
  have "host_ok (demo_host i n)" if "is_identifier i" "1 \<le> n" for i n
    using that by (simp add: host_ok_def demo_host_def)
  moreover have "drain_ok (new_drain ''h2'' ''patch'' (stamp noon))" by (simp add: drain_ok_def new_drain_def)
  ultimately show ?thesis
    by (auto simp: with_drain_def step_eqs ds_host_def state1_def state2_def demo_state_def
        next_rev_def keys_ok_def refs_ok_def host_in_def demo_host_def new_drain_def new_assignment_def demo_pool_def)
qed

lemma demo_simulation: "simulate_all (Some (stamp noon)) [assign_a1, drain_h2] demo_state = Inr state2"
  by (simp add: simulate_all_def simulate_def simulate_at_def assign_a1_def drain_h2_def parameter_def
      demo_assign demo_drain)

lemma demo_log_ok: "log_ok []"
  by (simp add: log_ok_def)

lemma demo_ledger_ok: "ledger_ok []"
  by (simp add: ledger_ok_def)

lemmas demo_ok = demo_inv demo_log_ok demo_ledger_ok demo_plan_ok

section \<open>Instances of the model's properties\<close>

theorem timestamp_normal_form_witness:
  "timestamp (PStr (stamp noon)) ''x'' = Inr (stamp noon)
   \<and> instant (PStr (stamp noon)) ''x'' = instant (PStr (stamp noon)) ''x''"
proof -
  have "timestamp (PStr (stamp noon)) ''w'' = Inr (stamp noon)"
    using stamp_noon by (simp add: timestamp_ok) (simp add: stamp_def)
  from timestamp_normal_form [OF this, of "''x''"] show ?thesis .
qed

theorem with_assignment_iff_witness:
  "placeable demo_state ''p1'' ''h1'' \<and> \<not> placeable state1 ''p1'' ''h1''
   \<and> (\<exists>t. with_assignment demo_state ''a1'' ''r1'' ''p1'' ''h1'' (stamp noon) = Inr t)"
proof -
  have "placeable demo_state ''p1'' ''h1''"
    using with_assignment_iff [OF demo_inv] demo_assign by blast
  moreover have "\<not> placeable state1 ''p1'' ''h1''"
    by (auto simp: placeable_def state1_def demo_state_def demo_host_def in_use_of_def a_state_def
        new_assignment_def)
  ultimately show ?thesis using demo_assign by blast
qed

lemma state2_inv: "ds_inv state2"
  using with_drain_inv [OF _ demo_drain] with_assignment_inv [OF demo_inv demo_assign] by blast

theorem with_drain_complete_iff_witness:
  "\<exists>t. with_drain_complete state2 ''h2'' (stamp noon) = Inr t
     \<and> map h_state (ds_hosts t) = [H_ACTIVE, H_DRAINED]"
proof -
  have "\<exists>h \<in> set (ds_hosts state2). h_host_id h = ''h2'' \<and> h_state h = H_DRAINING"
    by (simp add: state2_def state1_def demo_state_def demo_host_def host_in_def)
  moreover have "in_use_of state2 ''h2'' = 0"
    by (simp add: in_use_of_def state2_def state1_def demo_state_def new_assignment_def)
  ultimately have "with_drain_complete state2 ''h2'' (stamp noon) =
      Inr (next_rev (state2\<lparr>ds_hosts := host_in ''h2'' H_DRAINED (ds_hosts state2),
        ds_drains := drained_in ''h2'' (stamp noon) (ds_drains state2)\<rparr>))"
    using with_drain_complete_iff [OF state2_inv] by blast
  then show ?thesis
    by (simp add: state2_def state1_def demo_state_def demo_host_def host_in_def)
qed

theorem reachable_states_valid_witness:
  "(ds_step ^^ 2) demo_state state2 \<and> ds_ok state2 \<and> ds_revision state2 = 3"
proof -
  have "ds_step demo_state state1" "ds_step state1 state2"
    using demo_assign demo_drain by (auto intro: ds_step.intros)
  then have "(ds_step ^^ 2) demo_state state2" by (auto simp: numeral_2_eq_2)
  then show ?thesis using reachable_states_valid [OF _ demo_inv] by (simp add: demo_state_def)
qed

section \<open>Instances of the plan's properties\<close>

lemma state1_inv: "ds_inv state1"
  using with_assignment_inv [OF demo_inv demo_assign] by simp

lemma state1_clock: "plan_clock state1 = Inr (stamp noon)"
  by (simp add: plan_clock_def state_timestamps_def state1_def demo_state_def new_assignment_def
      present_def mapR_def instant_Some) (simp add: stamp_def)

lemma drain_possible: "simulate_all None [drain_h2] state1 = Inr state2"
  by (simp add: simulate_all_def simulate_def state1_clock simulate_at_def drain_h2_def parameter_def
      demo_drain)

theorem build_plan_describes_witness:
  "\<exists>p. build_plan state1 [drain_h2] = Inr p \<and> pl_resulting_revision p = 3
     \<and> pl_plan_id p = plan_id_for 2 [drain_h2]"
proof -
  obtain p where p: "build_plan state1 [drain_h2] = Inr p"
    using build_plan_total [OF _ drain_possible] by auto
  have "ds_revision state1 = 2" by (simp add: state1_def demo_state_def)
  with build_plan_describes [OF state1_inv p] p drain_possible show ?thesis
    by (auto simp: state2_def)
qed

section \<open>Instances of apply's properties\<close>

lemma demo_apply: "apply_plan demo_state demo_plan operator (stamp noon) ''k1'' [] [] =
    Inr (applied_result demo_plan operator (stamp noon) ''k1'' [] [] state2)"
proof -
  have "execute demo_state demo_plan (apply_event demo_plan operator (stamp noon) ''k1'') (stamp noon)
      ''k1'' [] [] = Inr (applied_result demo_plan operator (stamp noon) ''k1'' [] [] state2)"
    by (subst execute_Inr) (auto simp: demo_ok not_before_def ledger_lookup_def demo_simulation)
  then show ?thesis by (simp add: apply_plan_unfold demo_authorized ledger_lookup_def)
qed

theorem apply_plan_applies_witness:
  "\<exists>t. simulate_all (Some (stamp noon)) (pl_changes demo_plan) demo_state = Inr t
     \<and> authorized operator demo_plan \<and> ds_revision t = 3"
proof -
  have "\<not> res_replayed (applied_result demo_plan operator (stamp noon) ''k1'' [] [] state2)"
    by (simp add: applied_result_def)
  with demo_apply obtain t where
    "simulate_all (Some (stamp noon)) (pl_changes demo_plan) demo_state = Inr t"
    and "authorized operator demo_plan"
    using apply_plan_applies [OF demo_ok] by blast
  then show ?thesis using demo_simulation by (auto simp: state2_def state1_def)
qed

theorem apply_plan_keeps_witness:
  "\<exists>r. apply_plan demo_state demo_plan operator (stamp noon) ''k1'' [] [] = Inr r
     \<and> ds_inv (res_state r) \<and> ds_revision (res_state r) = 3"
  using apply_plan_keeps [OF demo_ok demo_apply] demo_apply
  by (auto simp: applied_result_def)

definition reader :: principal where
  "reader = \<lparr>principal_id = ''eve'', pr_kind = SERVICE, pr_scopes = {FLEET_PLAN}\<rparr>"

lemma reader_refused:
  "\<exists>m l. apply_plan demo_state demo_plan reader (stamp noon) ''k1'' [] [] = Inl (ApplyRefused m l)"
proof -
  have auth: "authorize reader demo_plan = Inl (Exn AuthorizationError
      ''authorization refused: fleet.apply is required (principal eve holds fleet.plan)'')"
    by (simp add: authorize_def require_def holds_def reader_def held_text_def raise_def)
  have quiet: "\<not> secret_shaped ''authorization refused: fleet.apply is required (principal eve holds fleet.plan)''"
    by (rule secret_marks) (simp add: to_lower_def is_upper_def code_def)
  have "pl_plan_id demo_plan \<noteq> []"
    using plan_okD(3) [OF demo_plan_ok] by (auto simp: starts_with_def)
  then obtain l where "log_append [] ((apply_event demo_plan reader (stamp noon) ''k1'')
      \<lparr>ev_outcome := REFUSED, ev_reason := Some ''authorization refused: fleet.apply is required (principal eve holds fleet.plan)''\<rparr>) = Inr l"
    using quiet apply_is_action
    by (simp add: log_append_ok [OF demo_log_ok] apply_event_def event_ok_def head_seq_def not_before_def)
  then show ?thesis
    by (simp add: apply_plan_def apply_key_def instant_Some auth Let_def refused_def)
qed

theorem apply_refusal_recorded_witness:
  "\<exists>m l. apply_plan demo_state demo_plan reader (stamp noon) ''k1'' [] [] = Inl (ApplyRefused m l)
     \<and> map ev_outcome l = [REFUSED] \<and> map ev_actor l = [reader]"
  using reader_refused apply_refusal_recorded [OF demo_log_ok] by (force simp: apply_event_def)

theorem apply_plan_idempotent_witness:
  "apply_plan state2 demo_plan operator (stamp noon) ''k1''
     (res_ledger (applied_result demo_plan operator (stamp noon) ''k1'' [] [] state2)) [] =
   Inr (replay_result state2 demo_plan
     (res_ledger (applied_result demo_plan operator (stamp noon) ''k1'' [] [] state2)) 3
     [(apply_event demo_plan operator (stamp noon) ''k1'')\<lparr>ev_outcome := REPLAYED, ev_seq := 1\<rparr>])"
  by (subst apply_plan_idempotent [OF demo_inv demo_ledger_ok demo_log_ok demo_plan_ok demo_apply
        rtranclp.rtrancl_refl demo_log_ok demo_plan_ok])
    (simp add: demo_authorized not_before_def head_seq_def, simp add: applied_result_def demo_plan_def)

end
