(* ===== verification/Fleet_Adapters.thy ===== *)
theory Fleet_Adapters
  imports Fleet_Audit
begin

text \<open>
  The adapter contract, \<open>fleet_manager/adapters.py\<close>: typed adapter errors, the contract check by
  signature, pinned image digests and warm stock. A candidate adapter is what \<open>getattr\<close>, \<open>callable\<close> and \<open>inspect.signature\<close> show of it.
\<close>

section \<open>Typed errors\<close>

definition contract_error :: "string \<Rightarrow> 'a res" where
  "contract_error m = raise AdapterContractError m"

fun error_kind_value :: "error_kind \<Rightarrow> string" where
  "error_kind_value INVALID_DESIRED_STATE = ''invalid_desired_state''"
| "error_kind_value UNAVAILABLE_HOST = ''unavailable_host''"
| "error_kind_value REGISTRATION_FAILURE = ''registration_failure''"
| "error_kind_value RUNTIME_FAILURE = ''runtime_failure''"
| "error_kind_value CLEANUP_FAILURE = ''cleanup_failure''"
| "error_kind_value CAPACITY_EXHAUSTION = ''capacity_exhaustion''"
| "error_kind_value POLICY_DENIAL = ''policy_denial''"
| "error_kind_value UNKNOWN_STATE = ''unknown_state''"

definition max_detail :: nat where
  "max_detail = 512"

text \<open>
  \<open>AdapterError(kind, detail)\<close>: the exception that is raised, which is a contract error when the
  detail is too long or looks like a credential.
\<close>

definition adapter_exn :: "error_kind \<Rightarrow> string \<Rightarrow> exn" where
  "adapter_exn k detail =
     (if length detail > max_detail
      then Exn AdapterContractError (''adapter_error.detail: at most '' @ nat_str max_detail @ '' characters'')
      else if detail \<noteq> [] \<and> secret_shaped detail
      then Exn AdapterContractError (''adapter_error.detail: looks like it carries a credential; the ''
             @ ''value is withheld, not echoed'')
      else Exn (AdapterError k) (error_kind_value k @ (if detail = [] then [] else '': '' @ detail)))"

definition adapter_error :: "error_kind \<Rightarrow> string \<Rightarrow> 'a res" where
  "adapter_error k detail = Inl (adapter_exn k detail)"

fun exc_name :: "exc_class \<Rightarrow> string" where
  "exc_name ModelError = ''ModelError''"
| "exc_name PlanError = ''PlanError''"
| "exc_name AuditError = ''AuditError''"
| "exc_name AuthorizationError = ''AuthorizationError''"
| "exc_name ApplyError = ''ApplyError''"
| "exc_name ObservationError = ''ObservationError''"
| "exc_name ReconcileError = ''ReconcileError''"
| "exc_name ChannelError = ''ChannelError''"
| "exc_name OperationRefused = ''OperationRefused''"
| "exc_name StateError = ''StateError''"
| "exc_name AdapterContractError = ''AdapterContractError''"
| "exc_name ContractError = ''ContractError''"
| "exc_name PyValueError = ''ValueError''"
| "exc_name PyTypeError = ''TypeError''"
| "exc_name PyKeyError = ''KeyError''"
| "exc_name PyOverflowError = ''OverflowError''"
| "exc_name PyAttributeError = ''AttributeError''"
| "exc_name (AdapterError k) = ''AdapterError''"

definition classify :: "exn \<Rightarrow> exn" where
  "classify e =
     (case exn_class e of
        AdapterError k \<Rightarrow> e
      | c \<Rightarrow> adapter_exn RUNTIME_FAILURE (exc_name c))"

section \<open>The contract\<close>

definition adapter_calls :: "string list" where
  "adapter_calls =
     [''discover_capabilities'', ''validate_host'', ''ensure_image'', ''create_runner'',
      ''observe_runner'', ''mark_drain'', ''cancel_or_timeout'', ''destroy_runner'',
      ''prove_cleanup'', ''report_receipts'', ''rollback_configuration'']"

definition mutating_calls :: "string list" where
  "mutating_calls =
     [''ensure_image'', ''create_runner'', ''mark_drain'', ''cancel_or_timeout'',
      ''destroy_runner'', ''rollback_configuration'']"

definition required_parameters :: "(string \<times> string) list" where
  "required_parameters =
     [(''ensure_image'', ''digest''), (''create_runner'', ''registration_ref''),
      (''cancel_or_timeout'', ''policy''), (''prove_cleanup'', ''instance_id'')]"

definition material_shaped :: "string list" where
  "material_shaped =
     [''credential'', ''credentials'', ''password'', ''registration_token'', ''secret'', ''token'']"

text \<open>
  A member of a candidate: absent or \<open>None\<close>, a value that is not callable with its type name, or a
  callable with the names of its parameters, or with the type of the exception
  \<open>inspect.signature\<close> raises.
\<close>

datatype member_shape = Absent | NotCallable string | Callable "string + string list"

record candidate =
  cand_runtime :: "runtime + string"
  cand_member :: "string \<Rightarrow> member_shape"

definition required_of :: "string \<Rightarrow> string list" where
  "required_of name =
     (if name \<in> set mutating_calls then [''operation_key''] else [])
     @ (case map_of required_parameters name of None \<Rightarrow> [] | Some p \<Rightarrow> [p])"

definition signature_problems :: "string \<Rightarrow> string list \<Rightarrow> string list" where
  "signature_problems name ps =
     map (\<lambda>wanted. name @ '': no parameter named '' @ py_repr wanted)
       (filter (\<lambda>wanted. wanted \<notin> set ps) (required_of name))
     @ (if name = ''create_runner''
        then map (\<lambda>s. ''create_runner: parameter '' @ py_repr s @ '' asks for registration material; ''
                    @ ''the contract carries registration_ref'')
               (sorted_list_of_set (set ps \<inter> set material_shaped))
        else [])"

text \<open>The loop over the calls: missing, not callable, wrong signature.\<close>

fun contract_loop ::
  "candidate \<Rightarrow> string list \<Rightarrow> string list \<times> string list \<times> string list
   \<Rightarrow> (string list \<times> string list \<times> string list) res" where
  "contract_loop c [] acc = Inr acc"
| "contract_loop c (name # names) (missing, notcall, wrong) =
     (case cand_member c name of
        Absent \<Rightarrow> contract_loop c names (missing @ [name], notcall, wrong)
      | NotCallable t \<Rightarrow> contract_loop c names (missing, notcall @ [name @ '' ('' @ t @ '')''], wrong)
      | Callable (Inl t) \<Rightarrow> contract_error (''adapter: signature cannot be inspected ('' @ t @ '')'')
      | Callable (Inr ps) \<Rightarrow> contract_loop c names (missing, notcall, wrong @ signature_problems name ps))"

definition contract_problems :: "string list \<Rightarrow> string list \<Rightarrow> string list \<Rightarrow> string list" where
  "contract_problems missing notcall wrong =
     (if missing = [] then [] else [''missing: '' @ join '', '' missing])
     @ (if notcall = [] then [] else [''not callable: '' @ join '', '' notcall])
     @ (if wrong = [] then [] else [join ''; '' wrong])"

record adapter_contract =
  ac_runtime :: runtime
  ac_calls :: "string list"

definition check_contract :: "candidate option \<Rightarrow> runtime \<Rightarrow> adapter_contract res" where
  "check_contract cand rt =
     (case cand of
        None \<Rightarrow> contract_error ''adapter: must be an object, not None''
      | Some c \<Rightarrow>
          (case cand_runtime c of
             Inr t \<Rightarrow> contract_error (''adapter.runtime: must be a Runtime declared on the adapter, not '' @ t)
           | Inl declared \<Rightarrow>
               if declared \<noteq> rt
               then contract_error (''adapter: serves '' @ py_repr (runtime_value declared)
                      @ '' but the pool requires '' @ py_repr (runtime_value rt))
               else bindR (contract_loop c adapter_calls ([], [], [])) (\<lambda>(missing, notcall, wrong).
                      if missing \<noteq> [] \<or> notcall \<noteq> [] \<or> wrong \<noteq> []
                      then contract_error (''adapter: does not satisfy the '' @ runtime_value rt
                             @ '' contract -- '' @ join '' | '' (contract_problems missing notcall wrong))
                      else Inr \<lparr>ac_runtime = rt, ac_calls = adapter_calls\<rparr>)))"

section \<open>Pinned images\<close>

definition runner_image_repository :: string where
  "runner_image_repository = ''ghcr.io/actions/actions-runner''"

definition identifier_checked :: "pyval \<Rightarrow> string \<Rightarrow> string res" where
  "identifier_checked v w =
     mapErr (of_class ModelError) (\<lambda>e. Exn AdapterContractError (exn_text e)) (identifier_of v w)"

definition adapter_digest :: "pyval \<Rightarrow> string \<Rightarrow> string res" where
  "adapter_digest v w =
     (let shape = contract_error (w @ '': must be sha256:<64 lowercase hex>'') in
      case v of
        PStr s \<Rightarrow>
          if s = [] then shape
          else if CHR 0x40 \<in> set s
          then contract_error (w @ '': must be the bare digest, not a reference -- the repository is added by image_reference()'')
          else if \<not> starts_with ''sha256:'' s
          then contract_error (w @ '': '' @ py_repr s @ '' is a tag, and a tag is mutable -- it cannot pin an image; use sha256:<64 lowercase hex>'')
          else if length s \<noteq> 71 then shape
          else if list_ex (\<lambda>c. \<not> is_hex c) (drop 7 s) then shape
          else Inr s
      | _ \<Rightarrow> shape)"

definition image_reference :: "pyval \<Rightarrow> string res" where
  "image_reference v =
     bindR (adapter_digest v ''image.digest'') (\<lambda>d. Inr (runner_image_repository @ [CHR 0x40] @ d))"

section \<open>Warm stock\<close>

datatype instance_state = I_PREPULLED | I_STOPPED_CLEAN | I_RUNNING | I_USED | I_QUARANTINED

fun instance_state_value :: "instance_state \<Rightarrow> string" where
  "instance_state_value I_PREPULLED = ''prepulled''"
| "instance_state_value I_STOPPED_CLEAN = ''stopped_clean''"
| "instance_state_value I_RUNNING = ''running''"
| "instance_state_value I_USED = ''used''"
| "instance_state_value I_QUARANTINED = ''quarantined''"

definition warm_states :: "instance_state set" where
  "warm_states = {I_PREPULLED, I_STOPPED_CLEAN}"

record warm_instance =
  wi_instance_id :: string
  wi_pool_id :: string
  wi_image_digest :: string
  wi_state :: instance_state

definition warm_instance_make ::
  "pyval \<Rightarrow> pyval \<Rightarrow> pyval \<Rightarrow> instance_state \<Rightarrow> warm_instance res" where
  "warm_instance_make iid pid img st =
     bindR (identifier_checked iid ''warm_instance.instance_id'') (\<lambda>i.
     bindR (identifier_checked pid ''warm_instance.pool_id'') (\<lambda>p.
     bindR (adapter_digest img ''warm_instance.image_digest'') (\<lambda>d.
       Inr \<lparr>wi_instance_id = i, wi_pool_id = p, wi_image_digest = d, wi_state = st\<rparr>)))"

definition is_warm :: "warm_instance \<Rightarrow> bool" where
  "is_warm i \<longleftrightarrow> wi_state i \<in> warm_states"

record warm_pool =
  wp_pool :: pool
  wp_instances :: "warm_instance list"

fun check_instances :: "pool \<Rightarrow> string list \<Rightarrow> warm_instance list \<Rightarrow> unit res" where
  "check_instances p seen [] = Inr ()"
| "check_instances p seen (i # is) =
     (let w = ''warm_pool.instances['' @ wi_instance_id i @ '']'' in
      if wi_instance_id i \<in> set seen
      then contract_error (''warm_pool.instances: duplicate instance id '' @ py_repr (wi_instance_id i))
      else if wi_pool_id i \<noteq> p_pool_id p
      then contract_error (w @ '': belongs to pool '' @ py_repr (wi_pool_id i) @ '', not ''
             @ py_repr (p_pool_id p))
      else if wi_image_digest i \<noteq> p_image_digest p
      then contract_error (w @ '': image '' @ wi_image_digest i @ '' is not this pool''
             @ [CHR 0x27] @ ''s pinned '' @ p_image_digest p)
      else if \<not> is_warm i
      then contract_error (w @ '': state '' @ py_repr (instance_state_value (wi_state i))
             @ '' is not warm stock -- a container that has run a job is never handed to the next one (RUN-001)'')
      else check_instances p (wi_instance_id i # seen) is)"

definition warm_pool_make :: "pool \<Rightarrow> warm_instance list \<Rightarrow> warm_pool res" where
  "warm_pool_make p is =
     bindR (check_instances p [] is) (\<lambda>_.
       if int (length is) > p_warm_max p
       then contract_error (''warm_pool: '' @ nat_str (length is) @ '' instance(s) exceeds warm_max ''
              @ int_str (p_warm_max p) @ '' of pool '' @ py_repr (p_pool_id p) @ '' (capacity exhaustion)'')
       else Inr \<lparr>wp_pool = p, wp_instances = is\<rparr>)"

definition warm_count :: "warm_pool \<Rightarrow> int" where
  "warm_count w = int (length (wp_instances w))"

definition wp_shortfall :: "warm_pool \<Rightarrow> int" where
  "wp_shortfall w = max 0 (p_warm_min (wp_pool w) - warm_count w)"

definition at_floor :: "warm_pool \<Rightarrow> bool" where
  "at_floor w \<longleftrightarrow> wp_shortfall w = 0"

definition admit :: "warm_pool \<Rightarrow> warm_instance \<Rightarrow> warm_pool res" where
  "admit w i = warm_pool_make (wp_pool w) (wp_instances w @ [i])"

definition retire :: "warm_pool \<Rightarrow> string \<Rightarrow> warm_pool res" where
  "retire w iid =
     (let kept = filter (\<lambda>i. wi_instance_id i \<noteq> iid) (wp_instances w) in
      if length kept = length (wp_instances w)
      then contract_error (''warm_pool.retire: no instance '' @ py_repr iid @ '' in pool ''
             @ py_repr (p_pool_id (wp_pool w)))
      else warm_pool_make (wp_pool w) kept)"

section \<open>What the values guarantee\<close>

definition pinned :: "string \<Rightarrow> bool" where
  "pinned s \<longleftrightarrow> starts_with ''sha256:'' s \<and> length s = 71 \<and> list_all is_hex (drop 7 s)"

definition warm_pool_ok :: "warm_pool \<Rightarrow> bool" where
  "warm_pool_ok w \<longleftrightarrow>
     distinct (map wi_instance_id (wp_instances w))
     \<and> list_all (\<lambda>i. wi_pool_id i = p_pool_id (wp_pool w) \<and> wi_image_digest i = p_image_digest (wp_pool w)
           \<and> is_warm i) (wp_instances w)
     \<and> int (length (wp_instances w)) \<le> p_warm_max (wp_pool w)"

lemma contract_error_Inr [simp]: "contract_error m \<noteq> Inr a" "Inr a \<noteq> contract_error m"
  by (simp_all add: contract_error_def)

lemma adapter_error_Inr [simp]: "adapter_error k m \<noteq> Inr a" "Inr a \<noteq> adapter_error k m"
  by (simp_all add: adapter_error_def)

lemma bindR_adapter_errors [simp]: "bindR (contract_error m) f = contract_error m"
  "bindR (adapter_error k m) f = adapter_error k m"
  by (simp_all add: contract_error_def adapter_error_def)

lemma identifier_checked_ok [value_ok]: "identifier_checked v w = Inr s \<longleftrightarrow> v = PStr s \<and> is_identifier s"
  by (simp add: identifier_checked_def mapErr_Inr_iff scalar_ok)

lemma list_ex_not: "list_ex (\<lambda>c. \<not> p c) xs \<longleftrightarrow> \<not> list_all p xs"
  by (induction xs) auto

lemma pinned_no_at:
  assumes "pinned s"
  shows "CHR 0x40 \<notin> set s"
proof -
  have "length ''sha256:'' = 7" by simp
  then have "take 7 s = ''sha256:''" using assms unfolding pinned_def starts_with_def by metis
  then have "CHR 0x40 \<notin> set (take 7 s)" by simp
  moreover have "CHR 0x40 \<notin> set (drop 7 s)"
    using assms by (auto simp: pinned_def list_all_iff is_hex_def is_digit_def code_def)
  ultimately show ?thesis by (metis UnE append_take_drop_id set_append)
qed

lemma adapter_digest_ok [value_ok]: "adapter_digest v w = Inr s \<longleftrightarrow> v = PStr s \<and> pinned s"
  using pinned_no_at
  by (cases v) (auto simp: adapter_digest_def Let_def pinned_def list_ex_not)

lemma warm_instance_make_ok: "warm_instance_make i p d st = Inr x \<longleftrightarrow>
    i = PStr (wi_instance_id x) \<and> p = PStr (wi_pool_id x) \<and> d = PStr (wi_image_digest x) \<and> st = wi_state x
    \<and> is_identifier (wi_instance_id x) \<and> is_identifier (wi_pool_id x) \<and> pinned (wi_image_digest x)"
  by (cases x) (auto simp: warm_instance_make_def bindR_Inr_iff identifier_checked_ok adapter_digest_ok)

lemma check_instances_ok: "check_instances p seen is = Inr u \<longleftrightarrow>
    distinct (map wi_instance_id is) \<and> set (map wi_instance_id is) \<inter> set seen = {}
    \<and> list_all (\<lambda>i. wi_pool_id i = p_pool_id p \<and> wi_image_digest i = p_image_digest p \<and> is_warm i) is"
  by (induction p seen "is" rule: check_instances.induct) (auto simp: Let_def simp del: set_map)

lemma warm_pool_make_ok: "warm_pool_make p is = Inr w \<longleftrightarrow>
    w = \<lparr>wp_pool = p, wp_instances = is\<rparr> \<and> warm_pool_ok w"
  by (auto simp: warm_pool_make_def bindR_Inr_iff check_instances_ok warm_pool_ok_def)

lemma admit_ok: "admit w i = Inr v \<longleftrightarrow>
    v = \<lparr>wp_pool = wp_pool w, wp_instances = wp_instances w @ [i]\<rparr> \<and> warm_pool_ok v"
  by (simp add: admit_def warm_pool_make_ok)

lemma length_filter_same: "length (filter p xs) = length xs \<longleftrightarrow> list_all p xs"
proof -
  have "length (filter p xs) = length xs \<longleftrightarrow> filter (\<lambda>x. \<not> p x) xs = []"
    using sum_length_filter_compl [of p xs] by (auto simp flip: length_0_conv)
  then show ?thesis by (simp add: filter_empty_conv list_all_iff)
qed

lemma retire_ok: "retire w iid = Inr v \<longleftrightarrow>
    iid \<in> wi_instance_id ` set (wp_instances w)
    \<and> v = \<lparr>wp_pool = wp_pool w, wp_instances = filter (\<lambda>i. wi_instance_id i \<noteq> iid) (wp_instances w)\<rparr>
    \<and> warm_pool_ok v"
proof -
  have "length (filter (\<lambda>i. wi_instance_id i \<noteq> iid) is) = length is \<longleftrightarrow> iid \<notin> wi_instance_id ` set is" for "is"
    by (auto simp: length_filter_same list_all_iff)
  then show ?thesis by (auto simp: retire_def Let_def warm_pool_make_ok)
qed

section \<open>Properties\<close>

text \<open>What a member must look like to satisfy one call of the contract.\<close>

definition member_ok :: "string \<Rightarrow> member_shape \<Rightarrow> bool" where
  "member_ok name m \<longleftrightarrow> (\<exists>ps. m = Callable (Inr ps) \<and> set (required_of name) \<subseteq> set ps
     \<and> (name = ''create_runner'' \<longrightarrow> set ps \<inter> set material_shaped = {}))"

lemma signature_problems_Nil: "signature_problems name ps = [] \<longleftrightarrow>
    set (required_of name) \<subseteq> set ps \<and> (name = ''create_runner'' \<longrightarrow> set ps \<inter> set material_shaped = {})"
  by (auto simp: signature_problems_def filter_empty_conv)

lemma contract_loop_clean: "contract_loop c names acc = Inr ([], [], []) \<longleftrightarrow>
    acc = ([], [], []) \<and> list_all (\<lambda>n. member_ok n (cand_member c n)) names"
proof (induction names arbitrary: acc)
  case Nil
  then show ?case by auto
next
  case (Cons n names)
  obtain a b d where acc: "acc = (a, b, d)" by (cases acc) auto
  show ?case
    by (cases "cand_member c n") (auto simp: acc Cons.IH member_ok_def signature_problems_Nil
        split: sum.splits)
qed

text \<open>
  The contract check is exact. A candidate passes for a runtime if and only if it declares that
  runtime and each of the eleven calls is a callable whose parameters can be read and include the
  operation key of a mutating call and the call's own required parameter, and \<open>create_runner\<close> asks
  for no registration material; the contract returned names the runtime and the eleven calls.
\<close>

theorem check_contract_iff:
  "check_contract (Some c) rt = Inr k \<longleftrightarrow>
     cand_runtime c = Inl rt \<and> list_all (\<lambda>n. member_ok n (cand_member c n)) adapter_calls
     \<and> k = \<lparr>ac_runtime = rt, ac_calls = adapter_calls\<rparr>"
proof -
  have "bindR (contract_loop c adapter_calls ([], [], [])) (\<lambda>(missing, notcall, wrong).
      if missing \<noteq> [] \<or> notcall \<noteq> [] \<or> wrong \<noteq> [] then contract_error (f missing notcall wrong)
      else Inr x) = Inr k \<longleftrightarrow>
      contract_loop c adapter_calls ([], [], []) = Inr ([], [], []) \<and> x = k" for f x
    by (auto simp: bindR_Inr_iff split: if_splits)
  then show ?thesis
    by (auto simp: check_contract_def contract_loop_clean split: sum.splits)
qed

inductive warm_step :: "warm_pool \<Rightarrow> warm_pool \<Rightarrow> bool" where
  admitted: "admit w i = Inr v \<Longrightarrow> warm_step w v"
| retired: "retire w iid = Inr v \<Longrightarrow> warm_step w v"

interpretation warm: invariant_system warm_step warm_pool_ok
  by unfold_locales (auto elim: warm_step.cases simp: admit_ok retire_ok)

text \<open>
  C38: warm stock stays warm. Whatever is admitted to and retired from a warm pool, its instances have
  distinct ids, belong to the pool, carry the pool's pinned image, are in one of the two warm states
  (so never one that has run a job), and are at most \<open>warm_max\<close>; and the pool itself never changes.
\<close>

theorem warm_pool_reachable:
  assumes "warm_step\<^sup>*\<^sup>* w v" and "warm_pool_ok w"
  shows "distinct (map wi_instance_id (wp_instances v))
    \<and> (\<forall>i \<in> set (wp_instances v). wi_pool_id i = p_pool_id (wp_pool w)
         \<and> wi_image_digest i = p_image_digest (wp_pool w) \<and> wi_state i \<noteq> I_USED \<and> is_warm i)
    \<and> warm_count v \<le> p_warm_max (wp_pool w)"
proof -
  have "wp_pool v = wp_pool w"
    using assms(1)
    by (induction rule: rtranclp_induct) (auto elim!: warm_step.cases simp: admit_ok retire_ok)
  moreover have "warm_pool_ok v" using warm.reachable_keeps [OF assms] .
  ultimately show ?thesis
    by (auto simp: warm_pool_ok_def list_all_iff warm_count_def is_warm_def warm_states_def)
qed

end
