(* ===== verification/Channel_Base.thy ===== *)
theory Channel_Base
  imports Fleet_Model Py_Json
begin

text \<open>
  The scalar checks of \<open>fleet_manager/channel.py\<close> that the lifecycle and the signed state reuse:
  identifiers, instants with an offset, the stamp format, public keys and the key id derived from
  one. A \<open>datetime\<close> argument may be naive, so the checks on it are modelled.
\<close>

definition channel_error :: "string \<Rightarrow> 'a res" where
  "channel_error m = raise ChannelError m"

definition channel_identifier :: "pyval \<Rightarrow> string \<Rightarrow> string res" where
  "channel_identifier v w =
     (case v of
        PStr s \<Rightarrow> if is_identifier s then Inr s else channel_error (w @ '': must be a lowercase identifier'')
      | _ \<Rightarrow> channel_error (w @ '': must be a lowercase identifier''))"

definition channel_timestamp :: "pyval \<Rightarrow> string \<Rightarrow> datetime res" where
  "channel_timestamp v w =
     (case v of
        PStr s \<Rightarrow>
          if s = [] then channel_error (w @ '': must be an ISO-8601 timestamp string'')
          else (case fromisoformat s of
                  None \<Rightarrow> channel_error (w @ '': is not an ISO-8601 timestamp'')
                | Some d \<Rightarrow>
                    if dt_offset d = None
                    then channel_error (w @ '': must carry a UTC offset (naive is refused)'')
                    else Inr d)
      | _ \<Rightarrow> channel_error (w @ '': must be an ISO-8601 timestamp string''))"

definition channel_instant :: "datetime \<Rightarrow> string \<Rightarrow> datetime res" where
  "channel_instant d w =
     (if dt_offset d = None then channel_error (w @ '': must carry a UTC offset (naive is refused)'')
      else Inr d)"

definition channel_stamp :: "datetime \<Rightarrow> string res" where
  "channel_stamp d =
     bindR (astimezone_utc d) (\<lambda>u. Inr (replace_all ''+00:00'' ''Z'' (isoformat_utc u)))"

definition public_key_size :: nat where
  "public_key_size = 32"

definition check_public_key :: "bytes \<Rightarrow> string \<Rightarrow> bytes res" where
  "check_public_key k w =
     (if length k \<noteq> public_key_size
      then channel_error (w @ '': must be exactly '' @ nat_str public_key_size @ '' bytes (got ''
             @ nat_str (length k) @ '')'')
      else Inr k)"

definition key_id_of :: "bytes \<Rightarrow> string" where
  "key_id_of k = ''key-'' @ take 16 (hexdigest k)"

definition key_id_for :: "bytes \<Rightarrow> string res" where
  "key_id_for k = bindR (check_public_key k ''channel.public_key'') (\<lambda>_. Inr (key_id_of k))"

section \<open>What the checks accept\<close>

text \<open>The instant a text denotes for the channel.\<close>

definition chan_us :: "string \<Rightarrow> int option" where
  "chan_us s =
     (case fromisoformat s of
        None \<Rightarrow> None
      | Some d \<Rightarrow> if dt_offset d = None then None else Some (dt_instant d))"

lemma channel_error_Inr [simp]: "channel_error m \<noteq> Inr a" "Inr a \<noteq> channel_error m"
  by (simp_all add: channel_error_def)

lemma bindR_channel_error [simp]: "bindR (channel_error m) f = channel_error m"
  by (simp add: channel_error_def)

lemma channel_identifier_ok [value_ok]: "channel_identifier v w = Inr s \<longleftrightarrow> v = PStr s \<and> is_identifier s"
  by (cases v) (auto simp: channel_identifier_def)

lemma fromisoformat_Nil: "fromisoformat [] = None"
  by (simp add: fromisoformat_def)

lemma channel_timestamp_ok [value_ok]: "channel_timestamp v w = Inr d \<longleftrightarrow>
    (\<exists>s. v = PStr s \<and> fromisoformat s = Some d \<and> dt_offset d \<noteq> None)"
  by (cases v) (auto simp: channel_timestamp_def fromisoformat_Nil split: option.splits)

lemma chan_us_iff: "chan_us s = Some t \<longleftrightarrow>
    (\<exists>d. fromisoformat s = Some d \<and> dt_offset d \<noteq> None \<and> dt_instant d = t)"
  by (auto simp: chan_us_def split: option.splits)

lemma channel_timestamp_us: "chan_us s = Some t \<Longrightarrow>
    \<exists>d. channel_timestamp (PStr s) w = Inr d \<and> dt_instant d = t"
  by (auto simp: chan_us_iff channel_timestamp_ok)

lemma channel_timestamp_chan: "channel_timestamp (PStr s) w = Inr d \<Longrightarrow> chan_us s = Some (dt_instant d)"
  by (auto simp: chan_us_iff channel_timestamp_ok)

lemma channel_instant_ok [value_ok]: "channel_instant d w = Inr e \<longleftrightarrow> e = d \<and> dt_offset d \<noteq> None"
  by (auto simp: channel_instant_def)

lemma check_public_key_ok [value_ok]: "check_public_key k w = Inr l \<longleftrightarrow> l = k \<and> length k = 32"
  by (auto simp: check_public_key_def public_key_size_def)

lemma key_id_for_ok [value_ok]: "key_id_for k = Inr i \<longleftrightarrow> length k = 32 \<and> i = key_id_of k"
  by (auto simp: key_id_for_def bindR_Inr_iff check_public_key_ok)

definition zulu :: "int \<Rightarrow> string" where
  "zulu t = isoformat_local (utc t) @ ''Z''"

lemma zulu_eq: "replace_all ''+00:00'' ''Z'' (isoformat_utc (utc t)) = zulu t"
proof -
  have "CHR ''+'' \<notin> set (isoformat_local (utc t))"
    by (rule isoformat_local_absent) (simp_all add: is_digit_def code_def)
  then show ?thesis by (simp add: isoformat_utc_def zulu_def replace_all_tail)
qed

lemma channel_stamp_ok: "channel_stamp d = Inr s \<longleftrightarrow> in_calendar (dt_instant d) \<and> s = zulu (dt_instant d)"
  by (auto simp: channel_stamp_def bindR_Inr_iff astimezone_utc_def overflow_def zulu_eq)

lemma chan_us_zulu: "in_calendar t \<Longrightarrow> chan_us (zulu t) = Some t"
  by (simp add: chan_us_def zulu_def fromisoformat_zulu) (simp add: utc_def)

lemma channel_timestamp_zulu: "in_calendar t \<Longrightarrow> channel_timestamp (PStr (zulu t)) w = Inr (utc t)"
  by (simp add: channel_timestamp_ok zulu_def fromisoformat_zulu) (simp add: utc_def)

end
