(* ===== verification/Fleet_Lifecycle.thy ===== *)
theory Fleet_Lifecycle
  imports Fleet_Adapters Channel_Base
begin

text \<open>
  One job per instance, \<open>fleet_manager/lifecycle.py\<close>: cleanup evidence and quarantine records, the
  closed state machine of one instance, the admission gate and the call that admits a replacement.
  Arguments of a refusal's \<open>isinstance\<close> check are typed in the model.
\<close>

section \<open>Evidence and quarantine\<close>

datatype disposal = DISPOSED | ABSENT | FAILED

fun disposal_value :: "disposal \<Rightarrow> string" where
  "disposal_value DISPOSED = ''disposed''"
| "disposal_value ABSENT = ''absent''"
| "disposal_value FAILED = ''failed''"

definition lifecycle_instant :: "pyval \<Rightarrow> string \<Rightarrow> datetime res" where
  "lifecycle_instant v w =
     mapErr (of_class ChannelError) (\<lambda>e. adapter_exn CLEANUP_FAILURE (exn_text e)) (channel_timestamp v w)"

definition identity :: "pyval \<Rightarrow> string \<Rightarrow> error_kind \<Rightarrow> string res" where
  "identity v w k =
     mapErr (of_class AdapterContractError) (\<lambda>e. adapter_exn k (exn_text e)) (identifier_checked v w)"

definition digest_checked :: "pyval \<Rightarrow> string \<Rightarrow> error_kind \<Rightarrow> string res" where
  "digest_checked v w k =
     mapErr (of_class AdapterContractError) (\<lambda>e. adapter_exn k (exn_text e)) (adapter_digest v w)"

definition cleanup_error :: "string \<Rightarrow> 'a res" where
  "cleanup_error m = adapter_error CLEANUP_FAILURE m"

record cleanup_evidence =
  ce_instance_id :: string
  ce_image_digest :: string
  ce_volume_disposal :: disposal
  ce_network_disposal :: disposal
  ce_started_at :: string
  ce_finished_at :: string
  ce_job_id :: "string option"

definition evidence_missing :: "string \<Rightarrow> exn" where
  "evidence_missing field =
     adapter_exn CLEANUP_FAILURE (''cleanup_evidence.'' @ field
       @ '': is required -- a proof missing it is not a proof of cleanup'')"

definition string_of :: "pyval \<Rightarrow> string" where
  "string_of v = (case v of PStr s \<Rightarrow> s | _ \<Rightarrow> [])"

definition evidence_job :: "pyval \<Rightarrow> string option res" where
  "evidence_job v =
     (case v of
        PNone \<Rightarrow> Inr None
      | PStr s \<Rightarrow>
          if s = [] then cleanup_error ''cleanup_evidence.job_id: must be omitted or a non-empty string''
          else bindR (identity (PStr s) ''cleanup_evidence.job_id'' CLEANUP_FAILURE) (\<lambda>j. Inr (Some j))
      | _ \<Rightarrow> cleanup_error ''cleanup_evidence.job_id: must be omitted or a non-empty string'')"

definition cleanup_evidence_make ::
  "pyval \<Rightarrow> pyval \<Rightarrow> disposal option \<Rightarrow> disposal option \<Rightarrow> pyval \<Rightarrow> pyval \<Rightarrow> pyval
   \<Rightarrow> cleanup_evidence res" where
  "cleanup_evidence_make iid img vol net started finished job =
     bindR (run_checks
       [(iid \<noteq> PNone, evidence_missing ''instance_id''), (img \<noteq> PNone, evidence_missing ''image_digest''),
        (vol \<noteq> None, evidence_missing ''volume_disposal''),
        (net \<noteq> None, evidence_missing ''network_disposal''),
        (started \<noteq> PNone, evidence_missing ''started_at''),
        (finished \<noteq> PNone, evidence_missing ''finished_at'')]) (\<lambda>_.
     bindR (identity iid ''cleanup_evidence.instance_id'' CLEANUP_FAILURE) (\<lambda>i.
     bindR (digest_checked img ''cleanup_evidence.image_digest'' CLEANUP_FAILURE) (\<lambda>d.
     bindR (lifecycle_instant started ''cleanup_evidence.started_at'') (\<lambda>s.
     bindR (lifecycle_instant finished ''cleanup_evidence.finished_at'') (\<lambda>f.
     bindR (if dt_instant f < dt_instant s
            then cleanup_error (''cleanup_evidence: finished_at precedes started_at -- an interval ''
                   @ ''that runs backwards is not evidence of a cleanup'') else Inr ()) (\<lambda>_.
     bindR (evidence_job job) (\<lambda>j.
       Inr \<lparr>ce_instance_id = i, ce_image_digest = d, ce_volume_disposal = the vol,
            ce_network_disposal = the net, ce_started_at = string_of started,
            ce_finished_at = string_of finished, ce_job_id = j\<rparr>)))))))"

definition admissible :: "cleanup_evidence \<Rightarrow> bool" where
  "admissible e \<longleftrightarrow> ce_volume_disposal e \<noteq> FAILED \<and> ce_network_disposal e \<noteq> FAILED"

definition evidence_document :: "cleanup_evidence \<Rightarrow> pyval" where
  "evidence_document e = PDict
     ([(''instance_id'', PStr (ce_instance_id e)), (''image_digest'', PStr (ce_image_digest e)),
       (''volume_disposal'', PStr (disposal_value (ce_volume_disposal e))),
       (''network_disposal'', PStr (disposal_value (ce_network_disposal e))),
       (''started_at'', PStr (ce_started_at e)), (''finished_at'', PStr (ce_finished_at e))]
      @ (case ce_job_id e of None \<Rightarrow> [] | Some j \<Rightarrow> [(''job_id'', PStr j)]))"

record quarantine =
  q_instance_id :: string
  q_failure_kind :: string
  q_quarantined_at :: string

definition max_reason :: nat where
  "max_reason = 512"

definition quarantine_missing :: "string \<Rightarrow> exn" where
  "quarantine_missing field =
     adapter_exn CLEANUP_FAILURE (''quarantine.'' @ field
       @ '': is required -- a quarantine that cannot be inspected is a deletion'')"

definition check_failure_kind :: "pyval \<Rightarrow> string res" where
  "check_failure_kind v =
     (case v of
        PStr s \<Rightarrow>
          if s = [] then cleanup_error ''quarantine.failure_kind: must name the failure''
          else if length s > max_reason
          then cleanup_error (''quarantine.failure_kind: exceeds '' @ nat_str max_reason @ '' characters'')
          else Inr s
      | _ \<Rightarrow> cleanup_error ''quarantine.failure_kind: must name the failure'')"

definition quarantine_make :: "pyval \<Rightarrow> pyval \<Rightarrow> pyval \<Rightarrow> quarantine res" where
  "quarantine_make iid failure at =
     bindR (run_checks
       [(iid \<noteq> PNone, quarantine_missing ''instance_id''),
        (failure \<noteq> PNone, quarantine_missing ''failure_kind''),
        (at \<noteq> PNone, quarantine_missing ''quarantined_at'')]) (\<lambda>_.
     bindR (identity iid ''quarantine.instance_id'' CLEANUP_FAILURE) (\<lambda>i.
     bindR (check_failure_kind failure) (\<lambda>f.
     bindR (lifecycle_instant at ''quarantine.quarantined_at'') (\<lambda>_.
       Inr \<lparr>q_instance_id = i, q_failure_kind = f, q_quarantined_at = string_of at\<rparr>))))"

definition quarantine_document :: "quarantine \<Rightarrow> pyval" where
  "quarantine_document q = PDict
     [(''instance_id'', PStr (q_instance_id q)), (''failure_kind'', PStr (q_failure_kind q)),
      (''quarantined_at'', PStr (q_quarantined_at q))]"

section \<open>The job machine\<close>

datatype job_state =
    J_PREPULLED | J_ASSIGNED | J_RUNNING | J_REFUSED | J_COMPLETED | J_TIMED_OUT | J_CANCELLED
  | J_DISCONNECTED | J_DESTROYED | J_PROVEN_CLEAN | J_QUARANTINED

fun job_state_value :: "job_state \<Rightarrow> string" where
  "job_state_value J_PREPULLED = ''prepulled''"
| "job_state_value J_ASSIGNED = ''assigned''"
| "job_state_value J_RUNNING = ''running''"
| "job_state_value J_REFUSED = ''refused''"
| "job_state_value J_COMPLETED = ''completed''"
| "job_state_value J_TIMED_OUT = ''timed_out''"
| "job_state_value J_CANCELLED = ''cancelled''"
| "job_state_value J_DISCONNECTED = ''disconnected''"
| "job_state_value J_DESTROYED = ''destroyed''"
| "job_state_value J_PROVEN_CLEAN = ''proven_clean''"
| "job_state_value J_QUARANTINED = ''quarantined''"

definition terminal_job_states :: "job_state set" where
  "terminal_job_states = {J_COMPLETED, J_TIMED_OUT, J_CANCELLED, J_DISCONNECTED}"

fun transitions :: "job_state \<Rightarrow> job_state set" where
  "transitions J_PREPULLED = {J_ASSIGNED, J_DESTROYED}"
| "transitions J_ASSIGNED = {J_RUNNING, J_REFUSED, J_CANCELLED}"
| "transitions J_RUNNING = terminal_job_states"
| "transitions J_REFUSED = {J_DESTROYED}"
| "transitions J_COMPLETED = {J_DESTROYED}"
| "transitions J_TIMED_OUT = {J_DESTROYED}"
| "transitions J_CANCELLED = {J_DESTROYED}"
| "transitions J_DISCONNECTED = {J_DESTROYED}"
| "transitions J_DESTROYED = {J_PROVEN_CLEAN, J_QUARANTINED}"
| "transitions J_PROVEN_CLEAN = {}"
| "transitions J_QUARANTINED = {}"

definition job_named_states :: "job_state set" where
  "job_named_states =
     {J_ASSIGNED, J_RUNNING, J_REFUSED, J_COMPLETED, J_TIMED_OUT, J_CANCELLED, J_DISCONNECTED}"

definition next_states :: "job_state \<Rightarrow> job_state set" where
  "next_states st = transitions st"

record job_lifecycle =
  jl_instance_id :: string
  jl_image_digest :: string
  jl_state :: job_state
  jl_job_id :: "string option"

definition job_lifecycle_make ::
  "pyval \<Rightarrow> pyval \<Rightarrow> job_state \<Rightarrow> string option \<Rightarrow> job_lifecycle res" where
  "job_lifecycle_make iid img st job =
     bindR (identity iid ''job_lifecycle.instance_id'' INVALID_DESIRED_STATE) (\<lambda>i.
     bindR (digest_checked img ''job_lifecycle.image_digest'' INVALID_DESIRED_STATE) (\<lambda>d.
     bindR (if st = J_PREPULLED \<and> job \<noteq> None
            then adapter_error UNKNOWN_STATE (''job_lifecycle.job_id: an instance that has accepted no ''
                   @ ''job has no job identity'') else Inr ()) (\<lambda>_.
     bindR (if st \<in> job_named_states \<and> job = None
            then adapter_error UNKNOWN_STATE (''job_lifecycle.job_id: state '' @ job_state_value st
                   @ '' is one the instance reached by accepting a job -- it must name the job'')
            else Inr ()) (\<lambda>_.
       Inr \<lparr>jl_instance_id = i, jl_image_digest = d, jl_state = st, jl_job_id = job\<rparr>))))"

definition job_lifecycle_replace :: "job_lifecycle \<Rightarrow> job_lifecycle res" where
  "job_lifecycle_replace l =
     job_lifecycle_make (PStr (jl_instance_id l)) (PStr (jl_image_digest l)) (jl_state l) (jl_job_id l)"

definition refuse_transition :: "job_state \<Rightarrow> job_state \<Rightarrow> 'a res" where
  "refuse_transition current wanted =
     adapter_error UNKNOWN_STATE (''lifecycle: '' @ job_state_value current @ '' has no transition to ''
       @ job_state_value wanted)"

text \<open>\<open>_transition(state, **changes)\<close>, on the lifecycle with the changes already made.\<close>

definition transition :: "job_lifecycle \<Rightarrow> job_state \<Rightarrow> (job_lifecycle \<Rightarrow> job_lifecycle) \<Rightarrow> job_lifecycle res" where
  "transition l st changes =
     (if st \<notin> transitions (jl_state l) then refuse_transition (jl_state l) st
      else job_lifecycle_replace (changes (l\<lparr>jl_state := st\<rparr>)))"

definition jl_move :: "job_lifecycle \<Rightarrow> job_state \<Rightarrow> job_lifecycle res" where
  "jl_move l st = transition l st id"

definition jl_offer :: "job_lifecycle \<Rightarrow> string \<Rightarrow> job_lifecycle res" where
  "jl_offer l job =
     (if jl_state l \<noteq> J_PREPULLED
      then adapter_error POLICY_DENIAL (''lifecycle: one job per instance -- '' @ jl_instance_id l @ '' is ''
             @ job_state_value (jl_state l) @ '' and cannot take another job'')
      else if job = []
      then adapter_error POLICY_DENIAL ''lifecycle.offer: job_id must be a non-empty string''
      else bindR (identity (PStr job) ''lifecycle.offer.job_id'' POLICY_DENIAL) (\<lambda>_.
             transition l J_ASSIGNED (\<lambda>x. x\<lparr>jl_job_id := Some job\<rparr>)))"

definition jl_start :: "job_lifecycle \<Rightarrow> job_lifecycle res" where
  "jl_start l = jl_move l J_RUNNING"

definition jl_refuse :: "job_lifecycle \<Rightarrow> job_lifecycle res" where
  "jl_refuse l = jl_move l J_REFUSED"

definition jl_finish :: "job_lifecycle \<Rightarrow> job_state \<Rightarrow> job_lifecycle res" where
  "jl_finish l ended = transition l ended id"

definition jl_destroy :: "job_lifecycle \<Rightarrow> job_lifecycle res" where
  "jl_destroy l = jl_move l J_DESTROYED"

definition jl_prove :: "job_lifecycle \<Rightarrow> cleanup_evidence \<Rightarrow> job_lifecycle res" where
  "jl_prove l e =
     (if \<not> admissible e
      then cleanup_error ''lifecycle.prove: the proof reports a failed disposal and is not proof of cleanup''
      else if ce_instance_id e \<noteq> jl_instance_id l
      then cleanup_error ''lifecycle.prove: the proof is about another instance -- a proof cannot be transplanted''
      else if ce_image_digest e \<noteq> jl_image_digest l
      then cleanup_error (''lifecycle.prove: the proof is about another image -- a proof cannot be ''
             @ ''transplanted onto a later generation'')
      else jl_move l J_PROVEN_CLEAN)"

definition jl_quarantine :: "job_lifecycle \<Rightarrow> quarantine \<Rightarrow> job_lifecycle res" where
  "jl_quarantine l q =
     (if q_instance_id q \<noteq> jl_instance_id l
      then cleanup_error ''lifecycle.quarantine: the quarantine names another instance''
      else jl_move l J_QUARANTINED)"

section \<open>The admission gate\<close>

record admission_gate =
  ag_unaccounted :: "string list"
  ag_proven :: "cleanup_evidence list"
  ag_quarantined :: "quarantine list"

fun check_unaccounted :: "string list \<Rightarrow> string list \<Rightarrow> unit res" where
  "check_unaccounted seen [] = Inr ()"
| "check_unaccounted seen (i # is) =
     bindR (identity (PStr i) ''admission_gate.unaccounted'' POLICY_DENIAL) (\<lambda>_.
       if i \<in> set seen
       then adapter_error POLICY_DENIAL (''admission_gate.unaccounted: '' @ i @ '' appears twice'')
       else check_unaccounted (i # seen) is)"

definition gate_make :: "admission_gate \<Rightarrow> admission_gate res" where
  "gate_make g = bindR (check_unaccounted [] (ag_unaccounted g)) (\<lambda>_. Inr g)"

definition ag_shortfall :: "admission_gate \<Rightarrow> nat" where
  "ag_shortfall g = length (ag_unaccounted g)"

definition can_admit :: "admission_gate \<Rightarrow> bool" where
  "can_admit g \<longleftrightarrow> ag_unaccounted g = []"

definition gate_destroyed :: "admission_gate \<Rightarrow> string \<Rightarrow> admission_gate res" where
  "gate_destroyed g iid =
     bindR (identity (PStr iid) ''admission_gate.destroyed.instance_id'' POLICY_DENIAL) (\<lambda>_.
       if iid \<in> set (ag_unaccounted g)
       then adapter_error POLICY_DENIAL (''admission_gate: '' @ iid @ '' is already unaccounted for'')
       else gate_make (g\<lparr>ag_unaccounted := ag_unaccounted g @ [iid]\<rparr>))"

definition gate_prove :: "admission_gate \<Rightarrow> cleanup_evidence \<Rightarrow> admission_gate res" where
  "gate_prove g e =
     (if ce_instance_id e \<notin> set (ag_unaccounted g)
      then cleanup_error (''admission_gate.prove: '' @ ce_instance_id e @ '' is not awaiting an accounting'')
      else gate_make (g\<lparr>ag_unaccounted := filter (\<lambda>i. i \<noteq> ce_instance_id e) (ag_unaccounted g),
                        ag_proven := ag_proven g @ [e]\<rparr>))"

definition gate_quarantine :: "admission_gate \<Rightarrow> quarantine \<Rightarrow> admission_gate res" where
  "gate_quarantine g q =
     (if q_instance_id q \<notin> set (ag_unaccounted g)
      then cleanup_error (''admission_gate.quarantine: '' @ q_instance_id q @ '' is not awaiting an accounting'')
      else gate_make (g\<lparr>ag_unaccounted := filter (\<lambda>i. i \<noteq> q_instance_id q) (ag_unaccounted g),
                        ag_quarantined := ag_quarantined g @ [q]\<rparr>))"

definition admit_replacement ::
  "admission_gate \<Rightarrow> warm_pool \<Rightarrow> warm_instance \<Rightarrow> string option \<Rightarrow> warm_pool res" where
  "admit_replacement g w i replacing =
     bindR (case replacing of
              None \<Rightarrow> Inr ()
            | Some r \<Rightarrow>
                bindR (identity (PStr r) ''admit_replacement.replacing'' POLICY_DENIAL) (\<lambda>_.
                  if r \<in> set (ag_unaccounted g)
                  then adapter_error POLICY_DENIAL (''admit_replacement: '' @ r @ '' is destroyed and ''
                         @ ''unaccounted for -- its cleanup is neither proven nor quarantined, so its ''
                         @ ''capacity cannot be replaced'')
                  else Inr ())) (\<lambda>_.
     bindR (if warm_count w \<ge> p_warm_max (wp_pool w)
            then adapter_error CAPACITY_EXHAUSTION (''admit_replacement: pool ''
                   @ py_repr (p_pool_id (wp_pool w)) @ '' is at warm_max '' @ int_str (p_warm_max (wp_pool w)))
            else Inr ()) (\<lambda>_.
       mapErr (of_class AdapterContractError) (\<lambda>e. adapter_exn INVALID_DESIRED_STATE (exn_text e))
         (admit w i)))"

section \<open>The machine as a transition system\<close>

inductive jl_step :: "job_lifecycle \<Rightarrow> job_lifecycle \<Rightarrow> bool" where
  move: "jl_move l st = Inr m \<Longrightarrow> jl_step l m"
| offer: "jl_offer l job = Inr m \<Longrightarrow> jl_step l m"
| start: "jl_start l = Inr m \<Longrightarrow> jl_step l m"
| refuse: "jl_refuse l = Inr m \<Longrightarrow> jl_step l m"
| finish: "jl_finish l st = Inr m \<Longrightarrow> jl_step l m"
| destroy: "jl_destroy l = Inr m \<Longrightarrow> jl_step l m"
| prove: "jl_prove l e = Inr m \<Longrightarrow> jl_step l m"
| quarantine: "jl_quarantine l q = Inr m \<Longrightarrow> jl_step l m"

definition jl_ok :: "job_lifecycle \<Rightarrow> bool" where
  "jl_ok l \<longleftrightarrow> is_identifier (jl_instance_id l) \<and> pinned (jl_image_digest l)
     \<and> (jl_state l = J_PREPULLED \<longrightarrow> jl_job_id l = None)
     \<and> (jl_state l \<in> job_named_states \<longrightarrow> jl_job_id l \<noteq> None)"

fun jl_rank :: "job_state \<Rightarrow> nat" where
  "jl_rank J_PREPULLED = 0"
| "jl_rank J_ASSIGNED = 1"
| "jl_rank J_RUNNING = 2"
| "jl_rank J_DESTROYED = 4"
| "jl_rank J_PROVEN_CLEAN = 5"
| "jl_rank J_QUARANTINED = 5"
| "jl_rank st = 3"

lemma cleanup_error_Inr [simp]: "cleanup_error m \<noteq> Inr a" "Inr a \<noteq> cleanup_error m"
  by (simp_all add: cleanup_error_def)

lemma bindR_cleanup_error [simp]: "bindR (cleanup_error m) f = cleanup_error m"
  by (simp add: cleanup_error_def)

lemma identity_ok [value_ok]: "identity v w k = Inr s \<longleftrightarrow> v = PStr s \<and> is_identifier s"
  by (simp add: identity_def mapErr_Inr_iff identifier_checked_ok)

lemma digest_checked_ok [value_ok]: "digest_checked v w k = Inr s \<longleftrightarrow> v = PStr s \<and> pinned s"
  by (simp add: digest_checked_def mapErr_Inr_iff adapter_digest_ok)

lemma lifecycle_instant_ok [value_ok]: "lifecycle_instant v w = Inr d \<longleftrightarrow> channel_timestamp v w = Inr d"
  by (simp add: lifecycle_instant_def mapErr_Inr_iff)

lemma replace_ok: "job_lifecycle_replace l = Inr m \<longleftrightarrow> m = l \<and> jl_ok l"
  by (cases l) (auto simp: job_lifecycle_replace_def job_lifecycle_make_def bindR_Inr_iff identity_ok
      digest_checked_ok jl_ok_def)

lemma refuse_transition_Inr [simp]: "refuse_transition a b \<noteq> Inr m"
  by (simp add: refuse_transition_def)

lemma transition_ok: "transition l st f = Inr m \<longleftrightarrow>
    st \<in> transitions (jl_state l) \<and> m = f (l\<lparr>jl_state := st\<rparr>) \<and> jl_ok m"
  by (auto simp: transition_def replace_ok)

lemma jl_move_ok: "jl_move l st = Inr m \<longleftrightarrow>
    st \<in> transitions (jl_state l) \<and> m = l\<lparr>jl_state := st\<rparr> \<and> jl_ok m"
  by (simp add: jl_move_def transition_ok)

lemma jl_offer_ok: "jl_offer l job = Inr m \<longleftrightarrow>
    jl_state l = J_PREPULLED \<and> is_identifier job \<and> m = l\<lparr>jl_state := J_ASSIGNED, jl_job_id := Some job\<rparr> \<and> jl_ok m"
  by (auto simp: jl_offer_def bindR_Inr_iff identity_ok transition_ok is_identifier_def dollar_def
      identifier_body_def)

text \<open>Every step follows an arrow of the table; only an offer touches the job identity.\<close>

lemma jl_stepD:
  assumes "jl_step l m"
  shows "jl_state m \<in> transitions (jl_state l) \<and> jl_ok m \<and> jl_instance_id m = jl_instance_id l
    \<and> jl_image_digest m = jl_image_digest l
    \<and> (jl_job_id m = jl_job_id l \<or> jl_state l = J_PREPULLED \<and> jl_state m = J_ASSIGNED)"
  using assms
  by (cases rule: jl_step.cases)
    (auto simp: jl_move_ok jl_offer_ok jl_start_def jl_refuse_def jl_finish_def transition_ok jl_destroy_def
      jl_prove_def jl_quarantine_def split: if_splits)

lemma transitions_climb: "t \<in> transitions s \<Longrightarrow> jl_rank s < jl_rank t"
  by (cases s) (auto simp: terminal_job_states_def)

lemma jl_rank_top: "jl_rank s \<le> 5"
  by (cases s) simp_all

interpretation lifecycle: ranked_system jl_step jl_ok "\<lambda>l. jl_rank (jl_state l)" 5
  by unfold_locales (auto dest: jl_stepD transitions_climb simp: jl_rank_top)

lemma jl_step_job: "jl_step l m \<Longrightarrow> jl_state l \<noteq> J_PREPULLED \<Longrightarrow>
    jl_job_id m = jl_job_id l \<and> jl_state m \<noteq> J_PREPULLED"
  using jl_stepD [of l m] transitions_climb [of "jl_state m" "jl_state l"] by auto

lemma jl_steps_job: "jl_step\<^sup>*\<^sup>* l m \<Longrightarrow> jl_state l \<noteq> J_PREPULLED \<Longrightarrow>
    jl_job_id m = jl_job_id l \<and> jl_state m \<noteq> J_PREPULLED"
  by (induction rule: rtranclp_induct) (auto dest: jl_step_job)

lemma jl_steps_identity: "jl_step\<^sup>*\<^sup>* l m \<Longrightarrow>
    jl_instance_id m = jl_instance_id l \<and> jl_image_digest m = jl_image_digest l"
  by (induction rule: rtranclp_induct) (auto dest: jl_stepD)

section \<open>The gate as a transition system\<close>

inductive gate_step :: "admission_gate \<Rightarrow> admission_gate \<Rightarrow> bool" where
  destroyed: "gate_destroyed g i = Inr h \<Longrightarrow> gate_step g h"
| proven: "gate_prove g e = Inr h \<Longrightarrow> gate_step g h"
| quarantined: "gate_quarantine g q = Inr h \<Longrightarrow> gate_step g h"

definition gate_ok :: "admission_gate \<Rightarrow> bool" where
  "gate_ok g \<longleftrightarrow> distinct (ag_unaccounted g) \<and> list_all is_identifier (ag_unaccounted g)"

text \<open>
  The gate as the spec has it used: a proof of cleanup reaches it only after the lifecycle of some
  instance has taken it as a proof, which is where a failed disposal is refused.
\<close>

inductive cleared_step :: "admission_gate \<Rightarrow> admission_gate \<Rightarrow> bool" where
  destroyed: "gate_destroyed g i = Inr h \<Longrightarrow> cleared_step g h"
| proven: "jl_prove l e = Inr m \<Longrightarrow> gate_prove g e = Inr h \<Longrightarrow> cleared_step g h"
| quarantined: "gate_quarantine g q = Inr h \<Longrightarrow> cleared_step g h"

text \<open>An instance accounted for between two states of the gate: by an admissible proof, or a quarantine.\<close>

definition accounted_since :: "admission_gate \<Rightarrow> admission_gate \<Rightarrow> string \<Rightarrow> bool" where
  "accounted_since g h i \<longleftrightarrow>
     list_ex (\<lambda>e. admissible e \<and> ce_instance_id e = i) (drop (length (ag_proven g)) (ag_proven h))
     \<or> list_ex (\<lambda>q. q_instance_id q = i) (drop (length (ag_quarantined g)) (ag_quarantined h))"

lemma check_unaccounted_ok: "check_unaccounted seen is = Inr u \<longleftrightarrow>
    distinct is \<and> set is \<inter> set seen = {} \<and> list_all is_identifier is"
  by (induction seen "is" rule: check_unaccounted.induct) (auto simp: bindR_Inr_iff identity_ok)

lemma gate_make_ok: "gate_make g = Inr h \<longleftrightarrow> h = g \<and> gate_ok g"
  by (auto simp: gate_make_def bindR_Inr_iff check_unaccounted_ok gate_ok_def)

lemma gate_destroyed_ok: "gate_destroyed g i = Inr h \<longleftrightarrow>
    is_identifier i \<and> i \<notin> set (ag_unaccounted g) \<and> h = g\<lparr>ag_unaccounted := ag_unaccounted g @ [i]\<rparr> \<and> gate_ok h"
  by (auto simp: gate_destroyed_def bindR_Inr_iff identity_ok gate_make_ok)

lemma gate_prove_ok: "gate_prove g e = Inr h \<longleftrightarrow>
    ce_instance_id e \<in> set (ag_unaccounted g) \<and> gate_ok h
    \<and> h = g\<lparr>ag_unaccounted := filter (\<lambda>i. i \<noteq> ce_instance_id e) (ag_unaccounted g), ag_proven := ag_proven g @ [e]\<rparr>"
  by (auto simp: gate_prove_def gate_make_ok)

lemma gate_quarantine_ok: "gate_quarantine g q = Inr h \<longleftrightarrow>
    q_instance_id q \<in> set (ag_unaccounted g) \<and> gate_ok h
    \<and> h = g\<lparr>ag_unaccounted := filter (\<lambda>i. i \<noteq> q_instance_id q) (ag_unaccounted g),
            ag_quarantined := ag_quarantined g @ [q]\<rparr>"
  by (auto simp: gate_quarantine_def gate_make_ok)

lemmas gate_ops_ok = gate_destroyed_ok gate_prove_ok gate_quarantine_ok

lemma jl_prove_admissible: "jl_prove l e = Inr m \<Longrightarrow> admissible e"
  by (auto simp: jl_prove_def split: if_splits)

lemma cleared_gate: "cleared_step g h \<Longrightarrow> gate_step g h"
  by (induction rule: cleared_step.induct) (auto intro: gate_step.intros)

text \<open>From a given state on, the gate's records only grow, and what was awaited is awaited or accounted for.\<close>

definition custody :: "admission_gate \<Rightarrow> string \<Rightarrow> admission_gate \<Rightarrow> bool" where
  "custody g i h \<longleftrightarrow> length (ag_proven g) \<le> length (ag_proven h)
     \<and> length (ag_quarantined g) \<le> length (ag_quarantined h)
     \<and> (i \<in> set (ag_unaccounted h) \<or> accounted_since g h i)"

lemma custody_step: "cleared_step g h \<Longrightarrow> custody g0 i g \<Longrightarrow> custody g0 i h"
  by (induction rule: cleared_step.induct)
    (auto simp: gate_ops_ok custody_def accounted_since_def dest: jl_prove_admissible)

interpretation gate: invariant_system cleared_step "custody g i" for g i
  by unfold_locales (rule custody_step)

interpretation gate_wf: invariant_system gate_step gate_ok
  by unfold_locales (auto elim: gate_step.cases simp: gate_ops_ok)

lemma admit_replacement_ok: "admit_replacement g w i r = Inr v \<longleftrightarrow>
    pred_option (\<lambda>x. is_identifier x \<and> x \<notin> set (ag_unaccounted g)) r
    \<and> warm_count w < p_warm_max (wp_pool w)
    \<and> v = \<lparr>wp_pool = wp_pool w, wp_instances = wp_instances w @ [i]\<rparr> \<and> warm_pool_ok v"
  by (cases r) (auto simp: admit_replacement_def bindR_Inr_iff identity_ok mapErr_Inr_iff admit_ok)

section \<open>Two paths around the proof\<close>

text \<open>
  \<open>finish\<close> accepts every arrow of the table, so on a destroyed instance it reaches the proven
  state with no evidence at all; and the gate accepts evidence that reports a failed disposal, after
  which the capacity may be replaced.
\<close>

lemma finish_needs_no_proof:
  assumes "jl_ok l" and "jl_state l = J_DESTROYED"
  shows "jl_finish l J_PROVEN_CLEAN = Inr (l\<lparr>jl_state := J_PROVEN_CLEAN\<rparr>)"
  using assms by (simp add: jl_finish_def transition_ok jl_ok_def job_named_states_def)

lemma gate_accepts_failed_disposal:
  assumes "gate_ok g" and "ce_instance_id e \<in> set (ag_unaccounted g)" and "ce_volume_disposal e = FAILED"
  shows "\<not> admissible e \<and> (\<exists>h. gate_prove g e = Inr h \<and> ce_instance_id e \<notin> set (ag_unaccounted h))"
  using assms by (auto simp: admissible_def gate_prove_ok gate_ok_def list_all_iff)

section \<open>Properties\<close>

text \<open>
  C35: one job per instance. After an instance has accepted a job, whatever methods are called next
  and in whatever order, it keeps that job's identity, its own identity and its image, it never
  returns to the warm state, and every further offer is refused.
\<close>

theorem one_job_per_instance:
  assumes "jl_offer l job = Inr m" and "jl_step\<^sup>*\<^sup>* m n"
  shows "jl_job_id n = Some job \<and> jl_instance_id n = jl_instance_id l \<and> jl_image_digest n = jl_image_digest l
    \<and> jl_state n \<noteq> J_PREPULLED \<and> (\<forall>other x. jl_offer n other \<noteq> Inr x)"
proof -
  have m: "jl_job_id m = Some job" "jl_state m = J_ASSIGNED" "jl_instance_id m = jl_instance_id l"
    "jl_image_digest m = jl_image_digest l"
    using assms(1) by (auto simp: jl_offer_ok)
  then have "jl_job_id n = Some job" "jl_state n \<noteq> J_PREPULLED"
    using jl_steps_job [OF assms(2)] by auto
  then show ?thesis using jl_steps_identity [OF assms(2)] m by (auto simp: jl_offer_ok)
qed

text \<open>
  C36: a lifecycle ends. Every run of an instance has at most five steps, no state is ever reached
  twice, and a state from which no step exists is proven clean or quarantined.
\<close>

theorem lifecycle_terminates:
  assumes ok: "jl_ok l"
  shows "((jl_step ^^ n) l m \<longrightarrow> n \<le> 5) \<and> (jl_step\<^sup>+\<^sup>+ l m \<longrightarrow> jl_state m \<noteq> jl_state l)
    \<and> ((\<nexists>m. jl_step l m) \<longrightarrow> jl_state l \<in> {J_PROVEN_CLEAN, J_QUARANTINED})"
proof (intro conjI impI)
  show "n \<le> 5" if "(jl_step ^^ n) l m" using lifecycle.run_bounded [OF that ok] by simp
  show "jl_state m \<noteq> jl_state l" if "jl_step\<^sup>+\<^sup>+ l m" using lifecycle.no_cycle [OF that ok] by auto
  show "jl_state l \<in> {J_PROVEN_CLEAN, J_QUARANTINED}" if stuck: "\<nexists>m. jl_step l m"
  proof (rule ccontr)
    assume live: "jl_state l \<notin> {J_PROVEN_CLEAN, J_QUARANTINED}"
    have "\<exists>st. st \<in> transitions (jl_state l) \<and> jl_ok (l\<lparr>jl_state := st\<rparr>)"
    proof (cases "jl_state l \<in> {J_ASSIGNED, J_RUNNING}")
      case True
      then show ?thesis
        using ok by (intro exI [of _ J_CANCELLED])
          (auto simp: jl_ok_def job_named_states_def terminal_job_states_def)
    next
      case False
      show ?thesis
      proof (cases "jl_state l = J_DESTROYED")
        case True
        then show ?thesis using ok by (intro exI [of _ J_QUARANTINED]) (simp add: jl_ok_def job_named_states_def)
      next
        case other: False
        then have "J_DESTROYED \<in> transitions (jl_state l)"
          using live False by (cases "jl_state l") auto
        then show ?thesis using ok by (intro exI [of _ J_DESTROYED]) (simp add: jl_ok_def job_named_states_def)
      qed
    qed
    then show False using stuck jl_step.move by (auto simp: jl_move_ok)
  qed
qed

text \<open>
  Clean by proof. For a well-formed lifecycle, \<open>prove\<close> succeeds exactly on a destroyed instance
  and an admissible proof (no failed disposal) about this instance and this image, and then only the
  state changes.
\<close>

theorem prove_iff:
  assumes "jl_ok l"
  shows "jl_prove l e = Inr m \<longleftrightarrow>
    jl_state l = J_DESTROYED \<and> admissible e \<and> ce_instance_id e = jl_instance_id l
    \<and> ce_image_digest e = jl_image_digest l \<and> m = l\<lparr>jl_state := J_PROVEN_CLEAN\<rparr>"
proof -
  have "J_PROVEN_CLEAN \<in> transitions (jl_state l) \<longleftrightarrow> jl_state l = J_DESTROYED"
    by (cases "jl_state l") (auto simp: terminal_job_states_def)
  moreover have "jl_ok (l\<lparr>jl_state := J_PROVEN_CLEAN\<rparr>)"
    using assms by (simp add: jl_ok_def job_named_states_def)
  ultimately show ?thesis by (auto simp: jl_prove_def jl_move_ok)
qed

text \<open>
  C37: no replacement without an accounting. Once the gate has recorded an instance as destroyed, and
  whatever it is told afterwards, as long as every proof handed to it is one a lifecycle has accepted, a
  replacement for that instance is admitted only if the gate has since then been given an admissible
  proof, with no failed disposal, or a quarantine that names the instance; the pool then gains exactly
  the new instance and still satisfies its contract: unique ids, this pool, this image, warm, at most
  \<open>warm_max\<close>.
\<close>

theorem replacement_accounted:
  assumes "gate_destroyed g iid = Inr g1" and "cleared_step\<^sup>*\<^sup>* g1 g2"
    and "admit_replacement g2 w i (Some iid) = Inr v"
  shows "accounted_since g1 g2 iid \<and> wp_instances v = wp_instances w @ [i] \<and> wp_pool v = wp_pool w \<and> warm_pool_ok v"
proof -
  have "iid \<in> set (ag_unaccounted g1)" using assms(1) by (simp add: gate_destroyed_ok)
  then have "custody g1 iid g1" by (simp add: custody_def)
  then have "iid \<in> set (ag_unaccounted g2) \<or> accounted_since g1 g2 iid"
    using gate.reachable_keeps [OF assms(2)] by (simp add: custody_def)
  then show ?thesis using assms(3) by (auto simp: admit_replacement_ok)
qed

end
