(* ===== verification/Fleet_Containers.thy ===== *)
theory Fleet_Containers
  imports Fleet_Adapters Complex_Main
begin

text \<open>
  The job container of \<open>fleet_manager/adapters.py\<close>: resource limits as Python numbers, with what
  \<open>float()\<close>, \<open>int()\<close> and the \<open>g\<close> format make of them, and the command line of one ephemeral
  instance.
\<close>

section \<open>Python numbers\<close>

text \<open>
  What a limit may be given: nothing, a bool, an int, a float by the rational it denotes (zero has
  one sign), an infinity, not-a-number, or a value of another type, by its type name.
\<close>

datatype number = NNone | NBool bool | NInt int | NFloat rat | NInf | NNan | NOther string

text \<open>The integer nearest to a quotient, ties to even.\<close>

definition round_div :: "nat \<Rightarrow> nat \<Rightarrow> nat" where
  "round_div a b =
     (let q = a div b; r = a mod b in
      if 2 * r > b \<or> (2 * r = b \<and> odd q) then q + 1 else q)"

fun excess_bits :: "nat \<Rightarrow> nat" where
  "excess_bits n = (if n < 2 ^ 53 then 0 else Suc (excess_bits (n div 2)))"

declare excess_bits.simps [simp del]

text \<open>\<open>float(i)\<close>: 53 bits, ties to even, \<open>OverflowError\<close> beyond the largest double.\<close>

definition int_to_float :: "int \<Rightarrow> rat res" where
  "int_to_float i =
     (let n = nat \<bar>i\<bar>; k = excess_bits n; m = round_div n (2 ^ k) * 2 ^ k in
      if m \<ge> 2 ^ 1024 then raise PyOverflowError ''int too large to convert to float''
      else Inr (of_int (sgn i) * of_nat m))"

fun decimal_exponent :: "nat \<Rightarrow> nat \<Rightarrow> nat \<Rightarrow> int \<Rightarrow> nat \<times> nat \<times> int" where
  "decimal_exponent 0 p q e = (p, q, e)"
| "decimal_exponent (Suc fuel) p q e =
     (if 10 * q \<le> p then decimal_exponent fuel p (10 * q) (e + 1)
      else if p < q then decimal_exponent fuel (10 * p) q (e - 1)
      else (p, q, e))"

definition strip_zeros :: "string \<Rightarrow> string" where
  "strip_zeros s = rev (dropWhile (\<lambda>c. c = CHR ''0'') (rev s))"

definition with_point :: "string \<Rightarrow> string \<Rightarrow> string" where
  "with_point whole fraction =
     (let f = strip_zeros fraction in if f = [] then whole else whole @ ''.'' @ f)"

text \<open>
  \<open>format(x, "g")\<close> of a finite double: six significant digits, ties to even; a double lies between
  \<open>1e-324\<close> and \<open>1e309\<close>, so 400 steps find its decimal exponent.
\<close>

definition format_g :: "rat \<Rightarrow> string" where
  "format_g r =
     (if r = 0 then ''0''
      else
        let (num, den) = quotient_of r;
            (p, q, e0) = decimal_exponent 400 (nat \<bar>num\<bar>) (nat den) 0;
            d0 = round_div (p * 10 ^ 5) q;
            (d, e) = (if d0 = 10 ^ 6 then (10 ^ 5, e0 + 1) else (d0, e0));
            ds = zpad 6 d;
            body =
              (if e < -4 \<or> 6 \<le> e
               then with_point (take 1 ds) (drop 1 ds) @ ''e'' @ (if e < 0 then ''-'' else ''+'')
                    @ (if \<bar>e\<bar> < 10 then ''0'' else []) @ nat_str (nat \<bar>e\<bar>)
               else if 0 \<le> e then with_point (take (nat e + 1) ds) (drop (nat e + 1) ds)
               else with_point ''0'' (replicate (nat (- e) - 1) (CHR ''0'') @ ds))
        in (if r < 0 then ''-'' else []) @ body)"

section \<open>Resource limits\<close>

definition max_memory_mib :: rat where
  "max_memory_mib = 65536"

definition max_cpus :: rat where
  "max_cpus = 32"

definition max_pids :: rat where
  "max_pids = 4096"

definition check_limit :: "string \<Rightarrow> rat \<Rightarrow> bool \<Rightarrow> rat \<Rightarrow> rat res" where
  "check_limit w maximum integral x =
     (if x \<le> 0 then contract_error (w @ '': must be positive, got '' @ format_g x)
      else if integral \<and> x \<noteq> of_int \<lfloor>x\<rfloor>
      then contract_error (w @ '': must be a whole number, got '' @ format_g x)
      else if x > maximum
      then contract_error (w @ '': '' @ format_g x @ '' exceeds the maximum '' @ format_g maximum)
      else Inr x)"

definition limit :: "number \<Rightarrow> string \<Rightarrow> rat \<Rightarrow> bool \<Rightarrow> rat res" where
  "limit v w maximum integral =
     (let not_number = (\<lambda>t. contract_error (w @ '': must be a number, not '' @ t)) in
      case v of
        NNone \<Rightarrow> contract_error (w @ '': is required -- a job container without it is unbounded'')
      | NBool b \<Rightarrow> not_number ''bool''
      | NOther t \<Rightarrow> not_number t
      | NInf \<Rightarrow> contract_error (w @ '': must be finite'')
      | NNan \<Rightarrow> contract_error (w @ '': must be finite'')
      | NInt i \<Rightarrow> bindR (int_to_float i) (check_limit w maximum integral)
      | NFloat r \<Rightarrow> check_limit w maximum integral r)"

record resource_limits =
  memory_mib :: number
  cpus :: number
  pids :: number

definition resource_limits_make :: "number \<Rightarrow> number \<Rightarrow> number \<Rightarrow> resource_limits res" where
  "resource_limits_make m c p =
     bindR (limit m ''resource_limits.memory_mib'' max_memory_mib True) (\<lambda>_.
     bindR (limit c ''resource_limits.cpus'' max_cpus False) (\<lambda>_.
     bindR (limit p ''resource_limits.pids'' max_pids True) (\<lambda>_.
       Inr \<lparr>memory_mib = m, cpus = c, pids = p\<rparr>)))"

text \<open>The value of a number that passed the checks, and \<open>int()\<close> of it.\<close>

fun number_value :: "number \<Rightarrow> rat" where
  "number_value (NInt i) = (case int_to_float i of Inr r \<Rightarrow> r | Inl e \<Rightarrow> 0)"
| "number_value (NFloat r) = r"
| "number_value v = 0"

fun number_int :: "number \<Rightarrow> int" where
  "number_int (NInt i) = i"
| "number_int (NFloat r) = (if r < 0 then \<lceil>r\<rceil> else \<lfloor>r\<rfloor>)"
| "number_int v = 0"

definition limit_arguments :: "resource_limits \<Rightarrow> string list" where
  "limit_arguments l =
     [''--memory'', int_str (number_int (memory_mib l)) @ ''m'', ''--cpus'', format_g (number_value (cpus l)),
      ''--pids-limit'', int_str (number_int (pids l))]"

section \<open>One job's container\<close>

record ephemeral_instance =
  ei_instance_id :: string
  ei_pool_id :: string
  ei_image_digest :: string
  ei_registration_env_file :: string
  ei_runtime :: runtime
  ei_limits :: resource_limits

text \<open>\<open>remove_on_exit\<close> must be \<open>True\<close> and \<open>work_dir\<close> must be \<open>None\<close>, so the record keeps neither.\<close>

definition check_env_file :: "pyval \<Rightarrow> string res" where
  "check_env_file v =
     (let w = ''ephemeral_instance.registration_env_file: '';
          shape = contract_error (w @ ''must be a non-empty path to a file the host owns'') in
      case v of
        PStr path \<Rightarrow>
          if path = [] then shape
          else if list_ex (\<lambda>c. c \<in> set path) [newline, CHR 0x0D, CHR 0x00, CHR ''='']
          then contract_error (w @ ''must be a path, not an environment assignment'')
          else if secret_shaped path
          then contract_error (w @ ''looks like it carries a credential; the value is withheld, not echoed'')
          else Inr path
      | _ \<Rightarrow> shape)"

definition ephemeral_instance_make ::
  "pyval \<Rightarrow> pyval \<Rightarrow> pyval \<Rightarrow> pyval \<Rightarrow> runtime \<Rightarrow> resource_limits \<Rightarrow> pyval \<Rightarrow> pyval
   \<Rightarrow> ephemeral_instance res" where
  "ephemeral_instance_make iid pid img env rt lims remove work =
     bindR (identifier_checked iid ''ephemeral_instance.instance_id'') (\<lambda>i.
     bindR (identifier_checked pid ''ephemeral_instance.pool_id'') (\<lambda>p.
     bindR (adapter_digest img ''ephemeral_instance.image_digest'') (\<lambda>d.
     bindR (if remove \<noteq> PBool True
            then contract_error (''ephemeral_instance.remove_on_exit: must be true -- a job container ''
                   @ ''that outlives its job is the used filesystem RUN-001 forbids'') else Inr ()) (\<lambda>_.
     bindR (if work \<noteq> PNone
            then contract_error (''ephemeral_instance.work_dir: must be None (anonymous); a named ''
                   @ ''work directory is a job filesystem that survives the job'') else Inr ()) (\<lambda>_.
     bindR (check_env_file env) (\<lambda>path.
       Inr \<lparr>ei_instance_id = i, ei_pool_id = p, ei_image_digest = d, ei_registration_env_file = path,
            ei_runtime = rt, ei_limits = lims\<rparr>))))))"

definition ei_image :: "ephemeral_instance \<Rightarrow> string res" where
  "ei_image e = image_reference (PStr (ei_image_digest e))"

definition ei_command :: "ephemeral_instance \<Rightarrow> string list res" where
  "ei_command e =
     bindR (ei_image e) (\<lambda>img.
       Inr ([runtime_value (ei_runtime e), ''run'', ''--rm'', ''--name'', ei_instance_id e, ''--label'',
             ''devgate.pool='' @ ei_pool_id e]
            @ limit_arguments (ei_limits e)
            @ [''--env'', ''EPHEMERAL=true'', ''--env-file'', ei_registration_env_file e, img]))"

section \<open>Properties\<close>

lemma excess_bits_small: "n < 2 ^ 53 \<Longrightarrow> excess_bits n = 0"
  by (simp add: excess_bits.simps [of n])

lemma excess_bits_large: "2 ^ 53 \<le> n \<Longrightarrow> 2 ^ 52 \<le> n div 2 ^ excess_bits n"
proof (induction n rule: excess_bits.induct)
  case (1 n)
  have step: "excess_bits n = Suc (excess_bits (n div 2))" using 1(2) by (subst excess_bits.simps) simp
  show ?case
  proof (cases "n div 2 < 2 ^ 53")
    case True
    then show ?thesis using 1(2) by (simp add: step excess_bits_small)
  next
    case False
    then show ?thesis using 1(1) 1(2) by (simp add: step div_mult2_eq)
  qed
qed

lemma round_div_ge: "a div b \<le> round_div a b"
  by (simp add: round_div_def Let_def)

lemma int_to_float_small: "\<bar>i\<bar> < 2 ^ 53 \<Longrightarrow> int_to_float i = Inr (of_int i)"
proof -
  assume "\<bar>i\<bar> < 2 ^ 53"
  then have n: "nat \<bar>i\<bar> < 2 ^ 53" by (simp add: nat_less_iff)
  then have "nat \<bar>i\<bar> < (2::nat) ^ 1024"
    by (rule less_le_trans) (rule power_increasing, simp_all)
  then have "\<not> (2::nat) ^ 1024 \<le> nat \<bar>i\<bar>" by (simp only: not_le)
  moreover have "of_int (sgn i) * of_nat (nat \<bar>i\<bar>) = (of_int i :: rat)"
    by (metis mult_sgn_abs of_int_mult of_nat_nat abs_ge_zero)
  ultimately show ?thesis
    by (simp only: int_to_float_def Let_def excess_bits_small [OF n]) (simp add: round_div_def)
qed

lemma int_to_float_large:
  assumes "2 ^ 53 \<le> i" and "int_to_float i = Inr r"
  shows "2 ^ 52 \<le> r"
proof -
  let ?n = "nat \<bar>i\<bar>"
  have n: "2 ^ 53 \<le> ?n" using assms(1) by (simp add: nat_le_eq_zle le_nat_iff)
  have "2 ^ 52 \<le> round_div ?n (2 ^ excess_bits ?n)"
    using excess_bits_large [OF n] round_div_ge le_trans by blast
  then have "(2::nat) ^ 52 \<le> round_div ?n (2 ^ excess_bits ?n) * 2 ^ excess_bits ?n"
    using mult_le_mono [of "2 ^ 52" "round_div ?n (2 ^ excess_bits ?n)" 1 "2 ^ excess_bits ?n"] by (simp only: mult_1_right one_le_power one_le_numeral)
  then have m: "(2::rat) ^ 52 \<le> of_nat (round_div ?n (2 ^ excess_bits ?n) * 2 ^ excess_bits ?n)"
    by (metis of_nat_le_iff of_nat_numeral of_nat_power)
  have "sgn i = 1" using assms(1) by simp
  then have "r = of_nat (round_div ?n (2 ^ excess_bits ?n) * 2 ^ excess_bits ?n)"
    using assms(2) by (simp only: int_to_float_def Let_def) (simp add: raise_def split: if_splits)
  then show ?thesis using m by (simp only:)
qed

lemma int_to_float_negative:
  assumes "i \<le> 0" and "int_to_float i = Inr r"
  shows "r \<le> 0"
proof -
  define m where "m = round_div (nat \<bar>i\<bar>) (2 ^ excess_bits (nat \<bar>i\<bar>)) * 2 ^ excess_bits (nat \<bar>i\<bar>)"
  have "r = of_int (sgn i) * of_nat m"
    using assms(2) unfolding int_to_float_def Let_def m_def [symmetric] by (simp add: raise_def split: if_splits)
  moreover have "sgn i \<le> 0" using assms(1) by (simp add: sgn_if)
  ultimately show ?thesis by (simp add: mult_nonpos_nonneg)
qed

text \<open>Within a bound below \<open>2 ^ 53\<close> the conversion is exact.\<close>

lemma int_to_float_exact:
  assumes "int_to_float i = Inr r" and "0 < r" and "r < 2 ^ 52"
  shows "r = of_int i"
proof -
  have "\<not> 2 ^ 53 \<le> i" using int_to_float_large [of i r] assms by force
  moreover have "0 < i" using int_to_float_negative [of i r] assms by force
  ultimately have "\<bar>i\<bar> < 2 ^ 53" by simp
  then show ?thesis using int_to_float_small assms(1) by simp
qed

lemma check_limit_iff:
  "check_limit w mx integral x = Inr y \<longleftrightarrow> y = x \<and> 0 < x \<and> x \<le> mx \<and> (integral \<longrightarrow> x = of_int \<lfloor>x\<rfloor>)"
  by (auto simp: check_limit_def contract_error_def raise_def not_le not_less)

lemma limit_number:
  assumes "limit v w mx integral = Inr x" and "mx < 2 ^ 52"
  shows "0 < x" and "x \<le> mx" and "number_value v = x" and "integral \<Longrightarrow> of_int (number_int v) = x"
proof -
  have x: "(\<exists>i. v = NInt i \<and> int_to_float i = Inr x) \<or> v = NFloat x" and c: "check_limit w mx integral x = Inr x"
    using assms(1)
    by (auto simp: limit_def Let_def contract_error_def raise_def check_limit_iff bindR_Inr_iff split: number.splits sum.splits)
  then show b: "0 < x" "x \<le> mx" by (simp_all add: check_limit_iff)
  show "number_value v = x" using x by auto
  assume integral
  then have w: "x = of_int \<lfloor>x\<rfloor>" using c by (simp add: check_limit_iff)
  from x show "of_int (number_int v) = x"
  proof
    assume "\<exists>i. v = NInt i \<and> int_to_float i = Inr x"
    then show ?thesis using int_to_float_exact b assms(2) by force
  next
    assume "v = NFloat x"
    then show ?thesis using b w by simp
  qed
qed

text \<open>C39: A job container's limits are bounded as they reach the container runtime: whatever numbers
  the limits were given as, once they are accepted the \<open>--memory\<close>, \<open>--cpus\<close> and \<open>--pids-limit\<close>
  arguments carry a whole memory between 1 and 65536 MiB, a positive cpu share of at most 32, and a
  whole process count between 1 and 4096 -- the conversion to \<open>float\<close> on the way loses nothing.\<close>

theorem container_limits_bounded:
  assumes "resource_limits_make m c p = Inr l"
  shows "\<exists>mem procs share. limit_arguments l =
           [''--memory'', int_str mem @ ''m'', ''--cpus'', format_g share, ''--pids-limit'', int_str procs]
         \<and> 1 \<le> mem \<and> mem \<le> 65536 \<and> 0 < share \<and> share \<le> 32 \<and> 1 \<le> procs \<and> procs \<le> 4096"
proof -
  obtain x y z where
      x: "limit m ''resource_limits.memory_mib'' max_memory_mib True = Inr x"
    and y: "limit c ''resource_limits.cpus'' max_cpus False = Inr y"
    and z: "limit p ''resource_limits.pids'' max_pids True = Inr z"
    and l: "l = \<lparr>memory_mib = m, cpus = c, pids = p\<rparr>"
    using assms by (auto simp: resource_limits_make_def bindR_Inr_iff)
  have small: "max_memory_mib < 2 ^ 52" "max_cpus < 2 ^ 52" "max_pids < 2 ^ 52"
    by (simp_all add: max_memory_mib_def max_cpus_def max_pids_def)
  note mx = limit_number [OF x small(1)] and my = limit_number [OF y small(2)] and mz = limit_number [OF z small(3)]
  have "(0::rat) < of_int (number_int m)" "of_int (number_int m) \<le> (65536::rat)"
    using mx by (simp_all add: max_memory_mib_def)
  moreover have "(0::rat) < of_int (number_int p)" "of_int (number_int p) \<le> (4096::rat)"
    using mz by (simp_all add: max_pids_def)
  moreover have "0 < number_value c" "number_value c \<le> 32" using my by (simp_all add: max_cpus_def)
  ultimately show ?thesis using l
    by (intro exI [of _ "number_int m"] exI [of _ "number_int p"] exI [of _ "number_value c"])
       (simp add: limit_arguments_def)
qed

end
