(* ===== verification/Fleet_Reconcile.thy ===== *)
theory Fleet_Reconcile
  imports Fleet_Plan "HOL-Library.Sublist" "HOL-Library.Multiset"
begin

text \<open>
  Host reports (\<open>fleet_manager/observation.py\<close>) and reconciliation
  (\<open>fleet_manager/reconcile.py\<close>): drifts, convergence limits, the candidate loop, the bounded
  split of candidates into submitted and deferred work, and the report documents. The dictionary of
  observed counts is the list of observed (host, pool) pairs with its counts.
\<close>

section \<open>Observations\<close>

definition observation_error :: "string \<Rightarrow> 'a res" where
  "observation_error m = raise ObservationError m"

definition obs_identifier :: "pyval \<Rightarrow> string \<Rightarrow> string res" where
  "obs_identifier v w =
     (case v of
        PStr s \<Rightarrow> if is_identifier s then Inr s else observation_error (w @ '': must be a lowercase identifier'')
      | _ \<Rightarrow> observation_error (w @ '': must be a lowercase identifier''))"

definition obs_text :: "pyval \<Rightarrow> string \<Rightarrow> string res" where
  "obs_text v m = (case v of PStr s \<Rightarrow> if s = [] then observation_error m else Inr s | _ \<Rightarrow> observation_error m)"

definition obs_optional :: "pyval \<Rightarrow> string \<Rightarrow> string option res" where
  "obs_optional v m = (if v = PNone then Inr None else bindR (obs_text v m) (\<lambda>s. Inr (Some s)))"

record observed_runner =
  or_runner_id :: string
  or_pool_id :: string
  or_started_at :: string
  or_job_id :: "string option"

definition observed_runner_make :: "pyval \<Rightarrow> pyval \<Rightarrow> pyval \<Rightarrow> pyval \<Rightarrow> observed_runner res" where
  "observed_runner_make rid pid started job =
     bindR (obs_identifier rid ''observed_runner.runner_id'') (\<lambda>r.
     bindR (obs_identifier pid ''observed_runner.pool_id'') (\<lambda>p.
     bindR (obs_text started ''observed_runner.started_at: must be a timestamp string'') (\<lambda>s.
     bindR (obs_optional job ''observed_runner.job_id: must be a non-empty string'') (\<lambda>j.
       Inr \<lparr>or_runner_id = r, or_pool_id = p, or_started_at = s, or_job_id = j\<rparr>))))"

record observation =
  ob_host_id :: string
  ob_observed_at :: string
  ob_runners :: "observed_runner list"
  ob_agent_version :: "string option"

definition observation_make :: "pyval \<Rightarrow> pyval \<Rightarrow> observed_runner list \<Rightarrow> pyval \<Rightarrow> observation res" where
  "observation_make hid at runners version =
     bindR (obs_identifier hid ''observation.host_id'') (\<lambda>h.
     bindR (obs_text at ''observation.observed_at: must be a timestamp string'') (\<lambda>t.
     bindR (obs_optional version ''observation.agent_version: must be a non-empty string'') (\<lambda>v.
       Inr \<lparr>ob_host_id = h, ob_observed_at = t, ob_runners = runners, ob_agent_version = v\<rparr>)))"

definition runner_count :: "observation \<Rightarrow> nat" where
  "runner_count o' = length (ob_runners o')"

section \<open>Drifts, limits, deferrals\<close>

definition reconcile_error :: "string \<Rightarrow> 'a res" where
  "reconcile_error m = raise ReconcileError m"

fun candidate_order :: "change_kind \<Rightarrow> nat" where
  "candidate_order COMPLETE_DRAIN = 0"
| "candidate_order RETURN_TO_SERVICE = 1"
| "candidate_order DRAIN = 2"
| "candidate_order RELEASE = 3"
| "candidate_order ROLLOUT = 4"
| "candidate_order ASSIGN = 5"

datatype drift_kind =
  WARM_SHORTFALL | UNMANAGED_RUNNER | UNKNOWN_HOST | HOST_NOT_REPORTING | DRAIN_COMPLETABLE | DRAIN_BLOCKED

fun drift_kind_value :: "drift_kind \<Rightarrow> string" where
  "drift_kind_value WARM_SHORTFALL = ''warm_shortfall''"
| "drift_kind_value UNMANAGED_RUNNER = ''unmanaged_runner''"
| "drift_kind_value UNKNOWN_HOST = ''unknown_host''"
| "drift_kind_value HOST_NOT_REPORTING = ''host_not_reporting''"
| "drift_kind_value DRAIN_COMPLETABLE = ''drain_completable''"
| "drift_kind_value DRAIN_BLOCKED = ''drain_blocked''"

record drift =
  dr_kind :: drift_kind
  dr_host_id :: "string option"
  dr_pool_id :: "string option"
  dr_count :: int
  dr_reason :: string

definition drift_make :: "drift_kind \<Rightarrow> string option \<Rightarrow> string option \<Rightarrow> int \<Rightarrow> string \<Rightarrow> drift res" where
  "drift_make k h p n reason =
     bindR (case h of None \<Rightarrow> Inr [] | Some x \<Rightarrow> identifier_of (PStr x) ''drift.host_id'') (\<lambda>_.
     bindR (case p of None \<Rightarrow> Inr [] | Some x \<Rightarrow> identifier_of (PStr x) ''drift.pool_id'') (\<lambda>_.
     bindR (if n < 0 then reconcile_error ''drift.count: must be an integer >= 0'' else Inr ()) (\<lambda>_.
       Inr \<lparr>dr_kind = k, dr_host_id = h, dr_pool_id = p, dr_count = n, dr_reason = reason\<rparr>)))"

definition or_empty :: "string option \<Rightarrow> string" where
  "or_empty x = (case x of None \<Rightarrow> [] | Some s \<Rightarrow> s)"

definition drift_key :: "drift \<Rightarrow> string \<times> string \<times> string" where
  "drift_key d = (drift_kind_value (dr_kind d), or_empty (dr_host_id d), or_empty (dr_pool_id d))"

definition drift_document :: "drift \<Rightarrow> pyval" where
  "drift_document d = PDict
     [(''kind'', PStr (drift_kind_value (dr_kind d))), (''host_id'', opt_str (dr_host_id d)),
      (''pool_id'', opt_str (dr_pool_id d)), (''count'', PInt (dr_count d)), (''reason'', PStr (dr_reason d))]"

record convergence_limits =
  max_drains :: int
  max_replacements :: int
  max_host_mutations :: int

definition limits_make :: "int \<Rightarrow> int \<Rightarrow> int \<Rightarrow> convergence_limits res" where
  "limits_make d r h =
     bindR (run_checks
       [(0 \<le> d, Exn ReconcileError ''convergence_limits.max_drains: must be an integer >= 0''),
        (0 \<le> r, Exn ReconcileError ''convergence_limits.max_replacements: must be an integer >= 0''),
        (0 \<le> h, Exn ReconcileError ''convergence_limits.max_host_mutations: must be an integer >= 0'')]) (\<lambda>_.
       Inr \<lparr>max_drains = d, max_replacements = r, max_host_mutations = h\<rparr>)"

definition limits_document :: "convergence_limits \<Rightarrow> pyval" where
  "limits_document l = PDict
     [(''max_drains'', PInt (max_drains l)), (''max_replacements'', PInt (max_replacements l)),
      (''max_host_mutations'', PInt (max_host_mutations l))]"

record deferred =
  df_change :: change
  df_reason :: string

definition deferred_make :: "change \<Rightarrow> string \<Rightarrow> deferred res" where
  "deferred_make c reason =
     (if reason = [] then reconcile_error ''deferred.reason: must be a non-empty string''
      else Inr \<lparr>df_change = c, df_reason = reason\<rparr>)"

definition deferred_document :: "deferred \<Rightarrow> pyval" where
  "deferred_document d =
     PDict [(''change'', change_document (df_change d)), (''reason'', PStr (df_reason d))]"

section \<open>Bounded convergence\<close>

definition needed_parameters :: "change_kind \<Rightarrow> string list" where
  "needed_parameters k =
     (case k of
        ASSIGN \<Rightarrow> [''assignment_id'', ''request_id'', ''pool_id'', ''host_id'']
      | DRAIN \<Rightarrow> [''reason'']
      | ROLLOUT \<Rightarrow> [''rollout_id'', ''to_image_digest'']
      | _ \<Rightarrow> [])"

definition candidate_key :: "change \<Rightarrow> nat \<times> string \<times> (string \<times> string) list" where
  "candidate_key c = (candidate_order (ch_kind c), ch_subject c, sort (ch_parameters c))"

definition check_candidate :: "nat \<Rightarrow> change \<Rightarrow> change res" where
  "check_candidate i c =
     bindR (mapR (\<lambda>name. if name \<in> fst ` set (ch_parameters c) then Inr name
                   else reconcile_error (''bound_candidates.candidates['' @ nat_str i @ '']: ''
                          @ change_kind_value (ch_kind c) @ '' needs '' @ name))
             (needed_parameters (ch_kind c))) (\<lambda>_. Inr c)"

definition validated_candidates :: "change list \<Rightarrow> change list res" where
  "validated_candidates cs =
     bindR (eachR check_candidate 0 cs) (\<lambda>checked. Inr (sort_key candidate_key checked))"

definition disrupted_pools :: "desired_state \<Rightarrow> change \<Rightarrow> string list" where
  "disrupted_pools s c =
     (case ch_kind c of
        ASSIGN \<Rightarrow> (case parameter c ''pool_id'' of Inr p \<Rightarrow> [p] | Inl _ \<Rightarrow> [])
      | RELEASE \<Rightarrow> (case ds_assignment s (ch_subject c) of Inr a \<Rightarrow> [a_pool_id a] | Inl _ \<Rightarrow> [])
      | ROLLOUT \<Rightarrow> [ch_subject c]
      | _ \<Rightarrow> (case ds_host s (ch_subject c) of Inr h \<Rightarrow> h_allowed_pools h | Inl _ \<Rightarrow> []))"

definition budget_of :: "desired_state \<Rightarrow> string \<Rightarrow> int option" where
  "budget_of s pid =
     map_option (\<lambda>p. max_parallel (p_disruption_budget p)) (find (\<lambda>p. p_pool_id p = pid) (ds_pools s))"

record usage =
  u_drains :: int
  u_replacements :: int
  u_host_mutations :: int
  u_per_pool :: "string \<Rightarrow> int"

definition no_usage :: usage where
  "no_usage = \<lparr>u_drains = 0, u_replacements = 0, u_host_mutations = 0, u_per_pool = (\<lambda>_. 0)\<rparr>"

text \<open>The first pool whose budget is used up, with the budget.\<close>

definition spent_pool :: "desired_state \<Rightarrow> usage \<Rightarrow> string list \<Rightarrow> (string \<times> int) option" where
  "spent_pool s u pools =
     (case find (\<lambda>p. case budget_of s p of None \<Rightarrow> False | Some b \<Rightarrow> u_per_pool u p \<ge> b) pools of
        None \<Rightarrow> None | Some p \<Rightarrow> Some (p, the (budget_of s p)))"

definition exhausted ::
  "desired_state \<Rightarrow> change \<Rightarrow> usage \<Rightarrow> convergence_limits \<Rightarrow> bool \<Rightarrow> string option res" where
  "exhausted s c u l halted =
     (if halted then Inr (Some ''the reconciler is halted; no new mutation is submitted'')
      else if ch_kind c \<in> {DRAIN, COMPLETE_DRAIN} \<and> u_drains u \<ge> max_drains l
      then Inr (Some (''the drain cap ('' @ int_str (max_drains l) @ '') is used by this batch''))
      else if ch_kind c = ROLLOUT \<and> u_replacements u \<ge> max_replacements l
      then Inr (Some (''the replacement cap ('' @ int_str (max_replacements l) @ '') is used by this batch''))
      else bindR (host_of c) (\<lambda>h.
        if h \<noteq> None \<and> u_host_mutations u \<ge> max_host_mutations l
        then Inr (Some (''the host-mutation cap ('' @ int_str (max_host_mutations l) @ '') is used by this batch''))
        else if ch_destructive c
        then (case spent_pool s u (disrupted_pools s c) of
                None \<Rightarrow> Inr None
              | Some (p, b) \<Rightarrow> Inr (Some (''pool '' @ p @ '' disruption budget ('' @ int_str b
                     @ '') is used by this batch'')))
        else Inr None))"

definition charge_pool :: "string \<Rightarrow> usage \<Rightarrow> usage" where
  "charge_pool p u = u\<lparr>u_per_pool := (u_per_pool u)(p := u_per_pool u p + 1)\<rparr>"

definition charge :: "desired_state \<Rightarrow> change \<Rightarrow> usage \<Rightarrow> usage res" where
  "charge s c u =
     bindR (host_of c) (\<lambda>h.
       let u1 = (if ch_kind c \<in> {DRAIN, COMPLETE_DRAIN} then u\<lparr>u_drains := u_drains u + 1\<rparr> else u);
           u2 = (if ch_kind c = ROLLOUT then u1\<lparr>u_replacements := u_replacements u1 + 1\<rparr> else u1);
           u3 = (if h \<noteq> None then u2\<lparr>u_host_mutations := u_host_mutations u2 + 1\<rparr> else u2)
       in Inr (if ch_destructive c then fold charge_pool (disrupted_pools s c) u3 else u3))"

fun bound_loop ::
  "desired_state \<Rightarrow> convergence_limits \<Rightarrow> bool \<Rightarrow> change list \<Rightarrow> usage
   \<Rightarrow> (change list \<times> deferred list) res" where
  "bound_loop s l halted [] u = Inr ([], [])"
| "bound_loop s l halted (c # cs) u =
     bindR (exhausted s c u l halted) (\<lambda>reason.
       case reason of
         Some r \<Rightarrow>
           bindR (deferred_make c r) (\<lambda>d.
           bindR (bound_loop s l halted cs u) (\<lambda>(sub, def). Inr (sub, d # def)))
       | None \<Rightarrow>
           bindR (charge s c u) (\<lambda>u2.
           bindR (bound_loop s l halted cs u2) (\<lambda>(sub, def). Inr (c # sub, def))))"

definition bound_candidates ::
  "desired_state \<Rightarrow> change list \<Rightarrow> convergence_limits \<Rightarrow> bool \<Rightarrow> (change list \<times> deferred list) res" where
  "bound_candidates s cs l halted =
     bindR (validated_candidates cs) (\<lambda>ordered. bound_loop s l halted ordered no_usage)"

section \<open>What the bounds guarantee\<close>

definition is_drain_change :: "change \<Rightarrow> bool" where
  "is_drain_change c \<longleftrightarrow> ch_kind c \<in> {DRAIN, COMPLETE_DRAIN}"

definition is_replacement :: "change \<Rightarrow> bool" where
  "is_replacement c \<longleftrightarrow> ch_kind c = ROLLOUT"

definition touches_host :: "change \<Rightarrow> bool" where
  "touches_host c \<longleftrightarrow> ch_kind c \<in> {ASSIGN, DRAIN, COMPLETE_DRAIN, RETURN_TO_SERVICE}"

definition disrupts :: "desired_state \<Rightarrow> string \<Rightarrow> change \<Rightarrow> bool" where
  "disrupts s p c \<longleftrightarrow> ch_destructive c \<and> p \<in> set (disrupted_pools s c)"

lemma reconcile_error_Inr [simp]: "reconcile_error m \<noteq> Inr a" "Inr a \<noteq> reconcile_error m"
  by (simp_all add: reconcile_error_def)

lemma host_of_Some: "host_of c = Inr h \<Longrightarrow> h \<noteq> None \<longleftrightarrow> touches_host c"
  by (auto simp: host_of_def touches_host_def bindR_Inr_iff split: change_kind.splits)

lemma fold_charge_pool: "fold charge_pool ps u =
  u\<lparr>u_per_pool := \<lambda>p. u_per_pool u p + int (count_list ps p)\<rparr>"
  by (induction ps arbitrary: u) (auto simp: charge_pool_def fun_eq_iff)

lemma charge_ok:
  assumes "host_of c = Inr h"
  shows "charge s c u = Inr
     \<lparr>u_drains = u_drains u + (if is_drain_change c then 1 else 0),
      u_replacements = u_replacements u + (if is_replacement c then 1 else 0),
      u_host_mutations = u_host_mutations u + (if touches_host c then 1 else 0),
      u_per_pool = (\<lambda>p. u_per_pool u p
        + (if ch_destructive c then int (count_list (disrupted_pools s c) p) else 0))\<rparr>"
proof -
  have t: "(h \<noteq> None) = touches_host c" using host_of_Some [OF assms] .
  show ?thesis
    unfolding charge_def assms bindR_Inr t Let_def fold_charge_pool is_drain_change_def [symmetric]
      is_replacement_def [symmetric]
    by (cases u) simp
qed

lemma charge_counts:
  assumes "charge s c u = Inr v"
  shows "u_drains v = u_drains u + (if is_drain_change c then 1 else 0)"
    and "u_replacements v = u_replacements u + (if is_replacement c then 1 else 0)"
    and "u_host_mutations v = u_host_mutations u + (if touches_host c then 1 else 0)"
    and "u_per_pool v p = u_per_pool u p
           + (if ch_destructive c then int (count_list (disrupted_pools s c) p) else 0)"
proof -
  obtain h where "host_of c = Inr h" using assms by (auto simp: charge_def bindR_Inr_iff)
  then have "v = \<lparr>u_drains = u_drains u + (if is_drain_change c then 1 else 0),
      u_replacements = u_replacements u + (if is_replacement c then 1 else 0),
      u_host_mutations = u_host_mutations u + (if touches_host c then 1 else 0),
      u_per_pool = (\<lambda>p. u_per_pool u p
        + (if ch_destructive c then int (count_list (disrupted_pools s c) p) else 0))\<rparr>"
    using assms charge_ok [of c h s u] by simp
  then show "u_drains v = u_drains u + (if is_drain_change c then 1 else 0)"
    and "u_replacements v = u_replacements u + (if is_replacement c then 1 else 0)"
    and "u_host_mutations v = u_host_mutations u + (if touches_host c then 1 else 0)"
    and "u_per_pool v p = u_per_pool u p
           + (if ch_destructive c then int (count_list (disrupted_pools s c) p) else 0)"
    by simp_all
qed

lemma spent_pool_None: "spent_pool s u ps = None \<longleftrightarrow>
  (\<forall>p \<in> set ps. \<forall>b. budget_of s p = Some b \<longrightarrow> u_per_pool u p < b)"
proof -
  define spent where "spent p = (case budget_of s p of None \<Rightarrow> False | Some b \<Rightarrow> b \<le> u_per_pool u p)" for p
  have "spent_pool s u ps = None \<longleftrightarrow> List.find spent ps = None"
    by (simp add: spent_pool_def spent_def [abs_def] split: option.split)
  moreover have "\<not> spent p \<longleftrightarrow> (\<forall>b. budget_of s p = Some b \<longrightarrow> u_per_pool u p < b)" for p
    by (cases "budget_of s p") (simp_all add: spent_def not_le)
  ultimately show ?thesis by (simp add: find_None_iff Ball_def)
qed

lemma exhausted_None:
  "exhausted s c u l halted = Inr None \<longleftrightarrow>
     \<not> halted \<and> (is_drain_change c \<longrightarrow> u_drains u < max_drains l)
     \<and> (is_replacement c \<longrightarrow> u_replacements u < max_replacements l)
     \<and> (\<exists>h. host_of c = Inr h) \<and> (touches_host c \<longrightarrow> u_host_mutations u < max_host_mutations l)
     \<and> (ch_destructive c \<longrightarrow> spent_pool s u (disrupted_pools s c) = None)"
proof (cases "host_of c")
  case (Inl e)
  then show ?thesis by (simp add: exhausted_def)
next
  case (Inr h)
  have t: "(h \<noteq> None) = touches_host c" using host_of_Some [OF Inr] .
  show ?thesis
    unfolding exhausted_def Inr bindR_Inr t is_drain_change_def [symmetric] is_replacement_def [symmetric]
    by (cases "spent_pool s u (disrupted_pools s c)") (auto simp: not_le)
qed

lemma bound_loop_cases [consumes 1, case_names Defer Submit]:
  assumes "bound_loop s l halted (c # cs) u = Inr (sub, def)"
  obtains r ds where "exhausted s c u l halted = Inr (Some r)" "r \<noteq> []"
      "bound_loop s l halted cs u = Inr (sub, ds)" "def = \<lparr>df_change = c, df_reason = r\<rparr> # ds"
  | v ts where "exhausted s c u l halted = Inr None" "charge s c u = Inr v"
      "bound_loop s l halted cs v = Inr (ts, def)" "sub = c # ts"
proof -
  obtain reason where e: "exhausted s c u l halted = Inr reason"
    using assms by (auto simp: bindR_Inr_iff)
  show thesis
  proof (cases reason)
    case None
    then show thesis using that(2) assms e by (auto simp: bindR_Inr_iff)
  next
    case (Some r)
    then show thesis using that(1) assms e by (auto simp: bindR_Inr_iff deferred_make_def split: if_splits)
  qed
qed

text \<open>One loop over the batch keeps a counter below its cap, whichever counter it is.\<close>

lemma bound_loop_cap:
  assumes "bound_loop s l halted cs u = Inr (sub, def)"
    and "\<And>c u. exhausted s c u l halted = Inr None \<Longrightarrow> hit c \<Longrightarrow> counter u < cap"
    and "\<And>c u v. charge s c u = Inr v \<Longrightarrow> counter u + (if hit c then 1 else 0) \<le> (counter v :: int)"
  shows "int (length (filter hit sub)) + counter u \<le> max cap (counter u)"
  using assms(1)
proof (induction cs arbitrary: u sub "def")
  case Nil
  then show ?case by simp
next
  case (Cons c cs)
  from Cons.prems show ?case
  proof (cases rule: bound_loop_cases)
    case (Defer r ds)
    then show ?thesis using Cons.IH by blast
  next
    case (Submit v ts)
    then show ?thesis using Cons.IH [OF Submit(3)] assms(2) [OF Submit(1)] assms(3) [OF Submit(2)]
      by (auto split: if_splits)
  qed
qed

lemma bound_loop_splits:
  "bound_loop s l halted cs u = Inr (sub, def) \<Longrightarrow>
     mset cs = mset sub + mset (map df_change def) \<and> subseq sub cs
     \<and> (halted \<longrightarrow> sub = []) \<and> (\<forall>d \<in> set def. df_reason d \<noteq> [])"
proof (induction cs arbitrary: u sub "def")
  case Nil
  then show ?case by simp
next
  case (Cons c cs)
  from Cons.prems show ?case
  proof (cases rule: bound_loop_cases)
    case (Defer r ds)
    then show ?thesis using Cons.IH [OF Defer(3)] by (auto intro: subseq_Cons')
  next
    case (Submit v ts)
    then show ?thesis using Cons.IH [OF Submit(3)] by (auto simp: exhausted_None)
  qed
qed

lemma validated_candidates_ok:
  "validated_candidates cs = Inr os \<Longrightarrow> os = sort_key candidate_key cs"
proof -
  assume "validated_candidates cs = Inr os"
  then obtain xs where "eachR check_candidate 0 cs = Inr xs" "os = sort_key candidate_key xs"
    by (auto simp: validated_candidates_def bindR_Inr_iff)
  moreover have "check_candidate i c = Inr d \<Longrightarrow> d = c" for i c d
    by (auto simp: check_candidate_def bindR_Inr_iff)
  ultimately show ?thesis by (auto simp: eachR_same_ok)
qed

lemma bound_candidates_ok:
  "bound_candidates s cs l halted = Inr r \<Longrightarrow>
     bound_loop s l halted (sort_key candidate_key cs) no_usage = Inr r"
  by (auto simp: bound_candidates_def bindR_Inr_iff dest: validated_candidates_ok)

lemma limits_make_ok: "limits_make d r h = Inr l \<longleftrightarrow>
  0 \<le> d \<and> 0 \<le> r \<and> 0 \<le> h \<and> l = \<lparr>max_drains = d, max_replacements = r, max_host_mutations = h\<rparr>"
  by (auto simp: limits_make_def bindR_Inr_iff run_checks_ok)

lemma pool_budget_cap:
  assumes "bound_loop s l halted cs u = Inr (sub, def)" and b: "budget_of s p = Some b"
  shows "int (length (filter (disrupts s p) sub)) + u_per_pool u p \<le> max b (u_per_pool u p)"
  using assms(1)
proof (rule bound_loop_cap)
  show "u_per_pool u p < b" if "exhausted s c u l halted = Inr None" "disrupts s p c" for c u
    using that b by (auto simp: exhausted_None disrupts_def spent_pool_None)
  show "u_per_pool u p + (if disrupts s p c then 1 else 0) \<le> u_per_pool v p" if "charge s c u = Inr v" for c u v
  proof -
    have "p \<in> set ps \<Longrightarrow> 1 \<le> count_list ps p" for ps :: "string list"
      using count_list_0_iff [of ps p] by simp
    then show ?thesis using charge_counts(4) [OF that, of p] by (auto simp: disrupts_def)
  qed
qed

text \<open>C31: Bounded convergence. Splitting a batch drops nothing: the submitted and the deferred
  changes are together exactly the candidates, every deferral has a reason, and what is submitted
  keeps the documented order. No more drains, replacements and host mutations are submitted than
  their caps, no pool is disrupted by more changes than its budget, and a halted reconciler submits
  nothing.\<close>

theorem bounded_convergence:
  assumes "limits_make d r h = Inr l" and "bound_candidates s cs l halted = Inr (sub, waiting)"
  shows "mset sub + mset (map df_change waiting) = mset cs \<and> (\<forall>w \<in> set waiting. df_reason w \<noteq> [])
    \<and> subseq sub (sort_key candidate_key cs) \<and> (halted \<longrightarrow> sub = [])
    \<and> int (length (filter is_drain_change sub)) \<le> d
    \<and> int (length (filter is_replacement sub)) \<le> r
    \<and> int (length (filter touches_host sub)) \<le> h
    \<and> (\<forall>p b. budget_of s p = Some b \<and> 0 \<le> b \<longrightarrow> int (length (filter (disrupts s p) sub)) \<le> b)"
proof -
  note loop = bound_candidates_ok [OF assms(2)] and l = assms(1) [unfolded limits_make_ok]
  have "int (length (filter is_drain_change sub)) + u_drains no_usage \<le> max d (u_drains no_usage)"
    by (rule bound_loop_cap [OF loop]) (use l in \<open>auto simp: exhausted_None charge_counts\<close>)
  moreover have "int (length (filter is_replacement sub)) + u_replacements no_usage \<le> max r (u_replacements no_usage)"
    by (rule bound_loop_cap [OF loop]) (use l in \<open>auto simp: exhausted_None charge_counts\<close>)
  moreover have "int (length (filter touches_host sub)) + u_host_mutations no_usage \<le> max h (u_host_mutations no_usage)"
    by (rule bound_loop_cap [OF loop]) (use l in \<open>auto simp: exhausted_None charge_counts\<close>)
  moreover have "int (length (filter (disrupts s p) sub)) \<le> b" if "budget_of s p = Some b" "0 \<le> b" for p b
    using pool_budget_cap [OF loop that(1)] that(2) by (simp add: no_usage_def)
  ultimately show ?thesis using bound_loop_splits [OF loop] l by (simp add: no_usage_def)
qed

lemma needed_host: "ch_kind c = ASSIGN \<Longrightarrow> set (needed_parameters (ch_kind c)) \<subseteq> fst ` set (ch_parameters c) \<Longrightarrow>
  \<exists>v. parameter c ''host_id'' = Inr v"
  by (cases "map_of (ch_parameters c) ''host_id''")
    (auto simp: needed_parameters_def parameter_def map_of_eq_None_iff)

definition well_formed_candidate :: "change \<Rightarrow> bool" where
  "well_formed_candidate c \<longleftrightarrow> set (needed_parameters (ch_kind c)) \<subseteq> fst ` set (ch_parameters c)"

lemma host_of_total: "well_formed_candidate c \<Longrightarrow> \<exists>h. host_of c = Inr h"
  using needed_host [of c] by (cases "ch_kind c") (auto simp: host_of_def well_formed_candidate_def)

lemma exhausted_total: "host_of c = Inr h \<Longrightarrow> \<exists>r. exhausted s c u l halted = Inr r \<and> r \<noteq> Some []"
  by (auto simp: exhausted_def split: option.splits)

lemma bound_loop_total:
  "list_all well_formed_candidate cs \<Longrightarrow> \<exists>r. bound_loop s l halted cs u = Inr r"
proof (induction cs arbitrary: u)
  case (Cons c cs)
  then obtain h where h: "host_of c = Inr h" using host_of_total by auto
  obtain r where r: "exhausted s c u l halted = Inr r" "r \<noteq> Some []" using exhausted_total [OF h] by blast
  obtain v where v: "charge s c u = Inr v" using charge_ok [OF h] by simp
  have "\<exists>x. bound_loop s l halted cs w = Inr x" for w using Cons by simp
  then obtain x y where "bound_loop s l halted cs u = Inr x" "bound_loop s l halted cs v = Inr y" by blast
  then show ?case using r v
    by (cases r) (auto simp: deferred_make_def case_prod_beta)
qed simp

lemma check_candidate_iff: "(\<exists>d. check_candidate i c = Inr d) \<longleftrightarrow> well_formed_candidate c"
proof -
  let ?P = "\<lambda>name. name \<in> fst ` set (ch_parameters c)"
  have "(\<exists>ys. mapR (\<lambda>name. if ?P name then Inr name else reconcile_error (f name)) ns = Inr ys)
      \<longleftrightarrow> set ns \<subseteq> fst ` set (ch_parameters c)" for f ns
  proof
    assume "\<exists>ys. mapR (\<lambda>name. if ?P name then Inr name else reconcile_error (f name)) ns = Inr ys"
    then show "set ns \<subseteq> fst ` set (ch_parameters c)"
      by (auto simp: mapR_ok in_set_conv_nth split: if_splits) (metis reconcile_error_Inr(1))
  next
    assume "set ns \<subseteq> fst ` set (ch_parameters c)"
    then have "mapR (\<lambda>name. if ?P name then Inr name else reconcile_error (f name)) ns = Inr (map id ns)"
      by (intro mapR_Inr_map) auto
    then show "\<exists>ys. mapR (\<lambda>name. if ?P name then Inr name else reconcile_error (f name)) ns = Inr ys" by blast
  qed
  then show ?thesis by (simp add: check_candidate_def bindR_Inr_iff well_formed_candidate_def)
qed

lemma bound_candidates_well_formed:
  assumes "bound_candidates s cs l halted = Inr r"
  shows "list_all well_formed_candidate cs"
proof -
  obtain xs where "eachR check_candidate 0 cs = Inr xs"
    using assms by (auto simp: bound_candidates_def validated_candidates_def bindR_Inr_iff)
  then show ?thesis
    unfolding eachR_ok list_all_length by (metis add_0 check_candidate_iff)
qed

lemma bound_candidates_total:
  assumes wf: "list_all well_formed_candidate cs"
  shows "\<exists>r. bound_candidates s cs l halted = Inr r"
proof -
  have same: "check_candidate i c = Inr d \<Longrightarrow> d = c" for i c d
    by (auto simp: check_candidate_def bindR_Inr_iff)
  have "check_candidate i (cs ! i) = Inr (cs ! i)" if "i < length cs" for i
    using wf that check_candidate_iff [of i "cs ! i"] same by (force simp: list_all_length)
  then have "eachR check_candidate 0 cs = Inr cs" by (simp add: eachR_same_ok [OF same])
  moreover have "list_all well_formed_candidate (sort_key candidate_key cs)" using wf by (simp add: list_all_iff)
  ultimately show ?thesis
    using bound_loop_total by (auto simp: bound_candidates_def validated_candidates_def)
qed

text \<open>A batch is refused exactly when one of its candidates lacks a parameter its kind needs;
  every other batch is split, however tight the limits are.\<close>

theorem bound_candidates_refuses_iff:
  "(\<exists>r. bound_candidates s cs l halted = Inr r) \<longleftrightarrow> list_all well_formed_candidate cs"
  using bound_candidates_well_formed bound_candidates_total by blast

text \<open>C32: Convergence makes progress: with every cap at least one and every disruption budget
  positive, as the constructors demand of a budget, a reconciler that is not halted submits the
  first candidate of the documented order, whatever else it defers.\<close>

theorem convergence_progresses:
  assumes "bound_candidates s cs l False = Inr (sub, waiting)" and "cs \<noteq> []"
    and "1 \<le> max_drains l" "1 \<le> max_replacements l" "1 \<le> max_host_mutations l"
    and "\<forall>p \<in> set (ds_pools s). 1 \<le> max_parallel (p_disruption_budget p)"
  shows "\<exists>rest. sub = hd (sort_key candidate_key cs) # rest"
proof -
  obtain c rest where o': "sort_key candidate_key cs = c # rest"
    using assms(2) by (metis list.exhaust length_0_conv length_sort)
  have "list_all well_formed_candidate cs" using bound_candidates_well_formed [OF assms(1)] .
  then have "well_formed_candidate c" using o' by (metis list.set_intros(1) list_all_iff set_sort)
  moreover have "budget_of s p = Some b \<Longrightarrow> 0 < b" for p b
    using assms(6) nth_mem by (fastforce simp: budget_of_def find_Some_iff)
  ultimately have "exhausted s c no_usage l False = Inr None"
    using assms(3-5) host_of_total by (auto simp: exhausted_None no_usage_def spent_pool_None)
  moreover have "bound_loop s l False (c # rest) no_usage = Inr (sub, waiting)"
    using bound_candidates_ok [OF assms(1)] o' by simp
  ultimately show ?thesis using o' by (auto simp: bindR_Inr_iff)
qed

end
