(* ===== verification/Fleet_Converge.thy ===== *)
theory Fleet_Converge
  imports Fleet_Reconcile
begin

text \<open>
  One reconciliation, \<open>reconcile()\<close> of \<open>fleet_manager/reconcile.py\<close>: the drifts between a desired
  state and the host reports, the candidate changes, and the value that carries them. The
  dictionary of observed counts is the list of observed (host, pool) pairs, whose counts it holds;
  the set of taken assignment ids is a list.
\<close>

section \<open>Report documents\<close>

definition runner_document :: "observed_runner \<Rightarrow> pyval" where
  "runner_document r = PDict
     [(''runner_id'', PStr (or_runner_id r)), (''pool_id'', PStr (or_pool_id r)),
      (''started_at'', PStr (or_started_at r)), (''job_id'', opt_str (or_job_id r))]"

definition observation_to_document :: "observation \<Rightarrow> pyval" where
  "observation_to_document o' = PDict
     [(''host_id'', PStr (ob_host_id o')), (''observed_at'', PStr (ob_observed_at o')),
      (''agent_version'', opt_str (ob_agent_version o')),
      (''runners'', PList (map runner_document (ob_runners o')))]"

text \<open>The closed shape of an object: the first required field that is missing, then the first extra.\<close>

definition closed_shape :: "(string \<Rightarrow> exn) \<Rightarrow> (string \<Rightarrow> exn) \<Rightarrow> string list \<Rightarrow> string list \<Rightarrow> string list \<Rightarrow> unit res" where
  "closed_shape missing extra required allowed names =
     run_checks (map (\<lambda>n. (n \<in> set names, missing n)) required
                 @ map (\<lambda>n. (n \<in> set required \<or> n \<in> set allowed, extra n)) names)"

definition at_field :: "string \<Rightarrow> string \<Rightarrow> string \<Rightarrow> exn" where
  "at_field w ending name = Exn ReconcileError (w @ ''.'' @ name @ ending)"

definition prefixed :: "string \<Rightarrow> exn \<Rightarrow> exn" where
  "prefixed w e = Exn ReconcileError (w @ '': '' @ exn_text e)"

definition runner_from_document :: "string \<Rightarrow> nat \<Rightarrow> pyval \<Rightarrow> observed_runner res" where
  "runner_from_document w i v =
     (let at = w @ ''.runners['' @ nat_str i @ '']'' in
      case v of
        PDict d \<Rightarrow>
          bindR (closed_shape (at_field at '': is required'') (at_field at '': is not a field of a runner'')
                  [''runner_id'', ''pool_id'', ''started_at''] [''job_id''] (map fst d)) (\<lambda>_.
            mapErr (of_class ObservationError) (prefixed at)
              (observed_runner_make (py_get d ''runner_id'') (py_get d ''pool_id'') (py_get d ''started_at'')
                (py_get d ''job_id'')))
      | _ \<Rightarrow> reconcile_error (at @ '': must be an object''))"

definition observation_from_document :: "pyval \<Rightarrow> string \<Rightarrow> observation res" where
  "observation_from_document doc w =
     (case doc of
        PDict d \<Rightarrow>
          bindR (closed_shape (at_field w '': is required'') (at_field w '': is not a field of an observation'')
                  [''host_id'', ''observed_at'', ''runners''] [''agent_version''] (map fst d)) (\<lambda>_.
          case py_get d ''runners'' of
            PList rs \<Rightarrow>
              bindR (eachR (runner_from_document w) 0 rs) (\<lambda>parsed.
                mapErr (of_class ObservationError) (prefixed w)
                  (observation_make (py_get d ''host_id'') (py_get d ''observed_at'') parsed
                    (py_get d ''agent_version'')))
          | _ \<Rightarrow> reconcile_error (w @ ''.runners: must be a list''))
      | _ \<Rightarrow> reconcile_error (w @ '': must be an object''))"

section \<open>The reconciliation value\<close>

record reconciliation =
  rc_reconciliation_id :: string
  rc_base_revision :: int
  rc_observations :: "observation list"
  rc_limits :: convergence_limits
  rc_halted :: bool
  rc_drifts :: "drift list"
  rc_candidates :: "change list"
  rc_changes :: "change list"
  rc_deferred :: "deferred list"

definition reconciliation_payload :: "int \<Rightarrow> observation list \<Rightarrow> convergence_limits \<Rightarrow> bool \<Rightarrow> pyval" where
  "reconciliation_payload base obs l halted = PDict
     [(''base_revision'', PInt base), (''observations'', PList (map observation_to_document obs)),
      (''limits'', limits_document l), (''halted'', PBool halted)]"

definition reconciliation_id_for :: "int \<Rightarrow> observation list \<Rightarrow> convergence_limits \<Rightarrow> bool \<Rightarrow> string" where
  "reconciliation_id_for base obs l halted =
     digest_id ''reconciliation:'' (reconciliation_payload base obs l halted)"

definition reconciliation_make :: "reconciliation \<Rightarrow> reconciliation res" where
  "reconciliation_make r =
     bindR (run_checks
       [(distinct (map ob_host_id (rc_observations r)),
           Exn ReconcileError (''reconciliation.observations: two reports for one host ''
             @ ''(which report is newer is not something this layer guesses)'')),
        (sort_key drift_key (rc_drifts r) = rc_drifts r,
           Exn ReconcileError (''reconciliation.drifts: must be in (kind, host, pool) order ''
             @ ''(a diff whose order depends on iteration makes a fixture useless)'')),
        (filter (\<lambda>c. c \<notin> df_change ` set (rc_deferred r)) (rc_candidates r) = rc_changes r,
           Exn ReconcileError (''reconciliation.changes: must be the candidates that were not ''
             @ ''deferred, in candidate order'')),
        (length (rc_changes r) + length (rc_deferred r) = length (rc_candidates r),
           Exn ReconcileError (''reconciliation.candidates: every candidate is either submitted ''
             @ ''or deferred, never both and never neither'')),
        (rc_reconciliation_id r
           = reconciliation_id_for (rc_base_revision r) (rc_observations r) (rc_limits r) (rc_halted r),
           Exn ReconcileError (''reconciliation.reconciliation_id: does not match its revision, ''
             @ ''observations, limits and halt state''))]) (\<lambda>_. Inr r)"

definition converged :: "reconciliation \<Rightarrow> bool" where
  "converged r \<longleftrightarrow> rc_changes r = [] \<and> rc_deferred r = []"

definition reconciliation_document :: "reconciliation \<Rightarrow> pyval" where
  "reconciliation_document r = PDict
     [(''schema'', PStr ''fleet-manager-reconciliation/1''),
      (''reconciliation_id'', PStr (rc_reconciliation_id r)), (''base_revision'', PInt (rc_base_revision r)),
      (''halted'', PBool (rc_halted r)), (''limits'', limits_document (rc_limits r)),
      (''observations'', PList (map observation_to_document (rc_observations r))),
      (''drifts'', PList (map drift_document (rc_drifts r))),
      (''candidates'', PList (map change_document (rc_candidates r))),
      (''changes'', PList (map change_document (rc_changes r))),
      (''deferred'', PList (map deferred_document (rc_deferred r))), (''converged'', PBool (converged r))]"

section \<open>Placement\<close>

definition rec_name :: "string \<Rightarrow> nat \<Rightarrow> string" where
  "rec_name pid i = ''rec.'' @ pid @ ''.'' @ nat_str i"

lemma rec_name_inj: "rec_name pid i = rec_name pid j \<longleftrightarrow> i = j"
  by (simp add: rec_name_def nat_str_inj)

lemma finite_taken_names: "finite {j. i \<le> j \<and> rec_name pid j \<in> set taken}"
proof (rule finite_subset)
  show "{j. i \<le> j \<and> rec_name pid j \<in> set taken} \<subseteq> rec_name pid -` set taken" by auto
  show "finite (rec_name pid -` set taken)"
    by (rule finite_vimageI) (simp_all add: inj_on_def rec_name_inj)
qed

text \<open>The search ends: every name it passes over is one of the finitely many that are taken.\<close>

function free_name_from :: "string \<Rightarrow> string list \<Rightarrow> nat \<Rightarrow> string" where
  "free_name_from pid taken i =
     (if rec_name pid i \<notin> set taken then rec_name pid i else free_name_from pid taken (Suc i))"
  by pat_completeness auto
termination
proof (relation "measure (\<lambda>(pid, taken, i). card {j. i \<le> j \<and> rec_name pid j \<in> set taken})")
  fix pid taken i
  assume "\<not> rec_name pid i \<notin> set taken"
  then have "i \<in> {j. i \<le> j \<and> rec_name pid j \<in> set taken}" by simp
  moreover have "i \<notin> {j. Suc i \<le> j \<and> rec_name pid j \<in> set taken}" by simp
  moreover have "{j. Suc i \<le> j \<and> rec_name pid j \<in> set taken} \<subseteq> {j. i \<le> j \<and> rec_name pid j \<in> set taken}"
    by auto
  ultimately have "{j. Suc i \<le> j \<and> rec_name pid j \<in> set taken} \<subset> {j. i \<le> j \<and> rec_name pid j \<in> set taken}"
    by blast
  then show "((pid, taken, Suc i), pid, taken, i)
      \<in> measure (\<lambda>(pid, taken, i). card {j. i \<le> j \<and> rec_name pid j \<in> set taken})"
    by (simp add: psubset_card_mono [OF finite_taken_names])
qed simp

declare free_name_from.simps [simp del]

definition free_assignment_id :: "string \<Rightarrow> string list \<Rightarrow> string" where
  "free_assignment_id pid taken = free_name_from pid taken 1"

definition is_active :: "desired_state \<Rightarrow> string \<Rightarrow> bool" where
  "is_active s hid \<longleftrightarrow> list_ex (\<lambda>h. h_host_id h = hid \<and> h_state h = H_ACTIVE) (ds_hosts s)"

definition reporting :: "observation list \<Rightarrow> string \<Rightarrow> bool" where
  "reporting reports hid \<longleftrightarrow> hid \<in> ob_host_id ` set reports"

definition offer_host ::
  "desired_state \<Rightarrow> desired_state \<Rightarrow> pool \<Rightarrow> observation list \<Rightarrow> host \<Rightarrow> (int \<times> string) option
   \<Rightarrow> (int \<times> string) option res" where
  "offer_host working s p reports h best =
     (if \<not> is_active s (h_host_id h) \<or> \<not> reporting reports (h_host_id h) then Inr best
      else if refusal_for h p \<noteq> None then Inr best
      else bindR (ds_capacity working (h_host_id h)) (\<lambda>c.
        if cap_free c \<le> 0 then Inr best
        else let rank = (- cap_free c, h_host_id h) in
             Inr (case best of None \<Rightarrow> Some rank | Some b \<Rightarrow> if rank < b then Some rank else best)))"

definition placement_host ::
  "desired_state \<Rightarrow> desired_state \<Rightarrow> string \<Rightarrow> observation list \<Rightarrow> string option res" where
  "placement_host working s pid reports =
     bindR (ds_pool s pid) (\<lambda>p.
     bindR (foldR (offer_host working s p reports) (sort_key h_host_id (ds_hosts s)) None) (\<lambda>best.
       Inr (map_option snd best)))"

section \<open>Reconcile\<close>

definition known_host :: "desired_state \<Rightarrow> string \<Rightarrow> bool" where
  "known_host s hid \<longleftrightarrow> hid \<in> h_host_id ` set (ds_hosts s)"

definition unknown_host_drifts :: "desired_state \<Rightarrow> observation list \<Rightarrow> drift list res" where
  "unknown_host_drifts s reports =
     mapR (\<lambda>r. drift_make UNKNOWN_HOST (Some (ob_host_id r)) None 0
                 ''host is not in the desired state; it is not adopted'')
       (filter (\<lambda>r. \<not> known_host s (ob_host_id r)) reports)"

definition silent_host_drifts :: "desired_state \<Rightarrow> observation list \<Rightarrow> drift list res" where
  "silent_host_drifts s reports =
     mapR (\<lambda>h. drift_make HOST_NOT_REPORTING (Some (h_host_id h)) None 0
                 ''no observation for an active host; it gets no new assignment'')
       (filter (\<lambda>h. h_state h = H_ACTIVE \<and> \<not> reporting reports (h_host_id h))
         (sort_key h_host_id (ds_hosts s)))"

definition assigned_pairs :: "desired_state \<Rightarrow> (string \<times> string) list" where
  "assigned_pairs s =
     map (\<lambda>a. (a_host_id a, a_pool_id a)) (filter (\<lambda>a. a_state a = ASSIGNED) (ds_assignments s))"

definition observed_pairs :: "observation list \<Rightarrow> (string \<times> string) list" where
  "observed_pairs reports =
     concat (map (\<lambda>r. map (\<lambda>x. (ob_host_id r, or_pool_id x)) (ob_runners r)) reports)"

definition surplus :: "desired_state \<Rightarrow> observation list \<Rightarrow> string \<times> string \<Rightarrow> int" where
  "surplus s reports k = int (count_list (observed_pairs reports) k) - int (count_list (assigned_pairs s) k)"

definition unmanaged_drifts :: "desired_state \<Rightarrow> observation list \<Rightarrow> drift list res" where
  "unmanaged_drifts s reports =
     mapR (\<lambda>(hid, pid). drift_make UNMANAGED_RUNNER (Some hid) (Some pid) (surplus s reports (hid, pid))
                          ''runner is not accounted for by an assignment; left alone'')
       (filter (\<lambda>(hid, pid). known_host s hid \<and> is_active s hid \<and> 0 < surplus s reports (hid, pid))
         (sort (remdups (observed_pairs reports))))"

definition assign_change :: "string \<Rightarrow> string \<Rightarrow> string \<Rightarrow> change res" where
  "assign_change aid pid hid =
     change_make ASSIGN aid
       [(''assignment_id'', aid), (''request_id'', replace_all ''rec.'' ''reconcile.'' aid),
        (''pool_id'', pid), (''host_id'', hid)]"

fun place_loop ::
  "desired_state \<Rightarrow> observation list \<Rightarrow> string \<Rightarrow> nat \<Rightarrow> string list \<Rightarrow> desired_state
   \<Rightarrow> (change list \<times> desired_state) res" where
  "place_loop s reports pid 0 taken working = Inr ([], working)"
| "place_loop s reports pid (Suc n) taken working =
     bindR (placement_host working s pid reports) (\<lambda>target.
       case target of
         None \<Rightarrow> Inr ([], working)
       | Some hid \<Rightarrow>
           let aid = free_assignment_id pid taken in
           bindR (assign_change aid pid hid) (\<lambda>c.
           bindR (simulate working c None) (\<lambda>next.
           bindR (place_loop s reports pid n (aid # taken) next) (\<lambda>(cs, final). Inr (c # cs, final)))))"

definition observed_warm :: "desired_state \<Rightarrow> observation list \<Rightarrow> string \<Rightarrow> int" where
  "observed_warm s reports pid =
     int (length (filter (\<lambda>(h, p). p = pid \<and> is_active s h) (observed_pairs reports)))"

definition floor_step ::
  "desired_state \<Rightarrow> observation list \<Rightarrow> pool \<Rightarrow> drift list \<times> change list \<times> desired_state
   \<Rightarrow> (drift list \<times> change list \<times> desired_state) res" where
  "floor_step s reports p acc =
     (case acc of (drifts, candidates, working) \<Rightarrow>
        let pid = p_pool_id p; warm = observed_warm s reports pid; missing = p_warm_min p - warm in
        if missing \<le> 0 then Inr acc
        else
          bindR (drift_make WARM_SHORTFALL None (Some pid) missing
                  (''observed '' @ int_str warm @ '' runner(s) for a warm floor of '' @ int_str (p_warm_min p)))
            (\<lambda>d.
          bindR (place_loop s reports pid (nat missing) (map a_assignment_id (ds_assignments s)) working)
            (\<lambda>(cs, final). Inr (drifts @ [d], candidates @ cs, final))))"

definition drain_step ::
  "desired_state \<Rightarrow> observation list \<Rightarrow> drain \<Rightarrow> drift list \<times> change list \<Rightarrow> (drift list \<times> change list) res" where
  "drain_step s reports d acc =
     (case acc of (drifts, candidates) \<Rightarrow>
        if d_state d \<noteq> D_DRAINING then Inr acc
        else
          bindR (ds_host s (d_host_id d)) (\<lambda>h.
          bindR (ds_capacity s (d_host_id d)) (\<lambda>c.
            let in_use = cap_in_use c;
                running = (case List.find (\<lambda>r. ob_host_id r = d_host_id d) reports of
                             None \<Rightarrow> 0 | Some r \<Rightarrow> int (runner_count r)) in
            if in_use \<noteq> 0 \<or> running \<noteq> 0
            then bindR (drift_make DRAIN_BLOCKED (Some (d_host_id d)) None (in_use + running)
                   (int_str in_use @ '' assignment(s) and '' @ int_str running
                    @ '' observed runner(s) remain; the drain is not completed''))
                   (\<lambda>x. Inr (drifts @ [x], candidates))
            else bindR (drift_make DRAIN_COMPLETABLE (Some (h_host_id h)) None 0
                   ''no assignment and no observed runner remains'') (\<lambda>x.
                 bindR (change_make COMPLETE_DRAIN (h_host_id h) []) (\<lambda>c.
                   Inr (drifts @ [x], candidates @ [c]))))))"

definition default_limits :: convergence_limits where
  "default_limits = \<lparr>max_drains = 1, max_replacements = 1, max_host_mutations = 1\<rparr>"

definition limits_or_default :: "convergence_limits option \<Rightarrow> convergence_limits" where
  "limits_or_default l = (case l of None \<Rightarrow> default_limits | Some x \<Rightarrow> x)"

definition find_drift ::
  "desired_state \<Rightarrow> observation list \<Rightarrow> (drift list \<times> change list) res" where
  "find_drift s reports =
     bindR (unknown_host_drifts s reports) (\<lambda>unknown.
     bindR (silent_host_drifts s reports) (\<lambda>silent.
     bindR (unmanaged_drifts s reports) (\<lambda>unmanaged.
     bindR (foldR (floor_step s reports) (sort_key p_pool_id (ds_pools s)) (unknown @ silent @ unmanaged, [], s))
       (\<lambda>(drifts, candidates, working).
         foldR (drain_step s reports) (ds_drains s) (drifts, candidates)))))"

definition reconcile ::
  "desired_state \<Rightarrow> observation list \<Rightarrow> convergence_limits option \<Rightarrow> bool \<Rightarrow> reconciliation res" where
  "reconcile s observations lims halted =
     (let l = limits_or_default lims; reports = sort_key ob_host_id observations in
      if \<not> distinct (map ob_host_id reports)
      then reconcile_error (''reconcile.observations: two reports for one host ''
             @ ''(which report is newer is not something this layer guesses)'')
      else
        bindR (find_drift s reports) (\<lambda>(drifts, found).
          let candidates = sort_key candidate_key found in
          bindR (bound_candidates s candidates l halted) (\<lambda>(changes, waiting).
            reconciliation_make
              \<lparr>rc_reconciliation_id = reconciliation_id_for (ds_revision s) reports l halted,
               rc_base_revision = ds_revision s, rc_observations = reports, rc_limits = l,
               rc_halted = halted, rc_drifts = sort_key drift_key drifts, rc_candidates = candidates,
               rc_changes = changes, rc_deferred = waiting\<rparr>)))"

end
