(* ===== verification/Fleet_Submission.thy ===== *)
theory Fleet_Submission
  imports Fleet_Converge
begin

text \<open>
  What a reconciliation submits can be planned: \<open>reconcile()\<close> of \<open>fleet_manager/reconcile.py\<close> and
  \<open>build_plan()\<close> of \<open>fleet_manager/plan.py\<close> together. The changes that are submitted are some of the
  candidates, in another order than the one they were found in; a set of changes that is submittable
  can be simulated in any order, and so can any part of it.
\<close>

section \<open>The clock\<close>

definition stamped :: "pyval \<Rightarrow> bool" where
  "stamped v \<longleftrightarrow> (\<exists>s. v = PStr s \<and> stamp_us s \<noteq> None)"

definition clocked :: "desired_state \<Rightarrow> bool" where
  "clocked s \<longleftrightarrow> (\<forall>v \<in> set (state_timestamps s). stamped v)"

lemma plan_clock_floor_stamp: "stamp_us plan_clock_floor \<noteq> None"
  unfolding stamp_us_def plan_clock_floor_def
  apply (simp add: replace_all_absent)
  apply (simp add: fromisoformat_def date_length_def parse_date_def parse_month_day_def is_digit_def code_def
     digit_val_def num_of_def Let_def parse_digits_def)
  apply (simp add: parse_time_def parse_offset_def is_zone_mark_def eval_nat_numeral parse_digits_def is_digit_def
     code_def num_of_def digit_val_def Let_def)
  apply (simp add: make_datetime_def nth0_def hms_seconds_def in_calendar_def)
  apply (simp add: valid_ymd_def ymd2ord_def days_in_month_def days_before_year_def days_before_month_def
     month_lengths_def is_leap_def max_us_def max_ordinal_def day_us_def second_us_def dt_instant_def)
  done

definition on_calendar :: "datetime \<Rightarrow> bool" where
  "on_calendar d \<longleftrightarrow> (\<exists>t. in_calendar t \<and> d = utc t)"

lemma foldl_later: "on_calendar d \<Longrightarrow> \<forall>x \<in> set ds. on_calendar x \<Longrightarrow> on_calendar (foldl later d ds)"
  by (induction ds arbitrary: d) (auto simp: later_def)

lemma instant_stamped: "(\<exists>d. instant v w = Inr d) \<longleftrightarrow> stamped v"
  by (auto simp: instant_ok stamped_def)

lemma instant_on_calendar: "instant v w = Inr d \<Longrightarrow> on_calendar d"
  by (auto simp: instant_ok on_calendar_def dest: stamp_us_calendar)

lemma plan_clock_iff: "(\<exists>at. plan_clock s = Inr at) \<longleftrightarrow> clocked s"
proof
  assume "\<exists>at. plan_clock s = Inr at"
  then obtain ds where "mapR (\<lambda>v. instant v ''plan_clock'') (state_timestamps s) = Inr ds"
    by (auto simp: plan_clock_def bindR_Inr_iff)
  then show "clocked s" unfolding clocked_def mapR_ok by (metis in_set_conv_nth instant_stamped)
next
  assume "clocked s"
  then obtain g where "\<forall>v \<in> set (state_timestamps s). instant v ''plan_clock'' = Inr (g v)"
    unfolding clocked_def instant_stamped [symmetric, of _ "''plan_clock''"] by metis
  then have "mapR (\<lambda>v. instant v ''plan_clock'') (state_timestamps s) = Inr (map g (state_timestamps s))"
    by (intro mapR_Inr_map) blast
  then show "\<exists>at. plan_clock s = Inr at" by (simp add: plan_clock_def)
qed

lemma plan_clock_stamp: "plan_clock s = Inr at \<Longrightarrow> stamp_us at \<noteq> None"
proof -
  assume "plan_clock s = Inr at"
  then obtain ds where ds: "mapR (\<lambda>v. instant v ''plan_clock'') (state_timestamps s) = Inr ds"
    and at: "at = (case ds of [] \<Rightarrow> plan_clock_floor | d # ds \<Rightarrow> isoformat_utc (foldl later d ds))"
    by (auto simp: plan_clock_def bindR_Inr_iff)
  have all: "\<forall>d \<in> set ds. on_calendar d"
    using ds unfolding mapR_ok by (metis in_set_conv_nth instant_on_calendar)
  show ?thesis
  proof (cases ds)
    case Nil
    then show ?thesis using at plan_clock_floor_stamp by simp
  next
    case (Cons d rest)
    then have "on_calendar (foldl later d rest)" using all foldl_later by simp
    then show ?thesis using at Cons stamp_us_isoformat by (auto simp: on_calendar_def)
  qed
qed

section \<open>The two kinds of change a reconciliation makes\<close>

definition assign_of :: "string \<Rightarrow> string \<Rightarrow> string \<Rightarrow> string \<Rightarrow> change" where
  "assign_of aid rid pid hid =
     \<lparr>ch_kind = ASSIGN, ch_subject = aid,
      ch_parameters = [(''assignment_id'', aid), (''request_id'', rid), (''pool_id'', pid), (''host_id'', hid)]\<rparr>"

definition drain_done :: "string \<Rightarrow> change" where
  "drain_done hid = \<lparr>ch_kind = COMPLETE_DRAIN, ch_subject = hid, ch_parameters = []\<rparr>"

lemma change_parts [simp]:
  "ch_kind (assign_of aid rid pid hid) = ASSIGN" "ch_subject (assign_of aid rid pid hid) = aid"
  "ch_kind (drain_done hid) = COMPLETE_DRAIN" "ch_subject (drain_done hid) = hid"
  by (simp_all add: assign_of_def drain_done_def)

lemma simulate_assign_of: "simulate s (assign_of aid rid pid hid) None = Inr t \<longleftrightarrow>
    (\<exists>at. plan_clock s = Inr at \<and> with_assignment s aid rid pid hid at = Inr t)"
  by (simp add: simulate_def simulate_at_def bindR_Inr_iff parameter_def assign_of_def)

lemma simulate_drain_done: "simulate s (drain_done hid) None = Inr t \<longleftrightarrow>
    (\<exists>at. plan_clock s = Inr at \<and> with_drain_complete s hid at = Inr t)"
  by (simp add: simulate_def simulate_at_def bindR_Inr_iff)

lemma assign_change_ok: "assign_change aid pid hid = Inr c \<Longrightarrow>
    c = assign_of aid (replace_all ''rec.'' ''reconcile.'' aid) pid hid"
  by (auto simp: assign_change_def change_make_def bindR_Inr_iff assign_of_def)

lemma complete_change_ok: "change_make COMPLETE_DRAIN hid [] = Inr c \<Longrightarrow> c = drain_done hid"
  by (auto simp: change_make_def bindR_Inr_iff drain_done_def)

section \<open>What each of them does\<close>

definition offers :: "desired_state \<Rightarrow> string \<Rightarrow> string \<Rightarrow> bool" where
  "offers s pid hid \<longleftrightarrow> (\<exists>p \<in> set (ds_pools s). \<exists>h \<in> set (ds_hosts s).
     p_pool_id p = pid \<and> h_host_id h = hid \<and> refusal_for h p = None)"

lemma offers_active: "ds_inv s \<Longrightarrow> offers s pid hid \<Longrightarrow> h \<in> set (ds_hosts s) \<Longrightarrow> h_host_id h = hid \<Longrightarrow>
    h_state h = H_ACTIVE"
  by (auto simp: offers_def ds_inv_def ds_ok_def refusal_for_None dest: host_unique)

lemma placeable_offers: "ds_inv s \<Longrightarrow> placeable s pid hid \<longleftrightarrow>
    offers s pid hid \<and> (\<forall>h \<in> set (ds_hosts s). h_host_id h = hid \<longrightarrow> int (in_use_of s hid) < h_slots h)"
proof -
  assume "ds_inv s"
  then have one: "h \<in> set (ds_hosts s) \<Longrightarrow> k \<in> set (ds_hosts s) \<Longrightarrow> h_host_id k = h_host_id h \<Longrightarrow> k = h" for h k
    unfolding ds_inv_def ds_ok_def by (blast intro: host_unique)
  show ?thesis
    unfolding placeable_def offers_def refusal_for_None by (blast dest: one)
qed

definition assignment_ids :: "desired_state \<Rightarrow> string set" where
  "assignment_ids s = a_assignment_id ` set (ds_assignments s)"

text \<open>The part of an assignment's guard that only depends on the ids, the pool and the host.\<close>

definition fit_assign :: "desired_state \<Rightarrow> string \<Rightarrow> string \<Rightarrow> string \<Rightarrow> string \<Rightarrow> bool" where
  "fit_assign s aid rid pid hid \<longleftrightarrow>
     aid \<notin> assignment_ids s \<and> is_identifier aid \<and> is_request_id rid \<and> is_identifier pid \<and> is_identifier hid
     \<and> offers s pid hid"

lemma assigned:
  assumes "ds_inv s"
  shows "with_assignment s aid rid pid hid at = Inr t \<longleftrightarrow>
    fit_assign s aid rid pid hid \<and> stamp_us at \<noteq> None
    \<and> (\<forall>h \<in> set (ds_hosts s). h_host_id h = hid \<longrightarrow> int (in_use_of s hid) < h_slots h)
    \<and> t = next_rev (s\<lparr>ds_assignments := ds_assignments s @ [new_assignment aid rid pid hid at]\<rparr>)"
  unfolding assignment_granted [OF assms] placeable_offers [OF assms] fit_assign_def assignment_ids_def by blast

text \<open>What a state looks like after one more assignment on \<open>hid\<close>, made at \<open>at\<close>.\<close>

definition one_more :: "desired_state \<Rightarrow> string \<Rightarrow> string \<Rightarrow> string \<Rightarrow> desired_state \<Rightarrow> bool" where
  "one_more s aid hid at t \<longleftrightarrow>
     ds_hosts t = ds_hosts s \<and> ds_pools t = ds_pools s \<and> assignment_ids t = insert aid (assignment_ids s)
     \<and> (\<forall>x. in_use_of t x = in_use_of s x + (if x = hid then 1 else 0))
     \<and> set (state_timestamps t) = insert (PStr at) (set (state_timestamps s))"

lemma one_more_assigned:
  "one_more s aid hid at (next_rev (s\<lparr>ds_assignments := ds_assignments s @ [new_assignment aid rid pid hid at]\<rparr>))"
  by (simp add: one_more_def assignment_ids_def in_use_of_def state_timestamps_def new_assignment_def a_state_def
      present_def opt_str_def)

text \<open>What a state looks like after the drain of \<open>hid\<close> is completed at \<open>at\<close>.\<close>

definition one_drained :: "desired_state \<Rightarrow> string \<Rightarrow> string \<Rightarrow> desired_state \<Rightarrow> bool" where
  "one_drained s hid at t \<longleftrightarrow>
     ds_hosts t = host_in hid H_DRAINED (ds_hosts s) \<and> ds_pools t = ds_pools s
     \<and> assignment_ids t = assignment_ids s \<and> in_use_of t = in_use_of s
     \<and> set (state_timestamps t) \<subseteq> insert (PStr at) (set (state_timestamps s))"

lemma one_drained_completed:
  "one_drained s hid at
     (next_rev (s\<lparr>ds_hosts := host_in hid H_DRAINED (ds_hosts s), ds_drains := drained_in hid at (ds_drains s)\<rparr>))"
proof -
  have "set (concat (map (\<lambda>d. PStr (d_requested_at d) # present (d_completed_at d) @ present (d_ended_at d))
          (drained_in hid at ds)))
      \<subseteq> insert (PStr at) (set (concat (map (\<lambda>d. PStr (d_requested_at d) # present (d_completed_at d)
          @ present (d_ended_at d)) ds)))" for ds
    by (induction ds) (auto simp: drained_in_def present_def)
  then show ?thesis
    by (auto simp: one_drained_def assignment_ids_def state_timestamps_def intro!: in_use_cong)
qed

lemma clocked_subset: "clocked s \<Longrightarrow> stamp_us at \<noteq> None \<Longrightarrow>
    set (state_timestamps t) \<subseteq> insert (PStr at) (set (state_timestamps s)) \<Longrightarrow> clocked t"
  by (auto simp: clocked_def stamped_def)

section \<open>Submittable changes\<close>

definition fits :: "desired_state \<Rightarrow> change \<Rightarrow> bool" where
  "fits s c \<longleftrightarrow>
     (\<exists>aid rid pid hid. c = assign_of aid rid pid hid \<and> fit_assign s aid rid pid hid)
     \<or> (\<exists>h \<in> set (ds_hosts s). c = drain_done (h_host_id h) \<and> h_state h = H_DRAINING
          \<and> in_use_of s (h_host_id h) = 0)"

definition subject_key :: "change \<Rightarrow> change_kind \<times> string" where
  "subject_key c = (ch_kind c, ch_subject c)"

definition places :: "string \<Rightarrow> change \<Rightarrow> bool" where
  "places hid c \<longleftrightarrow> ch_kind c = ASSIGN \<and> map_of (ch_parameters c) ''host_id'' = Some hid"

lemma places_parts [simp]: "places k (assign_of aid rid pid hid) \<longleftrightarrow> k = hid" "\<not> places k (drain_done hid)"
  by (auto simp: places_def assign_of_def drain_done_def)

text \<open>Every change is possible on its own, no two are about one thing, and no host gets too many.\<close>

definition submittable :: "desired_state \<Rightarrow> change multiset \<Rightarrow> bool" where
  "submittable s M \<longleftrightarrow>
     (\<forall>c \<in># M. fits s c) \<and> (\<forall>k. count (image_mset subject_key M) k \<le> 1)
     \<and> (\<forall>h \<in> set (ds_hosts s).
          int (in_use_of s (h_host_id h)) + int (size (filter_mset (places (h_host_id h)) M)) \<le> h_slots h)"

lemma submittable_part: "submittable s M \<Longrightarrow> N \<subseteq># M \<Longrightarrow> submittable s N"
proof -
  assume s: "submittable s M" and sub: "N \<subseteq># M"
  have "count (image_mset subject_key N) k \<le> count (image_mset subject_key M) k" for k
    by (rule mset_subset_eq_count [OF image_mset_subseteq_mono [OF sub]])
  moreover have "int (size (filter_mset P N)) \<le> int (size (filter_mset P M))" for P
    using size_mset_mono [OF multiset_filter_mono [OF sub]] by simp
  moreover have "set_mset N \<subseteq> set_mset M" using sub by (rule set_mset_mono)
  ultimately show ?thesis using s unfolding submittable_def by (meson add_left_mono order_trans subsetD)
qed

lemma subject_key_fresh: "\<forall>k. count (image_mset subject_key (add_mset c M)) k \<le> 1 \<Longrightarrow> d \<in># M \<Longrightarrow>
    subject_key d \<noteq> subject_key c"
proof
  assume one: "\<forall>k. count (image_mset subject_key (add_mset c M)) k \<le> 1" and d: "d \<in># M"
    and same: "subject_key d = subject_key c"
  have "subject_key c \<in># image_mset subject_key M" using d same by (metis image_eqI set_image_mset)
  then have "0 < count (image_mset subject_key M) (subject_key c)" by (simp only: count_greater_zero_iff)
  moreover have "count (image_mset subject_key M) (subject_key c) = 0"
    using one [rule_format, of "subject_key c"] by simp
  ultimately show False by linarith
qed

lemma submittable_rest:
  assumes "submittable s (add_mset c M)"
  shows "fits s c" and "\<forall>d \<in># M. fits s d \<and> subject_key d \<noteq> subject_key c"
    and "\<forall>k. count (image_mset subject_key M) k \<le> 1"
    and "\<forall>h \<in> set (ds_hosts s). int (in_use_of s (h_host_id h))
      + (if places (h_host_id h) c then 1 else 0) + int (size (filter_mset (places (h_host_id h)) M)) \<le> h_slots h"
proof -
  have one: "\<forall>k. count (image_mset subject_key (add_mset c M)) k \<le> 1" using assms by (simp add: submittable_def)
  show "fits s c" "\<forall>d \<in># M. fits s d \<and> subject_key d \<noteq> subject_key c"
    using assms subject_key_fresh [OF one] by (simp_all add: submittable_def)
  show "\<forall>k. count (image_mset subject_key M) k \<le> 1"
    using submittable_part [OF assms, of M] by (simp add: submittable_def)
  show "\<forall>h \<in> set (ds_hosts s). int (in_use_of s (h_host_id h))
      + (if places (h_host_id h) c then 1 else 0) + int (size (filter_mset (places (h_host_id h)) M)) \<le> h_slots h"
  proof
    fix h assume "h \<in> set (ds_hosts s)"
    then have "int (in_use_of s (h_host_id h)) + int (size (filter_mset (places (h_host_id h)) (add_mset c M)))
        \<le> h_slots h"
      using assms unfolding submittable_def by blast
    then show "int (in_use_of s (h_host_id h)) + (if places (h_host_id h) c then 1 else 0)
        + int (size (filter_mset (places (h_host_id h)) M)) \<le> h_slots h"
      by (simp split: if_splits)
  qed
qed

lemma fits_cases [consumes 1, case_names Assign Done]:
  assumes "fits s c"
  obtains aid rid pid hid where "c = assign_of aid rid pid hid" "fit_assign s aid rid pid hid"
  | h where "h \<in> set (ds_hosts s)" "c = drain_done (h_host_id h)" "h_state h = H_DRAINING"
      "in_use_of s (h_host_id h) = 0"
  using assms unfolding fits_def by blast

lemma fits_assign: "fit_assign s aid rid pid hid \<Longrightarrow> fits s (assign_of aid rid pid hid)"
  unfolding fits_def by blast

lemma fits_done: "h \<in> set (ds_hosts s) \<Longrightarrow> h_state h = H_DRAINING \<Longrightarrow> in_use_of s (h_host_id h) = 0 \<Longrightarrow>
    fits s (drain_done (h_host_id h))"
  unfolding fits_def by blast

lemma submit_assign:
  assumes inv: "ds_inv s" and sub: "submittable s (add_mset (assign_of aid rid pid hid) M)"
    and f: "fit_assign s aid rid pid hid" and m: "one_more s aid hid at t"
  shows "submittable t M"
proof -
  note rest = submittable_rest [OF sub]
  have off: "offers t = offers s" using m by (simp add: one_more_def offers_def fun_eq_iff)
  have "fits t d" if d: "d \<in># M" for d
  proof -
    have "fits s d" and key: "subject_key d \<noteq> subject_key (assign_of aid rid pid hid)" using rest(2) d by auto
    from this(1) show ?thesis
    proof (cases rule: fits_cases)
      case (Assign a r p h)
      then have "a \<noteq> aid" using key by (auto simp: subject_key_def)
      then have "fit_assign t a r p h" using Assign(2) m by (simp add: fit_assign_def off one_more_def)
      then show ?thesis using Assign(1) fits_assign by simp
    next
      case (Done h)
      then have "h_host_id h \<noteq> hid" using f offers_active [OF inv, of pid hid h] by (auto simp: fit_assign_def)
      then show ?thesis using Done m fits_done [of h t] by (simp add: one_more_def)
    qed
  qed
  moreover have "int (in_use_of t (h_host_id h)) + int (size (filter_mset (places (h_host_id h)) M)) \<le> h_slots h"
    if "h \<in> set (ds_hosts t)" for h
  proof -
    have "h \<in> set (ds_hosts s)" using that m by (simp add: one_more_def)
    then show ?thesis using rest(4) m by (fastforce simp: one_more_def)
  qed
  ultimately show ?thesis using rest(3) by (simp add: submittable_def)
qed

lemma submit_done:
  assumes inv: "ds_inv s" and sub: "submittable s (add_mset (drain_done hid) M)"
    and f: "h \<in> set (ds_hosts s)" "hid = h_host_id h" "h_state h = H_DRAINING"
    and m: "one_drained s hid at t"
  shows "submittable t M"
proof -
  note rest = submittable_rest [OF sub]
  have one: "k = h" if "k \<in> set (ds_hosts s)" "h_host_id k = hid" for k
    using inv that f unfolding ds_inv_def ds_ok_def by (blast intro: host_unique)
  have there: "k \<in> set (ds_hosts t)" if "k \<in> set (ds_hosts s)" "h_host_id k \<noteq> hid" for k
    using that m by (auto simp: one_drained_def host_in_mem intro: bexI [of _ k])
  have "fits t d" if d: "d \<in># M" for d
  proof -
    have "fits s d" and key: "subject_key d \<noteq> subject_key (drain_done hid)" using rest(2) d by auto
    from this(1) show ?thesis
    proof (cases rule: fits_cases)
      case (Assign a r p x)
      then obtain q k where q: "q \<in> set (ds_pools s)" "k \<in> set (ds_hosts s)" "p_pool_id q = p" "h_host_id k = x"
        "refusal_for k q = None" by (auto simp: fit_assign_def offers_def)
      then have "h_host_id k \<noteq> hid" using one [of k] f(3) by (auto simp: refusal_for_None)
      then have "offers t p x" using q there m by (auto simp: offers_def one_drained_def)
      then have "fit_assign t a r p x" using Assign(2) m by (simp add: fit_assign_def one_drained_def)
      then show ?thesis using Assign(1) fits_assign by simp
    next
      case (Done k)
      then have "h_host_id k \<noteq> hid" using key by (auto simp: subject_key_def)
      then show ?thesis using Done m there fits_done [of k t] by (simp add: one_drained_def)
    qed
  qed
  moreover have "int (in_use_of t (h_host_id k)) + int (size (filter_mset (places (h_host_id k)) M)) \<le> h_slots k"
    if k: "k \<in> set (ds_hosts t)" for k
  proof -
    obtain x where "x \<in> set (ds_hosts s)" "h_host_id x = h_host_id k" "h_slots x = h_slots k"
      using k m by (auto simp: one_drained_def host_in_mem)
    then show ?thesis using rest(4) m by (fastforce simp: one_drained_def)
  qed
  ultimately show ?thesis using rest(3) by (simp add: submittable_def)
qed

text \<open>A submittable change goes through, and leaves the others submittable.\<close>

lemma submit_one:
  assumes inv: "ds_inv s" and clock: "clocked s" and sub: "submittable s (add_mset c M)"
  shows "\<exists>t. simulate s c None = Inr t \<and> submittable t M \<and> clocked t"
proof -
  obtain at where at: "plan_clock s = Inr at" using clock plan_clock_iff by blast
  note stamp = plan_clock_stamp [OF at]
  from submittable_rest(1) [OF sub] show ?thesis
  proof (cases rule: fits_cases)
    case (Assign aid rid pid hid)
    define t where "t = next_rev (s\<lparr>ds_assignments := ds_assignments s @ [new_assignment aid rid pid hid at]\<rparr>)"
    have m: "one_more s aid hid at t" unfolding t_def by (rule one_more_assigned)
    have "int (in_use_of s hid) < h_slots h" if "h \<in> set (ds_hosts s)" "h_host_id h = hid" for h
      using submittable_rest(4) [OF sub, THEN bspec, OF that(1)] that(2) Assign(1) by simp
    then have "with_assignment s aid rid pid hid at = Inr t"
      using Assign(2) stamp unfolding assigned [OF inv] t_def by blast
    then have "simulate s c None = Inr t" using at Assign(1) simulate_assign_of by blast
    moreover have "clocked t" using clocked_subset [OF clock stamp] m by (simp add: one_more_def)
    ultimately show ?thesis using submit_assign [OF inv _ Assign(2) m] sub Assign(1) by blast
  next
    case (Done h)
    define t where "t = next_rev (s\<lparr>ds_hosts := host_in (h_host_id h) H_DRAINED (ds_hosts s),
      ds_drains := drained_in (h_host_id h) at (ds_drains s)\<rparr>)"
    have m: "one_drained s (h_host_id h) at t" unfolding t_def by (rule one_drained_completed)
    have "with_drain_complete s (h_host_id h) at = Inr t"
      using Done unfolding drain_completes [OF inv] t_def by blast
    then have "simulate s c None = Inr t" using at Done(2) simulate_drain_done by blast
    moreover have "clocked t" using clocked_subset [OF clock stamp] m by (simp add: one_drained_def)
    ultimately show ?thesis using submit_done [OF inv _ Done(1) refl Done(3) m] sub Done(2) by blast
  qed
qed

lemma submit_all:
  assumes "ds_inv s" and "clocked s" and "submittable s (mset cs)"
  shows "\<exists>t. simulate_all None cs s = Inr t"
  using assms
proof (induction cs arbitrary: s)
  case Nil
  then show ?case by (simp add: simulate_all_def)
next
  case (Cons c cs)
  have "submittable s (add_mset c (mset cs))" using Cons.prems(3) by simp
  then obtain u where "simulate s c None = Inr u" "submittable u (mset cs)" "clocked u"
    using submit_one [OF Cons.prems(1,2)] by blast
  then show ?case using Cons.IH [of u] simulate_inv Cons.prems(1) by (fastforce simp: simulate_all_def)
qed

section \<open>Where the candidates come from\<close>

text \<open>Assignments that were simulated one after the other are submittable as a set.\<close>

definition placement :: "desired_state \<Rightarrow> observation list \<Rightarrow> change \<Rightarrow> bool" where
  "placement s reports c \<longleftrightarrow>
     (\<exists>aid rid pid hid. c = assign_of aid rid pid hid \<and> is_active s hid \<and> reporting reports hid)"

lemma placement_host_ok:
  assumes "placement_host w s pid reports = Inr (Some hid)"
  shows "is_active s hid \<and> reporting reports hid"
proof -
  let ?P = "\<lambda>b. \<forall>x \<in> set_option b. is_active s (snd x) \<and> reporting reports (snd x)"
  obtain p best where loop: "foldR (offer_host w s p reports) (sort_key h_host_id (ds_hosts s)) None = Inr best"
    and best: "map_option snd best = Some hid"
    using assms by (auto simp: placement_host_def bindR_Inr_iff)
  from loop have "?P best"
  proof (rule foldR_invariant [where P = ?P])
    fix h u v assume "?P u" and "offer_host w s p reports h u = Inr v"
    then show "?P v" by (auto simp: offer_host_def bindR_Inr_iff Let_def split: if_splits option.splits)
  qed simp
  then show ?thesis using best by auto
qed

lemma placed_submittable:
  assumes "ds_inv s" and "simulate_all None cs s = Inr t" and "\<forall>c \<in> set cs. placement s0 reports c"
  shows "submittable s (mset cs)"
  using assms
proof (induction cs arbitrary: s)
  case Nil
  then show ?case by (simp add: submittable_def ds_inv_def within_slots_def)
next
  case (Cons c cs)
  obtain u where u: "simulate s c None = Inr u" and rest: "simulate_all None cs u = Inr t"
    using Cons.prems(2) by (auto simp: simulate_all_def bindR_Inr_iff)
  obtain aid rid pid hid where c: "c = assign_of aid rid pid hid" using Cons.prems(3) by (auto simp: placement_def)
  obtain at where "with_assignment s aid rid pid hid at = Inr u" using u c simulate_assign_of by blast
  then have f: "fit_assign s aid rid pid hid" and m: "one_more s aid hid at u"
    using one_more_assigned by (auto simp: assigned [OF Cons.prems(1)])
  have sub: "submittable u (mset cs)"
    using Cons.IH [OF _ rest] simulate_inv [OF u Cons.prems(1)] Cons.prems(3) by simp
  have off: "offers u = offers s" using m by (simp add: one_more_def offers_def fun_eq_iff)
  have later: "fits s d \<and> subject_key d \<noteq> subject_key c" if d: "d \<in> set cs" for d
  proof -
    obtain a r p h where d': "d = assign_of a r p h" using Cons.prems(3) d by (auto simp: placement_def)
    have "fits u d" using sub d by (simp add: submittable_def)
    then have "fit_assign u a r p h"
      by (cases rule: fits_cases) (simp_all add: d' assign_of_def drain_done_def)
    then have "fit_assign s a r p h \<and> a \<noteq> aid" using m by (simp add: fit_assign_def off one_more_def)
    then show ?thesis using d' c fits_assign by (simp add: subject_key_def)
  qed
  have "subject_key c \<notin># image_mset subject_key (mset cs)" using later by fastforce
  then have "count (image_mset subject_key (mset cs)) (subject_key c) = 0" by (simp only: not_in_iff)
  then have "\<forall>k. count (image_mset subject_key (mset (c # cs))) k \<le> 1"
    using sub by (auto simp: submittable_def)
  moreover have "int (in_use_of s (h_host_id h)) + int (size (filter_mset (places (h_host_id h)) (mset (c # cs))))
      \<le> h_slots h" if "h \<in> set (ds_hosts s)" for h
  proof -
    have "int (in_use_of u (h_host_id h)) + int (size (filter_mset (places (h_host_id h)) (mset cs))) \<le> h_slots h"
      using sub that m by (simp add: submittable_def one_more_def)
    then show ?thesis using m c by (simp add: one_more_def split: if_splits)
  qed
  ultimately show ?case using later fits_assign [OF f] c by (simp add: submittable_def)
qed

lemma simulate_all_append: "simulate_all at cs s = Inr u \<Longrightarrow> simulate_all at ds u = Inr t \<Longrightarrow>
    simulate_all at (cs @ ds) s = Inr t"
  by (simp add: simulate_all_def foldR_append)

lemma place_loop_simulates:
  "place_loop s reports pid n taken w = Inr (cs, t) \<Longrightarrow>
     simulate_all None cs w = Inr t \<and> (\<forall>c \<in> set cs. placement s reports c)"
proof (induction n arbitrary: taken w cs)
  case 0
  then show ?case by (simp add: simulate_all_def)
next
  case (Suc n)
  then show ?case
    by (fastforce simp: bindR_Inr_iff simulate_all_def Let_def placement_def split: option.splits
        dest!: assign_change_ok placement_host_ok)
qed

lemma floor_loop_simulates:
  assumes "foldR (floor_step s reports) ps (dr, [], s) = Inr (dr2, cs, w)"
  shows "simulate_all None cs s = Inr w \<and> (\<forall>c \<in> set cs. placement s reports c)"
proof -
  let ?P = "\<lambda>(d :: drift list, cs, w). simulate_all None cs s = Inr w \<and> (\<forall>c \<in> set cs. placement s reports c)"
  have "?P (dr2, cs, w)"
    using assms
  proof (rule foldR_invariant [where P = ?P])
    show "?P (dr, [], s)" by (simp add: simulate_all_def)
    fix p u v assume "?P u" and step: "floor_step s reports p u = Inr v"
    moreover obtain d xs y where u: "u = (d, xs, y)" by (metis surj_pair)
    ultimately show "?P v"
      by (fastforce simp: floor_step_def Let_def bindR_Inr_iff split: if_splits
          dest: place_loop_simulates intro: simulate_all_append)
  qed
  then show ?thesis by simp
qed

lemma distinct_classes: "(\<And>k. length (filter (\<lambda>x. f x = k) xs) \<le> 1) \<Longrightarrow> distinct (map f xs)"
proof (induction xs)
  case (Cons x xs)
  have "length (filter (\<lambda>y. f y = k) xs) \<le> 1" for k
    using Cons.prems [of k] by (simp split: if_splits)
  moreover have "filter (\<lambda>y. f y = f x) xs = []" using Cons.prems [of "f x"] by simp
  ultimately show ?case using Cons.IH by (auto simp: filter_empty_conv)
qed simp

text \<open>A valid state has at most one drain under way per host, and the host is draining.\<close>

lemma draining_host:
  assumes "ds_inv s" and "d \<in> set (ds_drains s)" and "d_state d = D_DRAINING"
    and "h \<in> set (ds_hosts s)" and "h_host_id h = d_host_id d"
  shows "h_state h = H_DRAINING"
proof -
  have "d \<in> set (open_drains s (h_host_id h))" using assms(2,3,5) by (simp add: open_drains_def)
  then have "D_DRAINING \<in> set (expected_drains (h_state h))"
    using assms(1,3,4) unfolding ds_inv_def drains_agree_def by (metis image_eqI set_map)
  then show ?thesis by (auto simp: expected_drains_def split: host_state.splits if_splits)
qed

lemma expected_drains_one: "length (expected_drains st) \<le> 1"
  by (cases st) (simp_all add: expected_drains_def)

lemma drains_distinct:
  assumes "ds_inv s"
  shows "distinct (map d_host_id (filter (\<lambda>d. d_state d = D_DRAINING) (ds_drains s)))"
proof (rule distinct_classes)
  fix k
  let ?on = "filter (\<lambda>d. d_host_id d = k) (filter (\<lambda>d. d_state d = D_DRAINING) (ds_drains s))"
  show "length ?on \<le> 1"
  proof (cases "k \<in> h_host_id ` set (ds_hosts s)")
    case True
    then obtain h where h: "h \<in> set (ds_hosts s)" "k = h_host_id h" by blast
    have "?on = filter (\<lambda>d. d_state d = D_DRAINING) (open_drains s k)"
      by (auto simp: open_drains_def intro: filter_cong)
    moreover have "length (open_drains s k) \<le> 1"
      using assms h unfolding ds_inv_def drains_agree_def
      by (metis (no_types, lifting) length_map expected_drains_one)
    ultimately show ?thesis using length_filter_le order_trans by metis
  next
    case False
    then have "?on = []" using assms by (auto simp: ds_inv_def ds_ok_def refs_ok_def filter_empty_conv)
    then show ?thesis by simp
  qed
qed

text \<open>No report of the host shows a runner.\<close>

definition unseen :: "observation list \<Rightarrow> string \<Rightarrow> bool" where
  "unseen reports hid \<longleftrightarrow> (\<forall>r \<in> set reports. ob_host_id r = hid \<longrightarrow> ob_runners r = [])"

definition reported_runners :: "observation list \<Rightarrow> string \<Rightarrow> int" where
  "reported_runners reports hid =
     (case List.find (\<lambda>r. ob_host_id r = hid) reports of None \<Rightarrow> 0 | Some r \<Rightarrow> int (runner_count r))"

lemma unseen_find: "distinct (map ob_host_id reports) \<Longrightarrow> reported_runners reports hid = 0 \<Longrightarrow> unseen reports hid"
proof (induction reports)
  case (Cons r rs)
  have "reported_runners (r # rs) hid = (if ob_host_id r = hid then int (runner_count r) else reported_runners rs hid)"
    by (simp add: reported_runners_def)
  note step = this
  show ?case
  proof (cases "ob_host_id r = hid")
    case True
    then have "ob_runners r = []" using Cons.prems(2) step by (simp add: runner_count_def)
    moreover have "hid \<notin> ob_host_id ` set rs" using True Cons.prems(1) by auto
    ultimately show ?thesis by (auto simp: unseen_def)
  next
    case False
    then have "unseen rs hid" using Cons step by simp
    then show ?thesis using False by (simp add: unseen_def)
  qed
qed (simp add: unseen_def)

lemma drain_loop_found:
  assumes inv: "ds_inv s" and reports: "distinct (map ob_host_id reports)"
  shows "foldR (drain_step s reports) ds (dr, cs) = Inr (dr2, cs2) \<Longrightarrow> set ds \<subseteq> set (ds_drains s) \<Longrightarrow>
    \<exists>D. cs2 = cs @ map drain_done D \<and> subseq D (map d_host_id (filter (\<lambda>d. d_state d = D_DRAINING) ds))
      \<and> (\<forall>hid \<in> set D. fits s (drain_done hid) \<and> unseen reports hid)"
proof (induction ds arbitrary: dr cs)
  case Nil
  then show ?case by simp
next
  case (Cons d ds)
  obtain dr1 cs1 where step: "drain_step s reports d (dr, cs) = Inr (dr1, cs1)"
    and "foldR (drain_step s reports) ds (dr1, cs1) = Inr (dr2, cs2)"
    using Cons.prems(1) by (auto simp: bindR_Inr_iff)
  then obtain D where D: "cs2 = cs1 @ map drain_done D"
      "subseq D (map d_host_id (filter (\<lambda>d. d_state d = D_DRAINING) ds))" "\<forall>hid \<in> set D. fits s (drain_done hid) \<and> unseen reports hid"
    using Cons.IH Cons.prems(2) by fastforce
  have k: "keys_ok s" using inv by (simp add: ds_inv_def ds_ok_def)
  show ?case
  proof (cases "cs1 = cs")
    case True
    moreover have "subseq D (map d_host_id (filter (\<lambda>d. d_state d = D_DRAINING) (d # ds)))"
      using D(2) by (auto intro: subseq_Cons')
    ultimately show ?thesis using D by blast
  next
    case False
    then obtain h c where st: "d_state d = D_DRAINING" and h: "ds_host s (d_host_id d) = Inr h"
      and c: "ds_capacity s (d_host_id d) = Inr c" "cap_in_use c = 0" "reported_runners reports (d_host_id d) = 0"
      and cs1: "cs1 = cs @ [drain_done (h_host_id h)]"
      using step unfolding drain_step_def Let_def prod.case reported_runners_def [symmetric]
      by (auto simp: bindR_Inr_iff split: if_splits dest!: complete_change_ok)
    have hd: "h \<in> set (ds_hosts s)" "h_host_id h = d_host_id d" using h k by (simp_all add: ds_host_ok)
    have "h_state h = H_DRAINING" using draining_host [OF inv _ st hd] Cons.prems(2) by simp
    moreover have "in_use_of s (h_host_id h) = 0" using c hd by (auto simp: ds_capacity_ok [OF k])
    ultimately have "fits s (drain_done (h_host_id h))" using hd by (intro fits_done)
    moreover have "unseen reports (h_host_id h)" using unseen_find [OF reports c(3)] hd by simp
    ultimately show ?thesis
      using D st hd cs1 by (intro exI [of _ "h_host_id h # D"]) simp
  qed
qed

section \<open>Properties\<close>

lemma distinct_map_sort: "distinct (map f (sort_key g xs)) \<longleftrightarrow> distinct (map f xs)"
  by (rule mset_eq_imp_distinct_iff) simp

lemma distinct_subseq: "subseq xs ys \<Longrightarrow> distinct ys \<Longrightarrow> distinct xs"
  by (auto simp: subseq_conv_nths)

text \<open>What \<open>reconcile\<close> builds, from what it found.\<close>

lemma reconcile_ok:
  assumes "reconcile s obs lims halted = Inr r"
  obtains drifts found where "distinct (map ob_host_id obs)"
    and "find_drift s (sort_key ob_host_id obs) = Inr (drifts, found)"
    and "rc_candidates r = sort_key candidate_key found" and "mset (rc_changes r) \<subseteq># mset found"
    and "rc_base_revision r = ds_revision s"
proof -
  let ?reports = "sort_key ob_host_id obs"
  obtain drifts found sub waiting where d: "distinct (map ob_host_id ?reports)"
    and f: "find_drift s ?reports = Inr (drifts, found)"
    and b: "bound_candidates s (sort_key candidate_key found) (limits_or_default lims) halted = Inr (sub, waiting)"
    and r: "rc_candidates r = sort_key candidate_key found" "rc_changes r = sub" "rc_base_revision r = ds_revision s"
    using assms
    by (auto simp: reconcile_def Let_def bindR_Inr_iff reconciliation_make_def split: if_splits)
  have "distinct (map ob_host_id obs)" using d by (simp only: distinct_map_sort)
  moreover have "mset sub \<subseteq># mset found"
    using bound_loop_splits [OF bound_candidates_ok [OF b]] by simp
  ultimately show thesis using that f r by blast
qed

lemma found_submittable:
  assumes inv: "ds_inv s" and reports: "distinct (map ob_host_id reports)"
    and f: "find_drift s reports = Inr (drifts, found)"
  obtains A D where "found = A @ map drain_done D" and "\<forall>c \<in> set A. placement s reports c"
    and "\<forall>hid \<in> set D. fits s (drain_done hid) \<and> unseen reports hid" and "submittable s (mset found)"
proof -
  obtain dr A w dr0 where floor: "foldR (floor_step s reports) (sort_key p_pool_id (ds_pools s)) (dr0, [], s) = Inr (dr, A, w)"
    and drains: "foldR (drain_step s reports) (ds_drains s) (dr, A) = Inr (drifts, found)"
    using f by (auto simp: find_drift_def bindR_Inr_iff)
  have A: "simulate_all None A s = Inr w" "\<forall>c \<in> set A. placement s reports c"
    using floor_loop_simulates [OF floor] by simp_all
  obtain D where D: "found = A @ map drain_done D"
      "subseq D (map d_host_id (filter (\<lambda>d. d_state d = D_DRAINING) (ds_drains s)))"
      "\<forall>hid \<in> set D. fits s (drain_done hid) \<and> unseen reports hid"
    using drain_loop_found [OF inv reports drains] by blast
  have sub: "submittable s (mset A)" using placed_submittable [OF inv A] .
  have "distinct D" using distinct_subseq [OF D(2) drains_distinct [OF inv]] .
  then have "distinct (map subject_key (map drain_done D))"
    by (simp add: comp_def subject_key_def distinct_map inj_on_def)
  then have one: "count (mset (map subject_key (map drain_done D))) k \<le> 1" for k
    unfolding distinct_count_atmost_1 by (metis le_numeral_extra(4) zero_le_one)
  have apart: "count (mset (map subject_key A)) k = 0 \<or> count (mset (map subject_key (map drain_done D))) k = 0" for k
  proof (cases "fst k = ASSIGN")
    case True
    then have "k \<notin># mset (map subject_key (map drain_done D))" by (auto simp: subject_key_def)
    then show ?thesis by (simp only: not_in_iff) simp
  next
    case False
    then have "k \<notin># mset (map subject_key A)" using A(2) by (fastforce simp: subject_key_def placement_def)
    then show ?thesis by (simp only: not_in_iff) simp
  qed
  have "count (image_mset subject_key (mset found)) k \<le> 1" for k
  proof -
    have "count (image_mset subject_key (mset found)) k
        = count (mset (map subject_key A)) k + count (mset (map subject_key (map drain_done D))) k"
      by (simp only: D(1) mset_append image_mset_union count_union mset_map)
    moreover have "count (mset (map subject_key A)) k \<le> 1" using sub unfolding submittable_def mset_map by blast
    ultimately show ?thesis using apart [of k] one [of k] by linarith
  qed
  moreover have "filter_mset (places h) (mset found) = filter_mset (places h) (mset A)" for h
  proof -
    have "filter (places h) (map drain_done D) = []" by (auto simp: filter_empty_conv)
    then show ?thesis by (simp only: D(1) filter_append append_Nil2 flip: mset_filter)
  qed
  moreover have "\<forall>c \<in># mset found. fits s c" using sub D(1,3) by (auto simp: submittable_def)
  ultimately have "submittable s (mset found)" using sub by (simp add: submittable_def)
  then show thesis using that D(1,3) A(2) by blast
qed

lemma build_plan_starts: "build_plan s cs = Inr p \<Longrightarrow> pl_base_revision p = ds_revision s
    \<and> pl_resulting_revision p = ds_revision s + int (length cs) \<and> pl_changes p = cs"
  by (auto simp: build_plan_def bindR_Inr_iff plan_make_ok split: if_splits)

text \<open>
  C33: a reconciliation can be carried out. Whatever \<open>reconcile\<close> finds for a valid state whose
  timestamps parse, every non-empty choice of its candidates, in any order, is a plan: \<open>build_plan\<close>
  accepts it on the revision the reconciliation was made from. What is submitted is such a choice,
  and so is what a later batch with other limits submits.
\<close>

theorem reconciliation_plans:
  assumes "ds_inv s" and "plan_clock s = Inr at" and "reconcile s obs lims halted = Inr r"
  shows "mset (rc_changes r) \<subseteq># mset (rc_candidates r)
    \<and> (\<forall>cs. cs \<noteq> [] \<and> mset cs \<subseteq># mset (rc_candidates r) \<longrightarrow>
         (\<exists>p. build_plan s cs = Inr p \<and> pl_base_revision p = rc_base_revision r \<and> pl_changes p = cs))"
proof -
  obtain drifts found where d: "distinct (map ob_host_id (sort_key ob_host_id obs))"
    and f: "find_drift s (sort_key ob_host_id obs) = Inr (drifts, found)"
    and r: "rc_candidates r = sort_key candidate_key found" "mset (rc_changes r) \<subseteq># mset found"
      "rc_base_revision r = ds_revision s"
    using assms(3) by (rule reconcile_ok) (simp only: distinct_map_sort)
  have all: "submittable s (mset found)" using found_submittable [OF assms(1) d f] .
  have "\<exists>p. build_plan s cs = Inr p \<and> pl_base_revision p = ds_revision s \<and> pl_changes p = cs"
    if cs: "cs \<noteq> []" "mset cs \<subseteq># mset found" for cs
  proof -
    have "clocked s" using assms(2) plan_clock_iff by blast
    then obtain t where "simulate_all None cs s = Inr t"
      using submit_all [OF assms(1)] submittable_part [OF all cs(2)] by blast
    then show ?thesis using build_plan_total [OF cs(1)] build_plan_starts by blast
  qed
  then show ?thesis using r by simp
qed

text \<open>
  C34: nothing is disturbed that may still run. Every candidate of a reconciliation either places an
  assignment on an active host that has reported, or completes the drain of a draining host that
  holds no assignment and for which no report shows a runner, which a host that did not report satisfies;
  nothing else is ever proposed.
\<close>

theorem reconciliation_disturbs_nothing:
  assumes "ds_inv s" and "reconcile s obs lims halted = Inr r" and "c \<in> set (rc_candidates r)"
  shows "(\<exists>hid. ch_kind c = ASSIGN \<and> parameter c ''host_id'' = Inr hid \<and> is_active s hid \<and> reporting obs hid)
    \<or> (\<exists>h \<in> set (ds_hosts s). ch_kind c = COMPLETE_DRAIN \<and> ch_subject c = h_host_id h
         \<and> h_state h = H_DRAINING \<and> in_use_of s (h_host_id h) = 0 \<and> unseen obs (h_host_id h))"
proof -
  obtain drifts found where d: "distinct (map ob_host_id (sort_key ob_host_id obs))"
    and f: "find_drift s (sort_key ob_host_id obs) = Inr (drifts, found)"
    and r: "rc_candidates r = sort_key candidate_key found"
    using assms(2) by (rule reconcile_ok) (simp only: distinct_map_sort)
  obtain A D where found: "found = A @ map drain_done D" and A: "\<forall>c \<in> set A. placement s (sort_key ob_host_id obs) c"
    and D: "\<forall>hid \<in> set D. fits s (drain_done hid) \<and> unseen (sort_key ob_host_id obs) hid"
    using found_submittable [OF assms(1) d f] .
  consider "c \<in> set A" | hid where "hid \<in> set D" "c = drain_done hid" using assms(3) r found by auto
  then show ?thesis
  proof cases
    case 1
    then obtain aid rid pid hid where c: "c = assign_of aid rid pid hid" and "is_active s hid" "reporting obs hid"
      using A by (auto simp: placement_def reporting_def)
    then show ?thesis by (simp add: parameter_def) (simp add: assign_of_def)
  next
    case 2
    then have "fits s (drain_done hid)" and u: "unseen obs hid" using D by (auto simp: unseen_def)
    from this(1) show ?thesis
    proof (cases rule: fits_cases)
      case (Assign a b c d)
      then show ?thesis by (simp add: assign_of_def drain_done_def)
    next
      case (Done h)
      then have "hid = h_host_id h" by (simp add: drain_done_def)
      then show ?thesis using Done u 2(2) by auto
    qed
  qed
qed

end
