(* ===== verification/Runner_Example.thy ===== *)
theory Runner_Example
  imports Fleet_Example Fleet_Lifecycle Fleet_Containers Fleet_Submission
begin

text \<open>
  Instances of the properties of the runner side (adapters, containers, lifecycle, reconciliation)
  on the small fleet of \<open>Fleet_Example\<close>.
\<close>

section \<open>Warm pools\<close>

definition warm_i1 :: warm_instance where
  "warm_i1 = \<lparr>wi_instance_id = ''i1'', wi_pool_id = ''p1'', wi_image_digest = hex_a, wi_state = I_PREPULLED\<rparr>"

definition empty_stock :: warm_pool where
  "empty_stock = \<lparr>wp_pool = demo_pool, wp_instances = []\<rparr>"

definition one_warm :: warm_pool where
  "one_warm = \<lparr>wp_pool = demo_pool, wp_instances = [warm_i1]\<rparr>"

lemma demo_stock: "warm_pool_ok empty_stock" "warm_pool_ok one_warm" "admit empty_stock warm_i1 = Inr one_warm"
  by (simp_all add: admit_ok warm_pool_ok_def empty_stock_def one_warm_def warm_i1_def demo_pool_def
      is_warm_def warm_states_def)

theorem warm_pool_reachable_witness:
  "warm_step\<^sup>*\<^sup>* empty_stock one_warm \<and> warm_count one_warm \<le> 1"
proof -
  have s: "warm_step\<^sup>*\<^sup>* empty_stock one_warm"
    using warm_step.admitted [OF demo_stock(3)] by (rule r_into_rtranclp)
  have "warm_count one_warm \<le> p_warm_max (wp_pool empty_stock)"
    using warm_pool_reachable [OF s demo_stock(1)] by simp
  then show ?thesis using s by (simp add: empty_stock_def demo_pool_def)
qed

theorem container_limits_bounded_witness:
  "\<exists>l mem procs share. resource_limits_make (NInt 512) (NFloat 2) (NInt 64) = Inr l
     \<and> limit_arguments l = [''--memory'', int_str mem @ ''m'', ''--cpus'', format_g share, ''--pids-limit'', int_str procs]
     \<and> 1 \<le> mem \<and> mem \<le> 65536"
proof -
  have "int_to_float 512 = Inr 512" "int_to_float 64 = Inr 64"
    using int_to_float_small [of 512] int_to_float_small [of 64] by simp_all
  moreover have "\<lfloor>512::rat\<rfloor> = 512" "\<lfloor>64::rat\<rfloor> = 64" by (simp_all only: floor_numeral)
  ultimately have "resource_limits_make (NInt 512) (NFloat 2) (NInt 64)
      = Inr \<lparr>memory_mib = NInt 512, cpus = NFloat 2, pids = NInt 64\<rparr>"
    by (simp add: resource_limits_make_def limit_def check_limit_def max_memory_mib_def max_cpus_def max_pids_def)
  from this container_limits_bounded [OF this] show ?thesis by blast
qed

section \<open>Lifecycles\<close>

definition fresh_i1 :: job_lifecycle where
  "fresh_i1 = \<lparr>jl_instance_id = ''i1'', jl_image_digest = hex_a, jl_state = J_PREPULLED, jl_job_id = None\<rparr>"

definition busy_i1 :: job_lifecycle where
  "busy_i1 = fresh_i1\<lparr>jl_state := J_ASSIGNED, jl_job_id := Some ''j1''\<rparr>"

definition gone_i1 :: job_lifecycle where
  "gone_i1 = busy_i1\<lparr>jl_state := J_DESTROYED\<rparr>"

lemma runner_ids [simp]: "is_identifier ''i1''" "is_identifier ''j1''" "pinned hex_a"
  by (simp_all add: is_identifier_def char_simps pinned_def starts_with_def hex_a_def)

lemma demo_lifecycles: "jl_ok fresh_i1" "jl_ok busy_i1" "jl_ok gone_i1" "jl_offer fresh_i1 ''j1'' = Inr busy_i1"
  by (simp_all add: jl_offer_ok jl_ok_def fresh_i1_def busy_i1_def gone_i1_def job_named_states_def)

theorem one_job_per_instance_witness:
  "jl_offer fresh_i1 ''j1'' = Inr busy_i1 \<and> jl_step\<^sup>*\<^sup>* busy_i1 (busy_i1\<lparr>jl_state := J_RUNNING\<rparr>)
   \<and> (\<forall>other x. jl_offer (busy_i1\<lparr>jl_state := J_RUNNING\<rparr>) other \<noteq> Inr x)"
proof -
  have "jl_start busy_i1 = Inr (busy_i1\<lparr>jl_state := J_RUNNING\<rparr>)"
    by (simp add: jl_start_def jl_move_ok) (simp add: jl_ok_def fresh_i1_def busy_i1_def)
  then have s: "jl_step\<^sup>*\<^sup>* busy_i1 (busy_i1\<lparr>jl_state := J_RUNNING\<rparr>)" by (blast intro: jl_step.start)
  from one_job_per_instance [OF demo_lifecycles(4) s] s demo_lifecycles(4) show ?thesis by blast
qed

theorem lifecycle_terminates_witness:
  "jl_step fresh_i1 busy_i1 \<and> \<not> (jl_step ^^ 6) fresh_i1 gone_i1"
  using lifecycle_terminates [OF demo_lifecycles(1), of 6 gone_i1] jl_step.offer [OF demo_lifecycles(4)] by auto

definition clean_i1 :: "disposal \<Rightarrow> cleanup_evidence" where
  "clean_i1 d =
     \<lparr>ce_instance_id = ''i1'', ce_image_digest = hex_a, ce_volume_disposal = d, ce_network_disposal = DISPOSED,
      ce_started_at = stamp noon, ce_finished_at = stamp noon, ce_job_id = Some ''j1''\<rparr>"

theorem prove_iff_witness:
  "jl_prove gone_i1 (clean_i1 DISPOSED) = Inr (gone_i1\<lparr>jl_state := J_PROVEN_CLEAN\<rparr>)
   \<and> (\<forall>m. jl_prove gone_i1 (clean_i1 FAILED) \<noteq> Inr m)"
  by (simp add: prove_iff [OF demo_lifecycles(3)])
    (simp add: gone_i1_def busy_i1_def fresh_i1_def clean_i1_def admissible_def)

definition open_gate :: admission_gate where
  "open_gate = \<lparr>ag_unaccounted = [], ag_proven = [], ag_quarantined = []\<rparr>"

definition waiting_gate :: admission_gate where
  "waiting_gate = \<lparr>ag_unaccounted = [''i1''], ag_proven = [], ag_quarantined = []\<rparr>"

definition settled_gate :: admission_gate where
  "settled_gate = \<lparr>ag_unaccounted = [], ag_proven = [clean_i1 DISPOSED], ag_quarantined = []\<rparr>"

theorem replacement_accounted_witness:
  "gate_destroyed open_gate ''i1'' = Inr waiting_gate \<and> cleared_step waiting_gate settled_gate
   \<and> admit_replacement settled_gate empty_stock warm_i1 (Some ''i1'') = Inr one_warm
   \<and> accounted_since waiting_gate settled_gate ''i1''"
proof -
  have d: "gate_destroyed open_gate ''i1'' = Inr waiting_gate"
    by (simp add: gate_destroyed_ok open_gate_def waiting_gate_def gate_ok_def)
  have "gate_prove waiting_gate (clean_i1 DISPOSED) = Inr settled_gate"
    by (simp add: gate_prove_ok waiting_gate_def settled_gate_def gate_ok_def clean_i1_def)
  then have s: "cleared_step waiting_gate settled_gate"
    using prove_iff_witness by (blast intro: cleared_step.proven)
  have a: "admit_replacement settled_gate empty_stock warm_i1 (Some ''i1'') = Inr one_warm"
    using demo_stock(2)
    by (simp add: admit_replacement_ok settled_gate_def) (simp add: empty_stock_def one_warm_def warm_count_def demo_pool_def)
  from replacement_accounted [OF d r_into_rtranclp [where r=cleared_step, OF s] a] d s a show ?thesis by blast
qed

section \<open>Bounded batches\<close>

definition tight :: convergence_limits where
  "tight = \<lparr>max_drains = 1, max_replacements = 1, max_host_mutations = 1\<rparr>"

lemma tight_limits: "limits_make 1 1 1 = Inr tight"
  by (simp add: limits_make_ok tight_def)

lemma demo_batch: "\<exists>sub waiting. bound_candidates demo_state [drain_h2, assign_a1] tight False = Inr (sub, waiting)"
proof -
  have "bound_loop s l h cs u = Inr r \<Longrightarrow> \<exists>a b. r = (a, b)" for s l h cs u r by (cases r) simp
  moreover have "list_all well_formed_candidate [drain_h2, assign_a1]"
    by (simp add: well_formed_candidate_def needed_parameters_def drain_h2_def assign_a1_def)
  ultimately show ?thesis using bound_candidates_total by fastforce
qed

theorem bounded_convergence_witness:
  "\<exists>sub waiting. bound_candidates demo_state [drain_h2, assign_a1] tight False = Inr (sub, waiting)
     \<and> length sub + length waiting = 2 \<and> length (filter touches_host sub) \<le> 1"
proof -
  obtain sub waiting where b: "bound_candidates demo_state [drain_h2, assign_a1] tight False = Inr (sub, waiting)"
    using demo_batch by blast
  from bounded_convergence [OF tight_limits b] have "mset sub + mset (map df_change waiting) = mset [drain_h2, assign_a1]"
    and h: "int (length (filter touches_host sub)) \<le> 1" by simp_all
  from arg_cong [OF this(1), of size] have "length sub + length waiting = 2" by simp
  then show ?thesis using b h by auto
qed

theorem convergence_progresses_witness:
  "\<exists>rest waiting. bound_candidates demo_state [drain_h2, assign_a1] tight False = Inr (drain_h2 # rest, waiting)"
proof -
  obtain sub waiting where b: "bound_candidates demo_state [drain_h2, assign_a1] tight False = Inr (sub, waiting)"
    using demo_batch by blast
  have "hd (sort_key candidate_key [drain_h2, assign_a1]) = drain_h2"
    by (simp add: candidate_key_def drain_h2_def assign_a1_def)
  then show ?thesis using convergence_progresses [OF b] b
    by (auto simp: tight_def demo_state_def demo_pool_def)
qed

section \<open>One reconciliation\<close>

text \<open>The state with \<open>h2\<close> draining and \<open>a1\<close> on \<open>h1\<close>, reconciled while no host reports.\<close>

lemma state2_clock: "plan_clock state2 = Inr (stamp noon)"
  by (simp add: plan_clock_def state_timestamps_def state2_def state1_def demo_state_def new_assignment_def
      new_drain_def present_def opt_str_def mapR_def instant_Some later_def stamp_def [symmetric])

lemma demo_reads: "identifier_of (PStr ''h1'') w = Inr ''h1''" "identifier_of (PStr ''h2'') w = Inr ''h2''"
  "capacity_make 2 0 = Inr \<lparr>cap_total = 2, cap_in_use = 0\<rparr>"
  by (simp_all add: scalar_ok capacity_make_ok)

lemma demo_drift: "\<exists>drifts. find_drift state2 [] = Inr (drifts, [drain_done ''h2''])"
  by (simp add: find_drift_def unknown_host_drifts_def silent_host_drifts_def unmanaged_drifts_def observed_pairs_def
      mapR_def state2_def state1_def demo_state_def demo_host_def host_in_def reporting_def drift_make_def demo_reads
      floor_step_def observed_warm_def demo_pool_def drain_step_def new_drain_def ds_host_def ds_capacity_def
      in_use_of_def new_assignment_def change_make_def drain_done_def Let_def next_rev_def)

lemma demo_bounded: "bound_candidates state2 [drain_done ''h2''] default_limits False = Inr ([drain_done ''h2''], [])"
proof -
  have "spent_pool state2 no_usage (disrupted_pools state2 (drain_done ''h2'')) = None"
    by (auto simp: spent_pool_None disrupted_pools_def budget_of_def state2_def state1_def demo_state_def ds_host_def
        host_in_def demo_host_def demo_pool_def no_usage_def)
  then have "exhausted state2 (drain_done ''h2'') no_usage default_limits False = Inr None"
    by (simp add: exhausted_None default_limits_def no_usage_def is_replacement_def host_of_def)
  moreover obtain u where "charge state2 (drain_done ''h2'') no_usage = Inr u"
    using charge_ok [of "drain_done ''h2''" "Some ''h2''"] by (simp add: host_of_def)
  ultimately show ?thesis
    by (simp add: bound_candidates_def validated_candidates_def check_candidate_def needed_parameters_def mapR_def)
qed

text \<open>Although \<open>h2\<close> has not reported, its drain is completed.\<close>

lemma unreported_host_drained: "\<exists>r. reconcile state2 [] None False = Inr r
    \<and> rc_candidates r = [drain_done ''h2''] \<and> rc_changes r = [drain_done ''h2'']"
proof -
  obtain drifts where "find_drift state2 [] = Inr (drifts, [drain_done ''h2''])" using demo_drift by blast
  then show ?thesis
    by (simp add: reconcile_def Let_def limits_or_default_def demo_bounded reconciliation_make_def run_checks_ok bindR_Inr_iff
        sort_key_id_if_sorted sorted_sort_key)
qed

theorem reconciliation_plans_witness:
  "\<exists>r p. reconcile state2 [] None False = Inr r \<and> rc_changes r = [drain_done ''h2'']
     \<and> build_plan state2 [drain_done ''h2''] = Inr p \<and> pl_base_revision p = rc_base_revision r"
proof -
  obtain r where r: "reconcile state2 [] None False = Inr r" "rc_candidates r = [drain_done ''h2'']"
      "rc_changes r = [drain_done ''h2'']"
    using unreported_host_drained by blast
  then show ?thesis
    using reconciliation_plans [OF state2_inv state2_clock r(1)] by (metis list.discI subset_mset.order_refl)
qed

theorem reconciliation_disturbs_nothing_witness:
  "\<exists>r. reconcile state2 [] None False = Inr r \<and> drain_done ''h2'' \<in> set (rc_candidates r)
     \<and> in_use_of state2 ''h2'' = 0 \<and> unseen [] ''h2''"
proof -
  obtain r where r: "reconcile state2 [] None False = Inr r" "rc_candidates r = [drain_done ''h2'']"
    using unreported_host_drained by blast
  then show ?thesis
    using reconciliation_disturbs_nothing [OF state2_inv r(1), of "drain_done ''h2''"] by auto
qed

end
