(* ===== verification/Py_Loads.thy ===== *)
theory Py_Loads
  imports Py_Json
begin

text \<open>
  \<open>json.loads\<close> as CPython's scanner works: white space, the three literals and the three non-finite
  names, strings with their escapes, numbers, arrays and objects, where a repeated key keeps its
  place and takes the last value. \<^const>\<open>None\<close> stands for the \<open>ValueError\<close> it raises. A number with a
  fraction or an exponent becomes the double nearest to it, kept as its shortest \<open>repr\<close>. An escape
  for a character beyond the 256 of the model is folded into them; the fuel of the value parser is
  twice the length of the text, and \<open>loads_fuel\<close> shows that more never changes an answer.
\<close>

section \<open>Doubles\<close>

fun bit_length :: "nat \<Rightarrow> nat" where
  "bit_length n = (if n = 0 then 0 else Suc (bit_length (n div 2)))"

declare bit_length.simps [simp del]

definition round_even :: "nat \<Rightarrow> nat \<Rightarrow> nat" where
  "round_even a b =
     (let q = a div b; r = a mod b in if b < 2 * r \<or> (2 * r = b \<and> odd q) then q + 1 else q)"

text \<open>The mantissa and exponent of the double nearest to \<open>p / q\<close>, ties to even; \<^const>\<open>None\<close> is infinity.\<close>

definition scaled_round :: "nat \<Rightarrow> nat \<Rightarrow> int \<Rightarrow> nat" where
  "scaled_round p q e = (if e < 0 then round_even (p * 2 ^ nat (- e)) q else round_even p (q * 2 ^ nat e))"

definition nearest_double :: "nat \<Rightarrow> nat \<Rightarrow> (nat \<times> int) option" where
  "nearest_double p q =
     (if p = 0 then Some (0, 0)
      else
        let e0 = int (bit_length p) - int (bit_length q) - 53;
            e1 = (if (if e0 < 0 then q * 2 ^ 53 \<le> p * 2 ^ nat (- e0) else q * 2 ^ 53 * 2 ^ nat e0 \<le> p)
                  then e0 + 1 else e0);
            e = max e1 (- 1074);
            m0 = scaled_round p q e;
            (m, x) = (if m0 = 2 ^ 53 then (2 ^ 52, e + 1) else (m0, e))
        in if m = 0 then Some (0, 0) else if 971 < x then None else Some (m, x))"

definition double_ratio :: "nat \<times> int \<Rightarrow> nat \<times> nat" where
  "double_ratio d = (case d of (m, e) \<Rightarrow> if e < 0 then (m, 2 ^ nat (- e)) else (m * 2 ^ nat e, 1))"

text \<open>\<open>p / q\<close> and ten to the \<open>k\<close>: the floor of the quotient.\<close>

definition digits_floor :: "nat \<Rightarrow> nat \<Rightarrow> int \<Rightarrow> nat" where
  "digits_floor p q k = (if k < 0 then p * 10 ^ nat (- k) div q else p div (q * 10 ^ nat k))"

definition decimal_ratio :: "nat \<Rightarrow> int \<Rightarrow> nat \<times> nat" where
  "decimal_ratio d k = (if k < 0 then (d, 10 ^ nat (- k)) else (d * 10 ^ nat k, 1))"

text \<open>The decimal exponent: where \<open>10 ^ e \<le> p / q < 10 ^ (e + 1)\<close>, from an estimate.\<close>

fun settle_exponent :: "nat \<Rightarrow> nat \<Rightarrow> nat \<Rightarrow> int \<Rightarrow> int" where
  "settle_exponent 0 p q e = e"
| "settle_exponent (Suc n) p q e =
     (if digits_floor p q e = 0 then settle_exponent n p q (e - 1)
      else if 10 \<le> digits_floor p q e then settle_exponent n p q (e + 1) else e)"

definition decimal_place :: "nat \<Rightarrow> nat \<Rightarrow> int" where
  "decimal_place p q =
     settle_exponent 700 p q ((int (bit_length p) - int (bit_length q)) * 30103 div 100000)"

text \<open>The closest \<open>n\<close>-digit decimal that reads back as the double, if there is one.\<close>

definition candidate_digits :: "nat \<times> int \<Rightarrow> nat \<Rightarrow> (nat \<times> int) option" where
  "candidate_digits d n =
     (let (p, q) = double_ratio d;
          k = decimal_place p q - int n + 1;
          lo = digits_floor p q k;
          back = (\<lambda>c. case decimal_ratio c k of (a, b) \<Rightarrow> nearest_double a b = Some d);
          above = (case decimal_ratio (2 * lo + 1) k of (a, b) \<Rightarrow> a * q < 2 * p * b
                     \<or> (a * q = 2 * p * b \<and> odd lo))
      in if back lo \<and> back (lo + 1) then Some (if above then lo + 1 else lo, k)
         else if back lo then Some (lo, k)
         else if back (lo + 1) then Some (lo + 1, k)
         else None)"

fun shortest_digits :: "nat \<times> int \<Rightarrow> nat list \<Rightarrow> nat \<times> int" where
  "shortest_digits d [] = (0, 0)"
| "shortest_digits d (n # ns) = (case candidate_digits d n of Some r \<Rightarrow> r | None \<Rightarrow> shortest_digits d ns)"

definition zeros :: "nat \<Rightarrow> string" where
  "zeros n = replicate n (CHR ''0'')"

definition trim_zeros :: "string \<Rightarrow> string" where
  "trim_zeros s = rev (dropWhile (\<lambda>c. c = CHR ''0'') (rev s))"

definition exponent_str :: "int \<Rightarrow> string" where
  "exponent_str e =
     ''e'' @ (if e < 0 then ''-'' else ''+'') @ (if \<bar>e\<bar> < 10 then ''0'' else []) @ nat_str (nat \<bar>e\<bar>)"

text \<open>\<open>repr\<close> of a double: fixed notation when the point falls between four zeros and sixteen digits.\<close>

definition float_repr :: "bool \<Rightarrow> nat \<times> int \<Rightarrow> string" where
  "float_repr negative d =
     (let body =
        (if fst d = 0 then ''0.0''
         else
           let (n, k) = shortest_digits d [1..<18];
               ds = trim_zeros (nat_str n);
               point = k + int (length (nat_str n));
               l = length ds
           in if point \<le> - 4 \<or> 16 < point
              then (if l = 1 then ds else take 1 ds @ ''.'' @ drop 1 ds) @ exponent_str (point - 1)
              else if point \<le> 0 then ''0.'' @ zeros (nat (- point)) @ ds
              else if int l \<le> point then ds @ zeros (nat point - l) @ ''.0''
              else take (nat point) ds @ ''.'' @ drop (nat point) ds)
      in (if negative then ''-'' else []) @ body)"

section \<open>Tokens\<close>

definition is_space :: "char \<Rightarrow> bool" where
  "is_space c \<longleftrightarrow> code c \<in> {32, 9, 10, 13}"

definition skip_ws :: "string \<Rightarrow> string" where
  "skip_ws s = dropWhile is_space s"

definition hex_value :: "char \<Rightarrow> nat option" where
  "hex_value c =
     (if is_digit c then Some (code c - 48)
      else if 97 \<le> code c \<and> code c \<le> 102 then Some (code c - 87)
      else if 65 \<le> code c \<and> code c \<le> 70 then Some (code c - 55)
      else None)"

fun hex_number :: "nat \<Rightarrow> string \<Rightarrow> nat option" where
  "hex_number a [] = Some a"
| "hex_number a (c # cs) = (case hex_value c of None \<Rightarrow> None | Some d \<Rightarrow> hex_number (16 * a + d) cs)"

definition hex_escape :: "string \<Rightarrow> (nat \<times> string) option" where
  "hex_escape s =
     (if length s < 4 then None
      else case hex_number 0 (take 4 s) of None \<Rightarrow> None | Some n \<Rightarrow> Some (n, drop 4 s))"

text \<open>After a backslash: one character, or two units of a surrogate pair.\<close>

definition unicode_escape :: "string \<Rightarrow> (char \<times> string) option" where
  "unicode_escape s =
     (case hex_escape s of
        None \<Rightarrow> None
      | Some (n, r) \<Rightarrow>
          if 55296 \<le> n \<and> n < 56320 \<and> take 2 r = [backslash, CHR ''u'']
          then (case hex_escape (drop 2 r) of
                  None \<Rightarrow> None
                | Some (m, r2) \<Rightarrow>
                    if 56320 \<le> m \<and> m < 57344 then Some (char_of (m mod 256), r2)
                    else Some (char_of (n mod 256), r))
          else Some (char_of (n mod 256), r))"

definition escape :: "string \<Rightarrow> (char \<times> string) option" where
  "escape s =
     (case s of
        [] \<Rightarrow> None
      | c # r \<Rightarrow>
          if c = quote_char \<or> c = backslash \<or> c = CHR ''/'' then Some (c, r)
          else if c = CHR ''n'' then Some (newline, r)
          else if c = CHR ''r'' then Some (CHR 0x0D, r)
          else if c = CHR ''t'' then Some (CHR 0x09, r)
          else if c = CHR ''f'' then Some (CHR 0x0C, r)
          else if c = CHR ''b'' then Some (CHR 0x08, r)
          else if c = CHR ''u'' then unicode_escape r
          else None)"

lemma hex_escape_shorter: "hex_escape s = Some (n, r) \<Longrightarrow> length r < length s"
  by (auto simp: hex_escape_def split: if_splits option.splits)

lemma unicode_escape_shorter: "unicode_escape s = Some (c, r) \<Longrightarrow> length r < length s"
  by (force simp: unicode_escape_def split: if_splits option.splits prod.splits dest: hex_escape_shorter)

lemma escape_shorter: "escape s = Some (c, r) \<Longrightarrow> length r < length s"
  by (auto simp: escape_def split: list.splits if_splits dest: unicode_escape_shorter)

function read_string :: "string \<Rightarrow> (string \<times> string) option" where
  "read_string [] = None"
| "read_string (c # r) =
     (if c = quote_char then Some ([], r)
      else if code c < 32 then None
      else if c = backslash
      then (case escape r of
              None \<Rightarrow> None
            | Some (x, r2) \<Rightarrow> map_option (\<lambda>(t, rest). (x # t, rest)) (read_string r2))
      else map_option (\<lambda>(t, rest). (c # t, rest)) (read_string r))"
  by pat_completeness auto
termination
  by (relation "measure length") (auto dest: escape_shorter)

text \<open>The three parts of a number, as the pattern takes them, and what is left.\<close>

definition number_whole :: "string \<Rightarrow> (string \<times> string) option" where
  "number_whole s =
     (case s of
        [] \<Rightarrow> None
      | c # r \<Rightarrow>
          if c = CHR ''0'' then Some (''0'', r)
          else if is_digit c then Some (takeWhile is_digit s, dropWhile is_digit s)
          else None)"

definition number_fraction :: "string \<Rightarrow> string \<times> string" where
  "number_fraction s =
     (case s of
        c # d # r \<Rightarrow>
          if c = CHR ''.'' \<and> is_digit d then (takeWhile is_digit (d # r), dropWhile is_digit (d # r)) else ([], s)
      | _ \<Rightarrow> ([], s))"

definition signed_digits :: "string \<Rightarrow> (int \<times> string) option" where
  "signed_digits s =
     (let (neg, r) = (case s of
            [] \<Rightarrow> (False, s)
          | c # t \<Rightarrow> if c = CHR ''-'' then (True, t) else if c = CHR ''+'' then (False, t) else (False, s));
          ds = takeWhile is_digit r
      in if ds = [] then None
         else Some (if neg then - int (num_of ds) else int (num_of ds), dropWhile is_digit r))"

definition number_exponent :: "string \<Rightarrow> int option \<times> string" where
  "number_exponent s =
     (case s of
        [] \<Rightarrow> (None, s)
      | c # r \<Rightarrow>
          if c = CHR ''e'' \<or> c = CHR ''E''
          then (case signed_digits r of None \<Rightarrow> (None, s) | Some (x, t) \<Rightarrow> (Some x, t))
          else (None, s))"

definition max_str_digits :: nat where
  "max_str_digits = 4300"

definition float_value :: "bool \<Rightarrow> string \<Rightarrow> string \<Rightarrow> int \<Rightarrow> pyval" where
  "float_value negative whole fraction x =
     (case decimal_ratio (num_of (whole @ fraction)) (x - int (length fraction)) of
        (p, q) \<Rightarrow> case nearest_double p q of
                    None \<Rightarrow> PInf negative
                  | Some d \<Rightarrow> PFloat (float_repr negative d))"

definition read_number :: "string \<Rightarrow> (pyval \<times> string) option" where
  "read_number s =
     (let (negative, body) = (if s \<noteq> [] \<and> hd s = CHR ''-'' then (True, tl s) else (False, s)) in
      case number_whole body of
        None \<Rightarrow> None
      | Some (whole, r) \<Rightarrow>
          let (fraction, r2) = number_fraction r;
              (x, r3) = number_exponent r2
          in if fraction = [] \<and> x = None
             then (if max_str_digits < length whole then None
                   else Some (PInt (if negative then - int (num_of whole) else int (num_of whole)), r))
             else Some (float_value negative whole fraction (case x of None \<Rightarrow> 0 | Some e \<Rightarrow> e), r3))"

definition literals :: "(string \<times> pyval) list" where
  "literals =
     [(''null'', PNone), (''true'', PBool True), (''false'', PBool False), (''NaN'', PNaN),
      (''Infinity'', PInf False), (''-Infinity'', PInf True)]"

definition read_literal :: "string \<Rightarrow> (pyval \<times> string) option" where
  "read_literal s =
     (case List.find (\<lambda>(t, v). starts_with t s) literals of
        Some (t, v) \<Rightarrow> Some (v, drop (length t) s)
      | None \<Rightarrow> read_number s)"

section \<open>Values\<close>

text \<open>A dictionary built by assigning the pairs in order.\<close>

definition dict_set :: "(string \<times> pyval) list \<Rightarrow> string \<times> pyval \<Rightarrow> (string \<times> pyval) list" where
  "dict_set d kv =
     (if fst kv \<in> fst ` set d then map (\<lambda>x. if fst x = fst kv then kv else x) d else d @ [kv])"

definition dict_of :: "(string \<times> pyval) list \<Rightarrow> (string \<times> pyval) list" where
  "dict_of kvs = foldl dict_set [] kvs"

definition opens :: "char \<Rightarrow> string \<Rightarrow> bool" where
  "opens c s \<longleftrightarrow> s \<noteq> [] \<and> hd s = c"

fun read_value :: "nat \<Rightarrow> string \<Rightarrow> (pyval \<times> string) option"
  and read_elements :: "nat \<Rightarrow> string \<Rightarrow> (pyval list \<times> string) option"
  and read_members :: "nat \<Rightarrow> string \<Rightarrow> ((string \<times> pyval) list \<times> string) option" where
  "read_value 0 s = None"
| "read_value (Suc n) s =
     (if opens quote_char s then map_option (\<lambda>(t, r). (PStr t, r)) (read_string (tl s))
      else if opens (CHR ''['') s
      then (let r = skip_ws (tl s) in
            if opens (CHR '']'') r then Some (PList [], tl r)
            else map_option (\<lambda>(vs, t). (PList vs, t)) (read_elements n r))
      else if opens (CHR ''{'') s
      then (let r = skip_ws (tl s) in
            if opens (CHR ''}'') r then Some (PDict [], tl r)
            else map_option (\<lambda>(kvs, t). (PDict (dict_of kvs), t)) (read_members n r))
      else read_literal s)"
| "read_elements 0 s = None"
| "read_elements (Suc n) s =
     (case read_value n s of
        None \<Rightarrow> None
      | Some (v, r) \<Rightarrow>
          let t = skip_ws r in
          if opens (CHR '']'') t then Some ([v], tl t)
          else if opens (CHR '','') t
          then map_option (\<lambda>(vs, rest). (v # vs, rest)) (read_elements n (skip_ws (tl t)))
          else None)"
| "read_members 0 s = None"
| "read_members (Suc n) s =
     (if \<not> opens quote_char s then None
      else case read_string (tl s) of
        None \<Rightarrow> None
      | Some (k, r) \<Rightarrow>
          let c = skip_ws r in
          if \<not> opens (CHR '':'') c then None
          else case read_value n (skip_ws (tl c)) of
            None \<Rightarrow> None
          | Some (v, r2) \<Rightarrow>
              let t = skip_ws r2 in
              if opens (CHR ''}'') t then Some ([(k, v)], tl t)
              else if opens (CHR '','') t
              then map_option (\<lambda>(kvs, rest). ((k, v) # kvs, rest)) (read_members n (skip_ws (tl t)))
              else None)"

definition loads :: "string \<Rightarrow> pyval option" where
  "loads s =
     (let t = skip_ws s in
      case read_value (2 * length t + 1) t of
        Some (v, r) \<Rightarrow> if skip_ws r = [] then Some v else None
      | None \<Rightarrow> None)"

end
