(* ===== verification/Py_Roundtrip.thy ===== *)
theory Py_Roundtrip
  imports Py_Loads
begin

text \<open>
  The decoder reads back what the encoder writes: \<open>json.loads(json.dumps(v))\<close> is \<open>v\<close> with its keys
  sorted, for every value without non-finite numbers, repeated keys or over-long integers; and more
  fuel never changes what the decoder answers.
\<close>

section \<open>Strings\<close>

lemma hex_value_digit: "n < 16 \<Longrightarrow> hex_value (hex_digit n) = Some n"
  by (auto simp: hex_value_def hex_digit_def is_digit_def code_def digit_def)

lemma hex_number_hex4: "n < 65536 \<Longrightarrow> hex_number 0 (hex4 n) = Some n"
proof -
  assume n: "n < 65536"
  have d: "n div 256 = n div 16 div 16" "n div 4096 = n div 16 div 16 div 16"
    by (simp_all flip: div_mult2_eq)
  have "n div 4096 mod 16 = n div 4096" using n by simp
  then have "16 * (16 * (16 * (n div 4096 mod 16) + n div 256 mod 16) + n div 16 mod 16) + n mod 16 = n"
    unfolding d by (simp only: mult_div_mod_eq)
  then show ?thesis using n by (simp add: hex4_def hex_value_digit)
qed

lemma hex_escape_hex4: "n < 65536 \<Longrightarrow> hex_escape (hex4 n @ t) = Some (n, t)"
proof -
  assume "n < 65536"
  moreover have "length (hex4 n) = 4" by (simp add: hex4_def)
  ultimately show ?thesis by (simp add: hex_escape_def hex_number_hex4)
qed

lemma code_lt: "code c < 256"
  by (simp add: code_def)

lemma char_of_code [simp]: "char_of (code c) = c"
  by (simp add: code_def)

lemma unicode_escape_char: "unicode_escape (hex4 (code c) @ t) = Some (c, t)"
  using code_lt [of c] by (simp add: unicode_escape_def hex_escape_hex4)

lemma code_eq_iff: "code c = code d \<longleftrightarrow> c = d"
  by (simp add: code_def)

lemma code_controls: "code c = 13 \<longleftrightarrow> c = CHR 0x0D" "code c = 9 \<longleftrightarrow> c = CHR 0x09"
  "code c = 12 \<longleftrightarrow> c = CHR 0x0C" "code c = 8 \<longleftrightarrow> c = CHR 0x08"
  using code_eq_iff [of c "CHR 0x0D"] code_eq_iff [of c "CHR 0x09"] code_eq_iff [of c "CHR 0x0C"]
    code_eq_iff [of c "CHR 0x08"] by (simp_all add: code_def)

lemma read_string_char:
  "read_string (json_char a c @ t) = map_option (\<lambda>(x, r). (c # x, r)) (read_string t)"
proof -
  consider "c = quote_char \<or> c = backslash" | "c = newline" | "c = CHR 0x0D" | "c = CHR 0x09" | "c = CHR 0x0C"
    | "c = CHR 0x08" | "c \<noteq> quote_char" "c \<noteq> backslash" "c \<noteq> newline" "code c \<notin> {13, 9, 12, 8}" "code c < 32 \<or> a \<and> 126 < code c"
    | "c \<noteq> quote_char" "c \<noteq> backslash" "c \<noteq> newline" "code c \<notin> {13, 9, 12, 8}" "\<not> (code c < 32 \<or> a \<and> 126 < code c)"
    by (auto simp: code_controls)
  then show ?thesis
  proof cases
    case 7
    then show ?thesis
      by (simp add: json_char_def escape_def unicode_escape_char) (simp add: quote_char_def backslash_def code_def newline_def)
  next
    case 8
    then have "json_char a c = [c]" by (auto simp: json_char_def)
    then show ?thesis using 8 by auto
  qed (auto simp: json_char_def escape_def quote_char_def backslash_def newline_def code_def)
qed

lemma read_string_body:
  "read_string (concat (map (json_char a) s) @ quote_char # rest) = Some (s, rest)"
  by (induction s) (simp_all add: read_string_char)

section \<open>Numbers\<close>

text \<open>What may follow a value inside the encoder's output.\<close>

definition ends :: "string \<Rightarrow> bool" where
  "ends s \<longleftrightarrow> s = [] \<or> hd s = CHR '','' \<or> hd s = CHR '']'' \<or> hd s = CHR ''}''"

lemma ends_facts:
  assumes "ends (c # r)"
  shows "\<not> is_digit c" "c \<noteq> CHR ''.''" "c \<noteq> CHR ''e''" "c \<noteq> CHR ''E''" "c \<noteq> CHR ''-''" "c \<noteq> CHR ''+''"
    "\<not> is_space c"
  using assms by (auto simp: ends_def is_digit_def code_def is_space_def)

lemma skip_ws_ends [simp]: "ends s \<Longrightarrow> skip_ws s = s"
  by (cases s) (auto simp: skip_ws_def dest: ends_facts(7))

lemma digits_append:
  assumes "ends rest"
  shows "takeWhile is_digit (s @ rest) = takeWhile is_digit s"
    and "dropWhile is_digit (s @ rest) = dropWhile is_digit s @ rest"
proof -
  have "takeWhile is_digit rest = []" "dropWhile is_digit rest = rest"
    using assms ends_facts(1) by (cases rest; auto)+
  then show "takeWhile is_digit (s @ rest) = takeWhile is_digit s"
    "dropWhile is_digit (s @ rest) = dropWhile is_digit s @ rest"
    by (induction s) auto
qed

lemma number_whole_append: "ends rest \<Longrightarrow> number_whole s = Some (w, r) \<Longrightarrow> number_whole (s @ rest) = Some (w, r @ rest)"
  using digits_append [of rest s] by (auto simp: number_whole_def split: list.splits if_splits)

lemma number_fraction_append:
  assumes "ends rest" and "number_fraction s = (f, r)"
  shows "number_fraction (s @ rest) = (f, r @ rest)"
proof (cases s)
  case Nil
  then show ?thesis using assms ends_facts(2) by (auto simp: number_fraction_def split: list.splits)
next
  case (Cons c t)
  show ?thesis
  proof (cases t)
    case Nil
    then show ?thesis using assms Cons ends_facts(1) by (auto simp: number_fraction_def split: list.splits)
  next
    case (Cons d u)
    then show ?thesis using assms \<open>s = c # t\<close> digits_append [of rest "d # u"]
      by (auto simp: number_fraction_def split: if_splits)
  qed
qed

lemma signed_digits_append:
  assumes "ends rest"
  shows "signed_digits (s @ rest) = map_option (\<lambda>(x, r). (x, r @ rest)) (signed_digits s)"
proof (cases s)
  case Nil
  then show ?thesis using assms ends_facts [of "hd rest" "tl rest"] by (cases rest) (auto simp: signed_digits_def)
next
  case (Cons c t)
  then show ?thesis using digits_append [OF assms, of t] digits_append [OF assms, of s]
    by (auto simp: signed_digits_def Let_def simp del: takeWhile.simps dropWhile.simps)
qed

lemma number_exponent_append:
  assumes "ends rest" and "number_exponent s = (x, r)"
  shows "number_exponent (s @ rest) = (x, r @ rest)"
proof (cases s)
  case Nil
  then show ?thesis using assms ends_facts(3,4) by (auto simp: number_exponent_def split: list.splits)
next
  case (Cons c t)
  then show ?thesis using assms signed_digits_append [OF assms(1), of t]
    by (auto simp: number_exponent_def split: if_splits option.splits)
qed

lemma read_number_append:
  assumes e: "ends rest" and s: "read_number s = Some (v, [])"
  shows "read_number (s @ rest) = Some (v, rest)"
proof -
  define neg where "neg \<longleftrightarrow> s \<noteq> [] \<and> hd s = CHR ''-''"
  define body where "body = (if neg then tl s else s)"
  obtain w r where w: "number_whole body = Some (w, r)"
    using s by (auto simp: read_number_def Let_def neg_def body_def split: option.splits prod.splits if_splits)
  obtain f r2 x r3 where f: "number_fraction r = (f, r2)" and x: "number_exponent r2 = (x, r3)"
    by (metis surj_pair)
  have "s \<noteq> []" using s by (auto simp: read_number_def number_whole_def)
  then have "(s @ rest \<noteq> [] \<and> hd (s @ rest) = CHR ''-'') = neg" "(if neg then tl (s @ rest) else s @ rest) = body @ rest"
    by (auto simp: neg_def body_def)
  then have "(if s @ rest \<noteq> [] \<and> hd (s @ rest) = CHR ''-'' then (True, tl (s @ rest)) else (False, s @ rest)) = (neg, body @ rest)"
    by (auto split: if_splits)
  moreover have "(if s \<noteq> [] \<and> hd s = CHR ''-'' then (True, tl s) else (False, s)) = (neg, body)"
    by (auto simp: neg_def body_def)
  moreover have "f = [] \<and> x = None \<Longrightarrow> r = r3"
    using f x by (auto simp: number_fraction_def number_exponent_def split: list.splits if_splits option.splits)
  ultimately show ?thesis
    using s w f x number_whole_append [OF e w] number_fraction_append [OF e f] number_exponent_append [OF e x]
    unfolding read_number_def by (auto split: if_splits)
qed

lemma digits_whole:
  assumes "ds \<noteq> []" "list_all is_digit ds" "hd ds = CHR ''0'' \<longrightarrow> ds = ''0''" and "ends rest"
  shows "number_whole (ds @ rest) = Some (ds, rest)"
proof -
  have "takeWhile is_digit ds = ds" "dropWhile is_digit ds = []"
    using assms(2) by (auto simp: list_all_iff)
  then show ?thesis using assms digits_append [OF assms(4), of ds]
    by (cases ds) (auto simp: number_whole_def)
qed

lemma nat_str_hd: "hd (nat_str n) = CHR ''0'' \<longrightarrow> nat_str n = ''0''"
proof (induction n rule: nat_str.induct)
  case (1 n)
  have small: "n < 10 \<Longrightarrow> digit n = CHR ''0'' \<longleftrightarrow> n = 0"
    using code_eq_iff [of "digit n" "CHR ''0''"] by (simp add: code_def [of "CHR ''0''"])
  show ?case
  proof (cases "n < 10")
    case True
    then have "nat_str n = [digit n]" by (simp add: nat_str.simps [of n])
    then show ?thesis by auto
  next
    case False
    have "nat_str (n div 10) \<noteq> ''0''"
    proof
      assume "nat_str (n div 10) = ''0''"
      then have "num_of (nat_str (n div 10)) = 0" by (simp add: num_of_def digit_val_def code_def)
      then show False using False by (simp add: num_of_nat_str)
    qed
    then show ?thesis using False 1 by (simp add: nat_str.simps [of n])
  qed
qed

lemma minus_no_digit: "\<not> is_digit CHR ''-''"
  by (simp add: is_digit_def code_def)

lemma number_tail: "ends rest \<Longrightarrow> number_fraction rest = ([], rest)" "ends rest \<Longrightarrow> number_exponent rest = (None, rest)"
  using number_fraction_append [of rest "[]" "[]" "[]"] number_exponent_append [of rest "[]" None "[]"]
  by (simp_all add: number_fraction_def number_exponent_def)

lemma nat_str_hd_digit: "nat_str n @ rest \<noteq> []" "is_digit (hd (nat_str n @ rest))"
  using nat_str_digits [of n] by (simp, metis hd_append2 hd_in_set list_all_iff nat_str_nonempty)

lemma read_number_int:
  assumes "ends rest" and "length (nat_str (nat \<bar>i\<bar>)) \<le> max_str_digits"
  shows "read_number (int_str i @ rest) = Some (PInt i, rest)"
proof -
  have w: "number_whole (nat_str n @ rest) = Some (nat_str n, rest)" for n
    by (rule digits_whole) (use nat_str_digits nat_str_hd assms(1) in auto)
  have "hd (nat_str n @ rest) \<noteq> CHR ''-''" for n using nat_str_hd_digit(2) [of n rest] minus_no_digit by metis
  then show ?thesis
    using assms w number_tail [OF assms(1)]
    by (cases "i < 0") (simp_all add: read_number_def int_str_def num_of_nat_str)
qed

text \<open>No literal begins like a number.\<close>

lemma no_literal:
  assumes "s \<noteq> []" and "is_digit (hd s) \<or> hd s = CHR ''-'' \<and> tl s \<noteq> [] \<and> is_digit (hd (tl s))"
  shows "List.find (\<lambda>(t, v). starts_with t s) literals = None"
proof -
  obtain c r where s: "s = c # r" using assms(1) by (cases s) auto
  have no: "d \<notin> {CHR ''n'', CHR ''t'', CHR ''f'', CHR ''N'', CHR ''I'', CHR ''-''}" if "is_digit d" for d
    using that by (auto simp: is_digit_def code_def)
  from assms(2) s consider "is_digit c" | d u where "c = CHR ''-''" "r = d # u" "is_digit d"
    by (cases r) auto
  then show ?thesis
  proof cases
    case 1
    then show ?thesis using no [of c] by (simp add: s literals_def starts_with_def)
  next
    case 2
    then show ?thesis using no [of d] by (simp add: s literals_def starts_with_def)
  qed
qed

lemma read_literal_int:
  assumes "ends rest" and "length (nat_str (nat \<bar>i\<bar>)) \<le> max_str_digits"
  shows "read_literal (int_str i @ rest) = Some (PInt i, rest)"
proof -
  have "List.find (\<lambda>(t, v). starts_with t (int_str i @ rest)) literals = None"
    by (rule no_literal) (use nat_str_hd_digit [of _ rest] in \<open>auto simp: int_str_def\<close>)
  then show ?thesis using read_number_int [OF assms] by (simp add: read_literal_def)
qed

text \<open>A text that is the \<open>repr\<close> of a finite float.\<close>

definition float_text :: "string \<Rightarrow> bool" where
  "float_text r \<longleftrightarrow> read_number r = Some (PFloat r, [])"

lemma read_number_hd:
  assumes "read_number s = Some x"
  shows "s \<noteq> []" and "is_digit (hd s) \<or> hd s = CHR ''-'' \<and> tl s \<noteq> [] \<and> is_digit (hd (tl s))"
proof -
  have w: "number_whole t = Some y \<Longrightarrow> t \<noteq> [] \<and> is_digit (hd t)" for t y
    by (auto simp: number_whole_def is_digit_def code_def split: list.splits if_splits)
  show "s \<noteq> []" using assms w by (fastforce simp: read_number_def split: if_splits option.splits)
  show "is_digit (hd s) \<or> hd s = CHR ''-'' \<and> tl s \<noteq> [] \<and> is_digit (hd (tl s))"
    using assms w [of s] w [of "tl s"] by (auto simp: read_number_def split: if_splits option.splits)
qed

lemma read_literal_float:
  assumes "float_text r" and "ends rest"
  shows "read_literal (r @ rest) = Some (PFloat r, rest)"
proof -
  have r: "read_number r = Some (PFloat r, [])" using assms(1) by (simp add: float_text_def)
  have "List.find (\<lambda>(t, v). starts_with t (r @ rest)) literals = None"
    by (rule no_literal) (use read_number_hd [OF r] in \<open>auto simp: neq_Nil_conv\<close>)
  then show ?thesis using read_number_append [OF assms(2) r] by (simp add: read_literal_def)
qed

section \<open>Values\<close>

fun canon :: "pyval \<Rightarrow> pyval" where
  "canon (PList vs) = PList (map canon vs)"
| "canon (PDict kvs) = PDict (sort_key fst (map (\<lambda>(k, v). (k, canon v)) kvs))"
| "canon v = v"

fun value_ok :: "pyval \<Rightarrow> bool" where
  "value_ok (PInt i) \<longleftrightarrow> length (nat_str (nat \<bar>i\<bar>)) \<le> max_str_digits"
| "value_ok (PFloat r) \<longleftrightarrow> float_text r"
| "value_ok (PInf b) \<longleftrightarrow> False"
| "value_ok PNaN \<longleftrightarrow> False"
| "value_ok (PList vs) \<longleftrightarrow> list_all value_ok vs"
| "value_ok (PDict kvs) \<longleftrightarrow> distinct (map fst kvs) \<and> list_all (\<lambda>(k, v). value_ok v) kvs"
| "value_ok v \<longleftrightarrow> True"

lemma insort_key_map: "insort_key f (g x) (map g xs) = map g (insort_key (\<lambda>y. f (g y)) x xs)"
  by (induction xs) auto

lemma sort_key_map: "sort_key f (map g xs) = map g (sort_key (\<lambda>y. f (g y)) xs)"
  by (induction xs) (simp_all add: insort_key_map sort_key_simps)

lemma fst_case [simp]: "fst (case y of (k, v) \<Rightarrow> (k, f k v)) = fst y"
  by (cases y) simp

definition member_text :: "bool \<Rightarrow> string \<times> pyval \<Rightarrow> string" where
  "member_text a kv = json_str a (fst kv) @ '':'' @ json_text a (snd kv)"

lemma json_text_dict:
  "json_text a (PDict kvs) = ''{'' @ join '','' (map (member_text a) (sort_key fst kvs)) @ ''}''"
  by (simp add: sort_key_map member_text_def [abs_def] case_prod_beta comp_def)

definition plain :: "string \<Rightarrow> bool" where
  "plain t \<longleftrightarrow> t \<noteq> [] \<and> \<not> is_space (hd t) \<and> hd t \<noteq> CHR '']'' \<and> hd t \<noteq> CHR ''}''"

lemma plain_append: "plain t \<Longrightarrow> skip_ws (t @ r) = t @ r" "plain t \<Longrightarrow> \<not> opens (CHR '']'') (t @ r)"
  "plain t \<Longrightarrow> \<not> opens (CHR ''}'') (t @ r)"
  by (cases t; simp add: plain_def skip_ws_def opens_def)+

lemma plain_number: "t \<noteq> [] \<Longrightarrow> is_digit (hd t) \<or> hd t = CHR ''-'' \<Longrightarrow> plain t"
  by (auto simp: plain_def is_space_def is_digit_def code_def)

lemma plain_text: "value_ok v \<Longrightarrow> plain (json_text a v)"
proof (cases v)
  case (PInt i)
  then show ?thesis
    using nat_str_hd_digit [of _ "[]"] by (auto intro!: plain_number simp: int_str_def)
next
  case (PFloat r)
  assume "value_ok v"
  then show ?thesis
    using PFloat read_number_hd [of r] by (auto intro!: plain_number simp: float_text_def)
qed (auto simp: plain_def is_space_def code_def json_str_def quote_char_def)

lemma plain_member: "plain (member_text a kv)"
  by (auto simp: plain_def is_space_def code_def json_str_def quote_char_def member_text_def)

lemma read_str_token: "opens quote_char (json_str a k @ t)" "read_string (tl (json_str a k @ t)) = Some (k, t)"
  by (simp_all add: json_str_def opens_def read_string_body)

lemma join_Cons: "ys \<noteq> [] \<Longrightarrow> join sep (y # ys) = y @ sep @ join sep ys"
  by (cases ys) auto

lemma join_plain:
  assumes "xs \<noteq> []" and "plain (hd xs)"
  shows "skip_ws (join sep xs @ r) = join sep xs @ r" and "\<not> opens (CHR '']'') (join sep xs @ r)"
    and "\<not> opens (CHR ''}'') (join sep xs @ r)"
proof -
  obtain t where "join sep xs = hd xs @ t" using assms(1) by (cases xs; cases "tl xs") auto
  then show "skip_ws (join sep xs @ r) = join sep xs @ r" "\<not> opens (CHR '']'') (join sep xs @ r)"
    "\<not> opens (CHR ''}'') (join sep xs @ r)"
    using plain_append [OF assms(2)] by simp_all
qed

lemma ends_marks: "ends (CHR '']'' # r)" "ends (CHR ''}'' # r)" "ends (CHR '','' # r)"
  by (simp_all add: ends_def)

lemma opens_marks: "opens c (d # r) \<longleftrightarrow> c = d"
  by (auto simp: opens_def)

lemma read_elements_text:
  assumes "\<And>v rest n. v \<in> set vs \<Longrightarrow> ends rest \<Longrightarrow> 2 * length (json_text a v) + 1 \<le> n \<Longrightarrow>
      read_value n (json_text a v @ rest) = Some (canon v, rest)"
    and "vs \<noteq> []" and "list_all value_ok vs" and "2 * length (join '','' (map (json_text a) vs)) + 2 \<le> n"
  shows "read_elements n (join '','' (map (json_text a) vs) @ CHR '']'' # rest) = Some (map canon vs, rest)"
  using assms
proof (induction vs arbitrary: n)
  case (Cons v vs)
  obtain m where n: "n = Suc m" using Cons.prems(4) by (cases n) auto
  show ?case
  proof (cases "vs = []")
    case True
    have "read_value m (json_text a v @ CHR '']'' # rest) = Some (canon v, CHR '']'' # rest)"
      by (rule Cons.prems(1)) (use Cons.prems(4) True n in \<open>simp_all add: ends_marks\<close>)
    then show ?thesis using True n by (simp add: ends_marks opens_marks)
  next
    case False
    let ?more = "join '','' (map (json_text a) vs) @ CHR '']'' # rest"
    have tx: "join '','' (map (json_text a) (v # vs)) = json_text a v @ CHR '','' # join '','' (map (json_text a) vs)"
      using join_Cons [of "map (json_text a) vs" "'',''" "json_text a v"] False by simp
    have v: "read_value m (json_text a v @ CHR '','' # ?more) = Some (canon v, CHR '','' # ?more)"
      by (rule Cons.prems(1)) (use Cons.prems(4) tx n in \<open>simp_all add: ends_marks\<close>)
    have skip: "skip_ws ?more = ?more"
      by (rule join_plain) (use Cons.prems(3) False in \<open>auto simp: hd_map list_all_iff intro!: plain_text\<close>)
    have "read_elements m ?more = Some (map canon vs, rest)"
      by (rule Cons.IH) (use Cons.prems False tx n in \<open>auto simp del: json_text.simps\<close>)
    then show ?thesis using v skip n tx by (simp add: ends_marks opens_marks)
  qed
qed simp

lemma read_members_text:
  assumes "\<And>kv rest n. kv \<in> set kvs \<Longrightarrow> ends rest \<Longrightarrow> 2 * length (json_text a (snd kv)) + 1 \<le> n \<Longrightarrow>
      read_value n (json_text a (snd kv) @ rest) = Some (canon (snd kv), rest)"
    and "kvs \<noteq> []" and "list_all (\<lambda>kv. value_ok (snd kv)) kvs"
    and "2 * length (join '','' (map (member_text a) kvs)) + 2 \<le> n"
  shows "read_members n (join '','' (map (member_text a) kvs) @ CHR ''}'' # rest)
    = Some (map (\<lambda>kv. (fst kv, canon (snd kv))) kvs, rest)"
  using assms
proof (induction kvs arbitrary: n)
  case (Cons kv kvs)
  obtain m where n: "n = Suc m" using Cons.prems(4) by (cases n) auto
  have ok: "plain (json_text a (snd kv))" using Cons.prems(3) by (simp add: plain_text)
  have colon: "skip_ws (CHR '':'' # t) = CHR '':'' # t" for t by (simp add: skip_ws_def is_space_def code_def)
  show ?case
  proof (cases "kvs = []")
    case True
    have "read_value m (json_text a (snd kv) @ CHR ''}'' # rest) = Some (canon (snd kv), CHR ''}'' # rest)"
      by (rule Cons.prems(1)) (use Cons.prems(4) True n in \<open>simp_all add: ends_marks member_text_def\<close>)
    then show ?thesis using True n ok
      by (simp add: member_text_def read_str_token colon plain_append ends_marks opens_marks)
  next
    case False
    let ?more = "join '','' (map (member_text a) kvs) @ CHR ''}'' # rest"
    have tx: "join '','' (map (member_text a) (kv # kvs))
        = json_str a (fst kv) @ CHR '':'' # json_text a (snd kv) @ CHR '','' # join '','' (map (member_text a) kvs)"
      using join_Cons [of "map (member_text a) kvs" "'',''" "member_text a kv"] False by (simp add: member_text_def)
    have v: "read_value m (json_text a (snd kv) @ CHR '','' # ?more) = Some (canon (snd kv), CHR '','' # ?more)"
      by (rule Cons.prems(1)) (use Cons.prems(4) tx n in \<open>simp_all add: ends_marks\<close>)
    have skip: "skip_ws ?more = ?more"
      by (rule join_plain) (use False in \<open>simp_all add: hd_map plain_member\<close>)
    have "read_members m ?more = Some (map (\<lambda>kv. (fst kv, canon (snd kv))) kvs, rest)"
      by (rule Cons.IH) (use Cons.prems False tx n in auto)
    then show ?thesis using v skip n tx ok
      by (simp add: read_str_token colon plain_append ends_marks opens_marks)
  qed
qed simp

lemma dict_of_distinct: "distinct (map fst kvs) \<Longrightarrow> dict_of kvs = kvs"
proof -
  have "distinct (map fst (d @ kvs)) \<Longrightarrow> foldl dict_set d kvs = d @ kvs" for d
    by (induction kvs arbitrary: d) (auto simp: dict_set_def)
  then show "distinct (map fst kvs) \<Longrightarrow> dict_of kvs = kvs" by (simp add: dict_of_def)
qed

lemma distinct_sort_keys: "distinct (map fst (sort_key f kvs)) \<longleftrightarrow> distinct (map fst kvs)"
  by (metis distinct_map distinct_sort set_sort)

lemma read_value_literal:
  "1 \<le> n \<Longrightarrow> \<not> opens quote_char s \<Longrightarrow> \<not> opens (CHR ''['') s \<Longrightarrow> \<not> opens (CHR ''{'') s \<Longrightarrow>
     read_value n s = read_literal s"
  by (cases n) auto

lemma number_opens: "s \<noteq> [] \<Longrightarrow> is_digit (hd s) \<or> hd s = CHR ''-'' \<Longrightarrow>
    \<not> opens quote_char (s @ r) \<and> \<not> opens (CHR ''['') (s @ r) \<and> \<not> opens (CHR ''{'') (s @ r)"
  by (auto simp: opens_def quote_char_def is_digit_def code_def)

lemma read_int_value:
  assumes "length (nat_str (nat \<bar>i\<bar>)) \<le> max_str_digits" "ends rest" "1 \<le> n"
  shows "read_value n (int_str i @ rest) = Some (PInt i, rest)"
proof -
  have "int_str i \<noteq> []" "is_digit (hd (int_str i)) \<or> hd (int_str i) = CHR ''-''"
    using nat_str_hd_digit [of _ "[]"] by (auto simp: int_str_def)
  then show ?thesis
    using read_value_literal [OF assms(3)] number_opens read_literal_int [OF assms(2,1)] by simp
qed

lemma read_float_value:
  assumes "float_text r" "ends rest" "1 \<le> n"
  shows "read_value n (r @ rest) = Some (PFloat r, rest)"
proof -
  have "r \<noteq> []" "is_digit (hd r) \<or> hd r = CHR ''-''"
    using read_number_hd [of r] assms(1) by (auto simp: float_text_def)
  then show ?thesis
    using read_value_literal [OF assms(3)] number_opens read_literal_float [OF assms(1,2)] by simp
qed

lemma read_str_value: "1 \<le> n \<Longrightarrow> read_value n (json_str a t @ rest) = Some (PStr t, rest)"
  by (cases n) (simp_all add: read_str_token)

lemma read_word_value:
  "1 \<le> n \<Longrightarrow> read_value n (''null'' @ rest) = Some (PNone, rest)"
  "1 \<le> n \<Longrightarrow> read_value n (''true'' @ rest) = Some (PBool True, rest)"
  "1 \<le> n \<Longrightarrow> read_value n (''false'' @ rest) = Some (PBool False, rest)"
  by (simp_all add: read_value_literal opens_marks quote_char_def read_literal_def literals_def starts_with_def)

lemma read_text:
  "value_ok v \<Longrightarrow> ends rest \<Longrightarrow> 2 * length (json_text a v) + 1 \<le> n \<Longrightarrow>
     read_value n (json_text a v @ rest) = Some (canon v, rest)"
proof (induction v arbitrary: rest n rule: canon.induct)
  case (1 vs)
  obtain m where n: "n = Suc m" using "1.prems"(3) by (cases n) auto
  show ?case
  proof (cases "vs = []")
    case True
    then show ?thesis using n by (simp add: opens_marks quote_char_def skip_ws_def is_space_def code_def)
  next
    case False
    let ?body = "join '','' (map (json_text a) vs) @ CHR '']'' # rest"
    have ok: "list_all value_ok vs" and m: "2 * length (join '','' (map (json_text a) vs)) + 2 \<le> m"
      using "1.prems" n by simp_all
    have "read_elements m ?body = Some (map canon vs, rest)"
    proof (rule read_elements_text [OF _ False ok m])
      show "read_value k (json_text a v @ r) = Some (canon v, r)"
        if "v \<in> set vs" "ends r" "2 * length (json_text a v) + 1 \<le> k" for v r k
        using "1.IH" [OF that(1) _ that(2,3)] ok that(1) by (simp add: list_all_iff)
    qed
    moreover have "plain (hd (map (json_text a) vs))"
      using ok False by (auto simp: hd_map list_all_iff intro!: plain_text)
    then have "skip_ws ?body = ?body" "\<not> opens (CHR '']'') ?body"
      using join_plain False by simp_all
    ultimately show ?thesis using n by (simp add: opens_marks quote_char_def)
  qed
next
  case (2 kvs)
  obtain m where n: "n = Suc m" using "2.prems"(3) by (cases n) auto
  show ?case
  proof (cases "kvs = []")
    case True
    then show ?thesis using n
      by (simp add: opens_marks quote_char_def skip_ws_def is_space_def code_def dict_of_def)
  next
    case False
    let ?ks = "sort_key fst kvs"
    let ?body = "join '','' (map (member_text a) ?ks) @ CHR ''}'' # rest"
    have ne: "?ks \<noteq> []" using False by (metis length_0_conv length_sort)
    have all: "\<forall>kv \<in> set kvs. value_ok (snd kv)" using "2.prems"(1) by (auto simp: list_all_iff)
    then have ok: "list_all (\<lambda>kv. value_ok (snd kv)) ?ks" by (simp add: list_all_iff)
    have m: "2 * length (join '','' (map (member_text a) ?ks)) + 2 \<le> m"
      using "2.prems"(3) n by (simp add: json_text_dict del: json_text.simps(9))
    have "read_members m ?body = Some (map (\<lambda>kv. (fst kv, canon (snd kv))) ?ks, rest)"
    proof (rule read_members_text [OF _ ne ok m])
      show "read_value k (json_text a (snd kv) @ r) = Some (canon (snd kv), r)"
        if "kv \<in> set ?ks" "ends r" "2 * length (json_text a (snd kv)) + 1 \<le> k" for kv r k
        using "2.IH" [of kv "fst kv" "snd kv" r k] all that by simp
    qed
    moreover have "skip_ws ?body = ?body" "\<not> opens (CHR ''}'') ?body"
      using join_plain [of "map (member_text a) ?ks"] ne by (simp_all add: hd_map plain_member)
    moreover have "dict_of (map (\<lambda>kv. (fst kv, canon (snd kv))) ?ks) = map (\<lambda>kv. (fst kv, canon (snd kv))) ?ks"
      using "2.prems"(1) by (intro dict_of_distinct) (simp add: comp_def distinct_sort_keys)
    ultimately show ?thesis using n
      by (simp add: opens_marks quote_char_def json_text_dict sort_key_map case_prod_beta del: json_text.simps(9))
  qed
next
  case "3_1"
  then show ?case using read_word_value(1) by simp
next
  case "3_2"
  then show ?case using read_word_value(2,3) by simp
qed (simp_all add: read_int_value read_float_value read_str_value)

lemma loads_text:
  assumes "value_ok v"
  shows "loads (json_text a v) = Some (canon v)"
proof -
  have "skip_ws (json_text a v) = json_text a v" using plain_append(1) [OF plain_text, of v a "[]"] assms by simp
  moreover have "read_value (2 * length (json_text a v) + 1) (json_text a v) = Some (canon v, [])"
    using read_text [OF assms, of "[]" a] by (simp add: ends_def del: read_value.simps)
  ultimately show ?thesis unfolding loads_def Let_def by (simp add: skip_ws_def del: read_value.simps)
qed

lemma sort_key_idem: "sort_key f (sort_key f xs) = sort_key f xs"
  by (simp add: sort_key_id_if_sorted)

lemma text_canon: "json_text a (canon v) = json_text a v"
proof (induction v rule: canon.induct)
  case (1 vs)
  then show ?case by (simp add: comp_def cong: map_cong)
next
  case (2 kvs)
  have "\<forall>x \<in> set kvs. member_text a (case x of (k, v) \<Rightarrow> (k, canon v)) = member_text a x"
    using 2 by (auto simp: member_text_def)
  then have eq: "map (member_text a \<circ> (\<lambda>(k, v). (k, canon v))) (sort_key fst kvs) = map (member_text a) (sort_key fst kvs)"
    by (intro map_cong) auto
  show ?case
    by (simp only: canon.simps json_text_dict sort_key_map sort_key_idem fst_case map_map eq)
qed auto

lemma canon_ok: "value_ok v \<Longrightarrow> value_ok (canon v)"
proof (induction v rule: canon.induct)
  case (2 kvs)
  have "distinct (map fst (sort_key fst (map (\<lambda>(k, v). (k, canon v)) kvs)))"
    using 2(2) by (simp add: distinct_sort_keys comp_def case_prod_beta)
  then show ?case using 2 by (fastforce simp: list_all_iff)
qed (auto simp: list_all_iff)

lemma canon_idem: "canon (canon v) = canon v"
proof (induction v rule: canon.induct)
  case (2 kvs)
  have "\<forall>x \<in> set kvs. (case case x of (k, v) \<Rightarrow> (k, canon v) of (k, v) \<Rightarrow> (k, canon v)) = (case x of (k, v) \<Rightarrow> (k, canon v))"
    using 2 by auto
  then show ?case by (simp add: sort_key_map sort_key_idem)
qed (simp_all cong: map_cong)

section \<open>Fuel\<close>

lemma read_string_shorter: "read_string s = Some (t, r) \<Longrightarrow> length r < length s"
proof (induction s arbitrary: t r rule: read_string.induct)
  case (2 c s)
  show ?case
  proof (cases "c = quote_char \<or> code c < 32 \<or> c \<noteq> backslash")
    case True
    then show ?thesis using 2 by (force split: if_splits)
  next
    case False
    then obtain x u where e: "escape s = Some (x, u)" and "\<exists>t'. read_string u = Some (t', r)"
      using 2(3) by (auto split: option.splits)
    then show ?thesis using 2(1) [of "(x, u)" x u] False escape_shorter [OF e] by force
  qed
qed simp

lemma tail_lengths:
  "number_whole s = Some (w, r) \<Longrightarrow> length r < length s"
  "number_fraction s = (f, r) \<Longrightarrow> length r \<le> length s"
  "number_exponent s = (x, r) \<Longrightarrow> length r \<le> length s"
proof -
  have d: "length (dropWhile is_digit t) \<le> length t" for t by (rule length_dropWhile_le)
  show "number_whole s = Some (w, r) \<Longrightarrow> length r < length s"
    using d by (fastforce simp: number_whole_def less_Suc_eq_le split: list.splits if_splits)
  show "number_fraction s = (f, r) \<Longrightarrow> length r \<le> length s"
    using d by (fastforce simp: number_fraction_def le_Suc_eq split: list.splits if_splits)
  have "signed_digits t = Some (y, u) \<Longrightarrow> length u \<le> length t" for t y u
    using d by (fastforce simp: signed_digits_def Let_def le_Suc_eq split: list.splits if_splits)
  then show "number_exponent s = (x, r) \<Longrightarrow> length r \<le> length s"
    by (fastforce simp: number_exponent_def le_Suc_eq split: list.splits if_splits option.splits)
qed

lemma read_number_shorter: "read_number s = Some (v, r) \<Longrightarrow> length r < length s"
proof -
  assume a: "read_number s = Some (v, r)"
  obtain neg body where b: "(if s \<noteq> [] \<and> hd s = CHR ''-'' then (True, tl s) else (False, s)) = (neg, body)"
    by (metis surj_pair)
  then have "length body \<le> length s" by (auto split: if_splits)
  moreover obtain w u where w: "number_whole body = Some (w, u)"
    using a b by (auto simp: read_number_def split: option.splits)
  obtain f u2 x u3 where f: "number_fraction u = (f, u2)" and x: "number_exponent u2 = (x, u3)"
    by (metis surj_pair)
  moreover have "r = u \<or> r = u3" using a b w f x by (auto simp: read_number_def split: if_splits)
  ultimately show ?thesis using tail_lengths(1) [OF w] tail_lengths(2) [OF f] tail_lengths(3) [OF x] by auto
qed

lemma read_literal_shorter:
  assumes "read_literal s = Some (v, r)"
  shows "length r < length s"
proof (cases "List.find (\<lambda>(t, v). starts_with t s) literals")
  case None
  then show ?thesis using assms read_number_shorter by (simp add: read_literal_def)
next
  case (Some tv)
  obtain t u where tv: "tv = (t, u)" by (cases tv)
  have "(t, u) \<in> set literals" "starts_with t s" using Some tv nth_mem by (fastforce simp: find_Some_iff)+
  then have l: "t \<noteq> []" "length t \<le> length s"
    by (auto simp: literals_def starts_with_def dest: arg_cong [of _ _ length])
  have "r = drop (length t) s" using assms Some tv by (simp add: read_literal_def)
  then have "length r = length s - length t" by simp
  moreover have "0 < length t" using l(1) by simp
  ultimately show ?thesis using l(2) by linarith
qed

lemma skip_ws_length: "length (skip_ws s) \<le> length s"
  by (simp add: skip_ws_def length_dropWhile_le)

lemma opens_length: "opens c s \<Longrightarrow> Suc (length (tl s)) = length s"
  by (cases s) (auto simp: opens_def)

lemma after_mark: "opens c s \<Longrightarrow> length (skip_ws (tl s)) < length s"
  using skip_ws_length [of "tl s"] opens_length [of c s] by simp

lemma read_shorter:
  "read_value n s = Some (v, r) \<Longrightarrow> length r < length s"
  "read_elements n s = Some (vs, r) \<Longrightarrow> length r < length s"
  "read_members n s = Some (kvs, r) \<Longrightarrow> length r < length s"
proof (induction n s and n s and n s arbitrary: v r and vs r and kvs r
    rule: read_value_read_elements_read_members.induct)
  case (2 n s)
  let ?t = "skip_ws (tl s)"
  show ?case
  proof (cases "opens quote_char s \<or> opens (CHR ''['') s \<or> opens (CHR ''{'') s")
    case True
    then obtain c where c: "opens c s" by blast
    have "length r < length (tl s) \<or> length r < length ?t"
      using 2 True opens_length read_string_shorter [of "tl s"] by (force split: if_splits simp: Let_def)
    then show ?thesis using after_mark [OF c] opens_length [OF c] by auto
  next
    case False
    then show ?thesis using 2(3) read_literal_shorter by auto
  qed
next
  case (4 n s)
  then obtain w u where w: "read_value n s = Some (w, u)" by (auto split: option.splits)
  let ?t = "skip_ws u"
  have u: "length u < length s" using 4(1) w by blast
  have "length r < length ?t"
    using 4(2) [OF w refl refl] 4(3) w opens_length [of _ ?t] after_mark [of _ ?t]
    by (fastforce split: if_splits simp: Let_def)
  then show ?case using u skip_ws_length [of u] by simp
next
  case (6 n s)
  then obtain k u where q: "opens quote_char s" and k: "read_string (tl s) = Some (k, u)"
    by (auto split: option.splits if_splits)
  let ?c = "skip_ws u"
  obtain w x where c: "opens (CHR '':'') ?c" and w: "read_value n (skip_ws (tl ?c)) = Some (w, x)"
    using 6(3) q k by (auto split: option.splits if_splits simp: Let_def)
  let ?t = "skip_ws x"
  have "length x < length (skip_ws (tl ?c))" using 6(1) [OF _ k refl refl] q c w by simp
  then have x: "length x < length s"
    using after_mark [OF c] skip_ws_length [of u] read_string_shorter [OF k] opens_length [OF q] by simp
  have "length r < length ?t"
    using 6(2) [OF _ k refl refl _ w refl refl] 6(3) q k c w opens_length [of _ ?t] after_mark [of _ ?t]
    by (fastforce split: if_splits simp: Let_def)
  then show ?case using x skip_ws_length [of x] by simp
qed auto

lemma reader_fuel:
  "length s \<le> l \<Longrightarrow>
     (2 * l + 1 \<le> n \<longrightarrow> 2 * l + 1 \<le> m \<longrightarrow> read_value n s = read_value m s)
     \<and> (2 * l + 2 \<le> n \<longrightarrow> 2 * l + 2 \<le> m \<longrightarrow> read_elements n s = read_elements m s)
     \<and> (2 * l + 2 \<le> n \<longrightarrow> 2 * l + 2 \<le> m \<longrightarrow> read_members n s = read_members m s)"
proof (induction l arbitrary: s n m rule: less_induct)
  case (less l)
  have val: "read_value n t = read_value m t"
    if t: "length t \<le> l" and nm: "2 * l + 1 \<le> n" "2 * l + 1 \<le> m" for n m t
  proof -
    obtain i j where ij: "n = Suc i" "m = Suc j" using nm by (cases n; cases m) auto
    have "read_elements i (skip_ws (tl t)) = read_elements j (skip_ws (tl t))
        \<and> read_members i (skip_ws (tl t)) = read_members j (skip_ws (tl t))" if "opens c t" for c
    proof -
      have "length (skip_ws (tl t)) \<le> l - 1" "l - 1 < l" "2 * (l - 1) + 2 \<le> i" "2 * (l - 1) + 2 \<le> j"
        using after_mark [OF that] t nm ij by auto
      then show ?thesis using less.IH by blast
    qed
    then show ?thesis using ij by (simp add: Let_def)
  qed
  have later: "read_elements i t = read_elements j t" "read_members i t = read_members j t"
    if "length t < l" "2 * l \<le> i" "2 * l \<le> j" for i j t
    using less.IH [of "l - 1" t i j] that by auto
  have elements: "read_elements n s = read_elements m s" if n: "2 * l + 2 \<le> n" "2 * l + 2 \<le> m"
  proof -
    obtain i j where ij: "n = Suc i" "m = Suc j" using n by (cases n; cases m) auto
    have v: "read_value i s = read_value j s" by (rule val [OF less.prems]) (use n ij in simp_all)
    have "read_elements i (skip_ws (tl (skip_ws r))) = read_elements j (skip_ws (tl (skip_ws r)))"
      if "read_value j s = Some (w, r)" "opens c (skip_ws r)" for w r c
      by (rule later(1))
        (use after_mark [OF that(2)] skip_ws_length [of r] read_shorter(1) [OF that(1)] less.prems n ij in simp_all)
    then show ?thesis using v ij by (auto simp: Let_def split: option.splits)
  qed
  have members: "read_members n s = read_members m s" if n: "2 * l + 2 \<le> n" "2 * l + 2 \<le> m"
  proof -
    obtain i j where ij: "n = Suc i" "m = Suc j" using n by (cases n; cases m) auto
    have inner: "length (skip_ws (tl (skip_ws r))) < length s"
      if "opens quote_char s" "read_string (tl s) = Some (k, r)" "opens c (skip_ws r)" for k r c
      using after_mark [OF that(3)] skip_ws_length [of r] read_string_shorter [OF that(2)] opens_length [OF that(1)] by simp
    have v: "read_value i (skip_ws (tl (skip_ws r))) = read_value j (skip_ws (tl (skip_ws r)))"
      if "opens quote_char s" "read_string (tl s) = Some (k, r)" "opens c (skip_ws r)" for k r c
      by (rule val) (use inner [OF that] less.prems n ij in simp_all)
    have "read_members i (skip_ws (tl (skip_ws x))) = read_members j (skip_ws (tl (skip_ws x)))"
      if "opens quote_char s" "read_string (tl s) = Some (k, r)" "opens c (skip_ws r)"
        "read_value j (skip_ws (tl (skip_ws r))) = Some (w, x)" "opens d (skip_ws x)" for k r c w x d
      by (rule later(2))
        (use inner [OF that(1-3)] read_shorter(1) [OF that(4)] after_mark [OF that(5)] skip_ws_length [of x]
          less.prems n ij in simp_all)
    then show ?thesis using v ij by (auto simp: Let_def split: option.splits)
  qed
  show ?case using val [OF less.prems] elements members by blast
qed

lemma loads_fuel:
  assumes "2 * length (skip_ws s) + 1 \<le> n"
  shows "loads s = (case read_value n (skip_ws s) of
    Some (v, r) \<Rightarrow> if skip_ws r = [] then Some v else None | None \<Rightarrow> None)"
  unfolding loads_def Let_def
  using reader_fuel [of "skip_ws s" "length (skip_ws s)" n "2 * length (skip_ws s) + 1"] assms by simp

end
