(* ===== verification/Fleet_Channel.thy ===== *)
theory Fleet_Channel
  imports Channel_Base Py_Roundtrip Interfaces
begin

text \<open>
  The manager's side of the host-agent channel, \<open>fleet_manager/channel.py\<close>: enrollment tokens, host
  credentials, signed envelopes and their documents, and \<open>AgentChannel\<close> as a record that each
  method takes and returns. The verifier and the random token id are arguments; a verifier that
  returns anything but \<open>True\<close> is one that returned \<^const>\<open>False\<close>. \<open>accept\<close> returns the channel on a
  refusal too, since it has already dropped expired nonces by then.
\<close>

section \<open>Constants and scalars\<close>

definition channel_schema :: string where
  "channel_schema = ''fleet-manager-agent-envelope/1''"

definition max_message_lifetime :: timedelta where
  "max_message_lifetime = seconds 300"

definition max_clock_skew :: timedelta where
  "max_clock_skew = seconds 60"

definition rotation_overlap :: timedelta where
  "rotation_overlap = seconds 600"

definition max_token_lifetime :: timedelta where
  "max_token_lifetime = seconds 3600"

definition max_body_bytes :: nat where
  "max_body_bytes = 65536"

definition signature_size :: nat where
  "signature_size = 64"

definition max_sequence :: int where
  "max_sequence = 2 ^ 63 - 1"

definition nonce_body :: "string \<Rightarrow> bool" where
  "nonce_body s \<longleftrightarrow> 8 \<le> length s \<and> length s \<le> 64
     \<and> list_all (\<lambda>c. is_lower c \<or> is_digit c \<or> c = CHR ''-'') s"

definition is_nonce :: "string \<Rightarrow> bool" where
  "is_nonce s \<longleftrightarrow> dollar nonce_body s"

definition hex_body :: "string \<Rightarrow> bool" where
  "hex_body s \<longleftrightarrow> s \<noteq> [] \<and> list_all is_hex s"

definition is_hex_text :: "string \<Rightarrow> bool" where
  "is_hex_text s \<longleftrightarrow> dollar hex_body s"

datatype credential_status = C_ACTIVE | C_RETIRING | C_REVOKED

fun credential_status_value :: "credential_status \<Rightarrow> string" where
  "credential_status_value C_ACTIVE = ''active''"
| "credential_status_value C_RETIRING = ''retiring''"
| "credential_status_value C_REVOKED = ''revoked''"

definition check_sequence :: "pyval \<Rightarrow> string \<Rightarrow> int res" where
  "check_sequence v w =
     (case v of
        PInt i \<Rightarrow>
          if i < 1 \<or> i > max_sequence
          then channel_error (w @ '': must be between 1 and '' @ int_str max_sequence)
          else Inr i
      | _ \<Rightarrow> channel_error (w @ '': must be an integer''))"

section \<open>Bodies\<close>

text \<open>What \<open>json.dumps(..., allow_nan=False)\<close> can write: no non-finite float, no over-long integer.\<close>

fun encodable :: "pyval \<Rightarrow> bool" where
  "encodable (PInf b) \<longleftrightarrow> False"
| "encodable PNaN \<longleftrightarrow> False"
| "encodable (PInt i) \<longleftrightarrow> length (nat_str (nat \<bar>i\<bar>)) \<le> max_str_digits"
| "encodable (PList vs) \<longleftrightarrow> list_all encodable vs"
| "encodable (PDict kvs) \<longleftrightarrow> list_all (\<lambda>(k, v). encodable v) kvs"
| "encodable v \<longleftrightarrow> True"

text \<open>\<open>_body_json\<close> of the channel and of the signed state: the error class and the limit differ.\<close>

definition canonical_body :: "exc_class \<Rightarrow> nat \<Rightarrow> pyval \<Rightarrow> string \<Rightarrow> string res" where
  "canonical_body cls max_bytes v w =
     (case v of
        PDict d \<Rightarrow>
          if \<not> encodable v
          then raise cls (w @ '': must be JSON-serializable (no NaN, Infinity, or bytes)'')
          else if length (utf8 (json_text False v)) > max_bytes
          then raise cls (w @ '': exceeds the '' @ nat_str max_bytes @ ''-byte limit'')
          else Inr (json_text False v)
      | _ \<Rightarrow> raise cls (w @ '': must be an object''))"

definition body_json :: "pyval \<Rightarrow> string \<Rightarrow> string res" where
  "body_json v w = canonical_body ChannelError max_body_bytes v w"

section \<open>Tokens and credentials\<close>

record enrollment_token =
  et_host_id :: string
  et_pools :: "string list"
  et_issued_at :: string
  et_expires_at :: string
  et_token_id :: string

definition check_token_pools :: "string list \<Rightarrow> string list res" where
  "check_token_pools pools =
     (if pools = [] then channel_error ''enrollment_token.pools: must be a non-empty tuple''
      else bindR (eachR (\<lambda>i p. channel_identifier (PStr p) (index_str ''enrollment_token.pools'' i)) 0 pools) (\<lambda>ps.
             if distinct pools then Inr ps
             else channel_error ''enrollment_token.pools: must not name a pool twice''))"

definition token_make :: "pyval \<Rightarrow> string list \<Rightarrow> string \<Rightarrow> string \<Rightarrow> string \<Rightarrow> enrollment_token res" where
  "token_make host pools issued expires tid =
     bindR (channel_identifier host ''enrollment_token.host_id'') (\<lambda>h.
     bindR (check_token_pools pools) (\<lambda>ps.
     bindR (channel_timestamp (PStr issued) ''enrollment_token.issued_at'') (\<lambda>i.
     bindR (channel_timestamp (PStr expires) ''enrollment_token.expires_at'') (\<lambda>e.
     bindR (run_checks
       [(dt_instant i < dt_instant e,
           Exn ChannelError ''enrollment_token.expires_at: must be after issued_at''),
        (dt_instant e - dt_instant i \<le> max_token_lifetime,
           Exn ChannelError ''enrollment_token.expires_at: lifetime exceeds 3600s''),
        (tid \<noteq> [], Exn ChannelError ''enrollment_token.token_id: must be a non-empty string'')]) (\<lambda>_.
       Inr \<lparr>et_host_id = h, et_pools = ps, et_issued_at = issued, et_expires_at = expires,
            et_token_id = tid\<rparr>)))))"

definition token_expired :: "enrollment_token \<Rightarrow> datetime \<Rightarrow> bool res" where
  "token_expired t at =
     bindR (channel_timestamp (PStr (et_expires_at t)) ''enrollment_token.expires_at'') (\<lambda>e.
       Inr (dt_instant at > dt_instant e))"

record host_credential =
  hc_host_id :: string
  hc_key_id :: string
  hc_public_key :: bytes
  hc_issued_at :: string
  hc_not_after :: string
  hc_generation :: int
  hc_status :: credential_status
  hc_retires_at :: "string option"

definition check_retires :: "credential_status \<Rightarrow> string option \<Rightarrow> unit res" where
  "check_retires st retires =
     (if st = C_RETIRING
      then (case retires of
              None \<Rightarrow> channel_error (''host_credential.retires_at: a retiring credential needs the ''
                         @ ''instant it stops verifying'')
            | Some r \<Rightarrow> bindR (channel_timestamp (PStr r) ''host_credential.retires_at'') (\<lambda>_. Inr ()))
      else if retires \<noteq> None
      then channel_error ''host_credential.retires_at: only a retiring credential carries one''
      else Inr ())"

definition credential_make :: "host_credential \<Rightarrow> host_credential res" where
  "credential_make c =
     bindR (channel_identifier (PStr (hc_host_id c)) ''host_credential.host_id'') (\<lambda>_.
     bindR (channel_identifier (PStr (hc_key_id c)) ''host_credential.key_id'') (\<lambda>_.
     bindR (check_public_key (hc_public_key c) ''host_credential.public_key'') (\<lambda>_.
     bindR (key_id_for (hc_public_key c)) (\<lambda>k.
     bindR (if k \<noteq> hc_key_id c
            then channel_error ''host_credential.key_id: does not match the public key it names''
            else Inr ()) (\<lambda>_.
     bindR (channel_timestamp (PStr (hc_issued_at c)) ''host_credential.issued_at'') (\<lambda>i.
     bindR (channel_timestamp (PStr (hc_not_after c)) ''host_credential.not_after'') (\<lambda>n.
     bindR (run_checks
       [(dt_instant i < dt_instant n, Exn ChannelError ''host_credential.not_after: must be after issued_at''),
        (1 \<le> hc_generation c, Exn ChannelError ''host_credential.generation: must be 1 or greater'')]) (\<lambda>_.
     bindR (check_retires (hc_status c) (hc_retires_at c)) (\<lambda>_.
       Inr c)))))))))"

definition usable_at :: "host_credential \<Rightarrow> datetime \<Rightarrow> bool res" where
  "usable_at c at =
     (if hc_status c = C_REVOKED then Inr False
      else bindR (channel_timestamp (PStr (hc_not_after c)) ''host_credential.not_after'') (\<lambda>n.
        if dt_instant at > dt_instant n then Inr False
        else if hc_status c = C_RETIRING
        then bindR (channel_timestamp (opt_str (hc_retires_at c)) ''host_credential.retires_at'') (\<lambda>r.
               Inr (dt_instant at \<le> dt_instant r))
        else Inr True))"

section \<open>Envelopes\<close>

record envelope =
  en_host_id :: string
  en_key_id :: string
  en_sequence :: int
  en_nonce :: string
  en_issued_at :: string
  en_expires_at :: string
  en_body_json :: string
  en_signature :: bytes

definition check_body_text :: "string \<Rightarrow> unit res" where
  "check_body_text body =
     (if body = [] then channel_error ''envelope.body_json: must be non-empty canonical text''
      else case loads body of
        None \<Rightarrow> channel_error ''envelope.body_json: is not JSON''
      | Some v \<Rightarrow>
          bindR (mapErr (of_class ChannelError)
                  (\<lambda>e. Exn ChannelError (''envelope.body_json: '' @ exn_text e))
                  (body_json v ''envelope.body_json'')) (\<lambda>canonical.
            if canonical \<noteq> body
            then channel_error (''envelope.body_json: must be canonical JSON (sorted keys, no whitespace); ''
                   @ ''the signed bytes and the stored body must be the same text'')
            else Inr ()))"

definition check_nonce :: "pyval \<Rightarrow> string res" where
  "check_nonce v =
     (let refusal = channel_error (''envelope.nonce: must be 8-64 lowercase letters, digits, or ''
                      @ [CHR 0x27] @ ''-'' @ [CHR 0x27]) in
      case v of PStr s \<Rightarrow> if is_nonce s then Inr s else refusal | _ \<Rightarrow> refusal)"

definition string_value :: "pyval \<Rightarrow> string" where
  "string_value v = (case v of PStr s \<Rightarrow> s | _ \<Rightarrow> [])"

definition envelope_make ::
  "pyval \<Rightarrow> pyval \<Rightarrow> pyval \<Rightarrow> pyval \<Rightarrow> pyval \<Rightarrow> pyval \<Rightarrow> string \<Rightarrow> bytes \<Rightarrow> envelope res" where
  "envelope_make host key seq nonce issued expires body sig =
     bindR (channel_identifier host ''envelope.host_id'') (\<lambda>h.
     bindR (channel_identifier key ''envelope.key_id'') (\<lambda>k.
     bindR (check_sequence seq ''envelope.sequence'') (\<lambda>n.
     bindR (check_nonce nonce) (\<lambda>x.
     bindR (channel_timestamp issued ''envelope.issued_at'') (\<lambda>i.
     bindR (channel_timestamp expires ''envelope.expires_at'') (\<lambda>e.
     bindR (run_checks
       [(dt_instant i < dt_instant e, Exn ChannelError ''envelope.expires_at: must be after issued_at''),
        (dt_instant e - dt_instant i \<le> max_message_lifetime,
           Exn ChannelError ''envelope.expires_at: lifetime exceeds 300s'')]) (\<lambda>_.
     bindR (check_body_text body) (\<lambda>_.
       if length sig \<noteq> signature_size
       then channel_error ''envelope.signature: must be exactly 64 bytes''
       else Inr \<lparr>en_host_id = h, en_key_id = k, en_sequence = n, en_nonce = x,
                 en_issued_at = string_value issued, en_expires_at = string_value expires,
                 en_body_json = body, en_signature = sig\<rparr>))))))))"

text \<open>\<open>json.loads\<close> of a body that passed its check.\<close>

definition body_value :: "string \<Rightarrow> pyval" where
  "body_value s = (case loads s of Some v \<Rightarrow> v | None \<Rightarrow> PNone)"

definition signed_document :: "envelope \<Rightarrow> pyval" where
  "signed_document e = PDict
     [(''schema'', PStr channel_schema), (''host_id'', PStr (en_host_id e)), (''key_id'', PStr (en_key_id e)),
      (''sequence'', PInt (en_sequence e)), (''nonce'', PStr (en_nonce e)), (''issued_at'', PStr (en_issued_at e)),
      (''expires_at'', PStr (en_expires_at e)), (''body'', body_value (en_body_json e))]"

definition signed_bytes :: "envelope \<Rightarrow> bytes" where
  "signed_bytes e = utf8 (json_text False (signed_document e))"

definition envelope_to_document :: "envelope \<Rightarrow> pyval" where
  "envelope_to_document e = PDict
     [(''schema'', PStr channel_schema), (''host_id'', PStr (en_host_id e)), (''key_id'', PStr (en_key_id e)),
      (''sequence'', PInt (en_sequence e)), (''nonce'', PStr (en_nonce e)), (''issued_at'', PStr (en_issued_at e)),
      (''expires_at'', PStr (en_expires_at e)), (''body'', body_value (en_body_json e)),
      (''signature'', PStr (hex_of (en_signature e)))]"

definition envelope_fields :: "string list" where
  "envelope_fields =
     [''schema'', ''host_id'', ''key_id'', ''sequence'', ''nonce'', ''issued_at'', ''expires_at'', ''body'',
      ''signature'']"

text \<open>\<open>bytes.fromhex\<close> of a text of lowercase hex digits and at most a final newline.\<close>

fun hex_pairs :: "string \<Rightarrow> bytes option" where
  "hex_pairs [] = Some []"
| "hex_pairs [c] = (if c = newline then Some [] else None)"
| "hex_pairs (c # d # r) =
     (case hex_number 0 [c, d] of None \<Rightarrow> None | Some n \<Rightarrow> map_option (\<lambda>bs. of_nat n # bs) (hex_pairs r))"

definition fromhex :: "string \<Rightarrow> bytes res" where
  "fromhex s =
     (case hex_pairs s of
        Some bs \<Rightarrow> Inr bs
      | None \<Rightarrow> raise PyValueError (''non-hexadecimal number found in fromhex() arg at position ''
                  @ nat_str (length (takeWhile is_hex s))))"

definition check_signature_text :: "pyval \<Rightarrow> string \<Rightarrow> bytes res" where
  "check_signature_text v w =
     (let refusal = channel_error (w @ ''.signature: must be a lowercase hex string'') in
      case v of PStr s \<Rightarrow> if is_hex_text s then fromhex s else refusal | _ \<Rightarrow> refusal)"

definition envelope_from_document :: "pyval \<Rightarrow> string \<Rightarrow> envelope res" where
  "envelope_from_document doc w =
     (case doc of
        PDict d \<Rightarrow>
          bindR (run_checks
            (map (\<lambda>n. (n \<in> fst ` set d, Exn ChannelError (w @ ''.'' @ n @ '': is required''))) envelope_fields
             @ map (\<lambda>kv. (fst kv \<in> set envelope_fields,
                           Exn ChannelError (w @ ''.'' @ fst kv @ '': is not a field of an envelope''))) d
             @ [(py_get d ''schema'' = PStr channel_schema,
                  Exn ChannelError (w @ ''.schema: must be '' @ py_repr channel_schema))])) (\<lambda>_.
          bindR (check_signature_text (py_get d ''signature'') w) (\<lambda>sig.
            mapErr (of_class ChannelError) (\<lambda>e. Exn ChannelError (w @ '': '' @ exn_text e))
              (bindR (body_json (py_get d ''body'') (w @ ''.body'')) (\<lambda>body.
                envelope_make (py_get d ''host_id'') (py_get d ''key_id'') (py_get d ''sequence'')
                  (py_get d ''nonce'') (py_get d ''issued_at'') (py_get d ''expires_at'') body sig))))
      | _ \<Rightarrow> channel_error (w @ '': must be an object''))"

record accepted_report =
  ar_host_id :: string
  ar_key_id :: string
  ar_sequence :: int
  ar_issued_at :: string
  ar_body_json :: string

definition report_body :: "accepted_report \<Rightarrow> pyval" where
  "report_body r = body_value (ar_body_json r)"

end
