(* ===== verification/Agent_Channel.thy ===== *)
theory Agent_Channel
  imports Fleet_Channel
begin

text \<open>
  \<open>AgentChannel\<close> of \<open>fleet_manager/channel.py\<close>: the state it keeps and each of its methods. Its
  dictionaries are maps, except the credentials, whose entries are listed in insertion order because
  two methods iterate over them.
\<close>

section \<open>State\<close>

record agent_channel =
  cn_rotation_overlap :: timedelta
  cn_credential_lifetime :: timedelta
  cn_tokens :: "string \<rightharpoonup> enrollment_token"
  cn_consumed :: "string set"
  cn_credentials :: "((string \<times> string) \<times> host_credential) list"
  cn_keys :: "bytes \<rightharpoonup> string"
  cn_last_sequence :: "string \<times> string \<rightharpoonup> int"
  cn_nonces :: "string \<times> string \<rightharpoonup> (string \<rightharpoonup> datetime)"

definition default_credential_lifetime :: timedelta where
  "default_credential_lifetime = 90 * day_us"

definition channel_init :: "timedelta \<Rightarrow> timedelta \<Rightarrow> agent_channel res" where
  "channel_init overlap lifetime =
     (if overlap \<le> 0 then channel_error ''channel.rotation_overlap: must be a positive timedelta''
      else if lifetime \<le> 0 then channel_error ''channel.credential_lifetime: must be a positive timedelta''
      else Inr \<lparr>cn_rotation_overlap = overlap, cn_credential_lifetime = lifetime, cn_tokens = Map.empty,
                cn_consumed = {}, cn_credentials = [], cn_keys = Map.empty, cn_last_sequence = Map.empty,
                cn_nonces = Map.empty\<rparr>)"

text \<open>\<open>d[k] = v\<close> on a dictionary given by its entries.\<close>

definition entry_set :: "('k \<times> 'v) list \<Rightarrow> 'k \<Rightarrow> 'v \<Rightarrow> ('k \<times> 'v) list" where
  "entry_set d k v =
     (if k \<in> fst ` set d then map (\<lambda>e. if fst e = k then (k, v) else e) d else d @ [(k, v)])"

section \<open>Enrollment\<close>

definition issue_token ::
  "agent_channel \<Rightarrow> pyval \<Rightarrow> string list \<Rightarrow> datetime \<Rightarrow> timedelta \<Rightarrow> string option \<Rightarrow> string
   \<Rightarrow> (agent_channel \<times> enrollment_token) res" where
  "issue_token c host pools at ttl tid random =
     bindR (channel_instant at ''channel.issue_token.at'') (\<lambda>now.
     bindR (channel_identifier host ''channel.issue_token.host_id'') (\<lambda>h.
     bindR (run_checks
       [(pools \<noteq> [], Exn ChannelError ''channel.issue_token.pools: must be a non-empty tuple''),
        (0 < ttl, Exn ChannelError ''channel.issue_token.ttl: must be a positive timedelta''),
        (ttl \<le> max_token_lifetime, Exn ChannelError ''channel.issue_token.ttl: exceeds 3600s''),
        (h \<notin> (fst \<circ> fst) ` set (cn_credentials c),
           Exn ChannelError (''channel.issue_token: host '' @ py_repr h
             @ '' already holds a credential; rotate it, or revoke it first''))]) (\<lambda>_.
     bindR (channel_stamp now) (\<lambda>issued.
     bindR (bindR (dt_add now ttl) channel_stamp) (\<lambda>expires.
     bindR (token_make (PStr h) (sort pools) issued expires
             (case tid of Some t \<Rightarrow> t | None \<Rightarrow> ''token-'' @ random)) (\<lambda>t.
       Inr (c\<lparr>cn_tokens := (cn_tokens c)(et_token_id t \<mapsto> t)\<rparr>, t)))))))"

definition enrolled_text :: "string \<Rightarrow> string \<Rightarrow> string" where
  "enrolled_text method holder =
     ''channel.'' @ method @ '': this public key is already enrolled (to host '' @ py_repr holder
     @ ''); a key identifies one host''"

definition fresh_key :: "agent_channel \<Rightarrow> string \<Rightarrow> bytes \<Rightarrow> unit res" where
  "fresh_key c method k =
     (case cn_keys c k of None \<Rightarrow> Inr () | Some holder \<Rightarrow> channel_error (enrolled_text method holder))"

text \<open>The credential a new key gets: issued now, for the configured lifetime.\<close>

definition new_credential ::
  "agent_channel \<Rightarrow> string \<Rightarrow> bytes \<Rightarrow> datetime \<Rightarrow> int \<Rightarrow> host_credential res" where
  "new_credential c host k now generation =
     bindR (key_id_for k) (\<lambda>kid.
     bindR (channel_stamp now) (\<lambda>issued.
     bindR (bindR (dt_add now (cn_credential_lifetime c)) channel_stamp) (\<lambda>not_after.
       credential_make \<lparr>hc_host_id = host, hc_key_id = kid, hc_public_key = k, hc_issued_at = issued,
         hc_not_after = not_after, hc_generation = generation, hc_status = C_ACTIVE, hc_retires_at = None\<rparr>)))"

definition store_credential :: "host_credential \<Rightarrow> agent_channel \<Rightarrow> agent_channel" where
  "store_credential cr c =
     c\<lparr>cn_credentials := entry_set (cn_credentials c) (hc_host_id cr, hc_key_id cr) cr\<rparr>"

definition bind_key :: "bytes \<Rightarrow> string \<Rightarrow> agent_channel \<Rightarrow> agent_channel" where
  "bind_key k host c = c\<lparr>cn_keys := (cn_keys c)(k \<mapsto> host)\<rparr>"

definition enroll ::
  "agent_channel \<Rightarrow> string \<Rightarrow> bytes \<Rightarrow> datetime \<Rightarrow> (agent_channel \<times> host_credential) res" where
  "enroll c tid k at =
     bindR (channel_instant at ''channel.enroll.at'') (\<lambda>now.
     bindR (check_public_key k ''channel.enroll.public_key'') (\<lambda>_.
     bindR (if tid = [] then channel_error ''channel.enroll.token_id: must be a non-empty string''
            else if tid \<in> cn_consumed c
            then channel_error ''channel.enroll: the enrollment token has already been used''
            else case cn_tokens c tid of
              None \<Rightarrow> channel_error ''channel.enroll: the enrollment token is not known''
            | Some t \<Rightarrow> Inr t) (\<lambda>token.
     bindR (token_expired token now) (\<lambda>expired.
     bindR (if expired then channel_error ''channel.enroll: the enrollment token has expired''
            else channel_timestamp (PStr (et_issued_at token)) ''enrollment_token.issued_at'') (\<lambda>issued.
     bindR (if dt_instant now < dt_instant issued
            then channel_error ''channel.enroll: the token cannot be redeemed before it was issued''
            else fresh_key c ''enroll'' k) (\<lambda>_.
     bindR (new_credential c (et_host_id token) k now 1) (\<lambda>cr.
       Inr (bind_key k (hc_host_id cr) (store_credential cr
              (c\<lparr>cn_tokens := (cn_tokens c)(tid := None), cn_consumed := insert tid (cn_consumed c)\<rparr>)), cr))))))))"

section \<open>Rotation and revocation\<close>

definition find_credential :: "agent_channel \<Rightarrow> string \<Rightarrow> string \<Rightarrow> string \<Rightarrow> host_credential res" where
  "find_credential c host key w =
     bindR (channel_identifier (PStr host) (w @ ''.host_id'')) (\<lambda>_.
     bindR (channel_identifier (PStr key) (w @ ''.key_id'')) (\<lambda>_.
       case map_of (cn_credentials c) (host, key) of
         Some cr \<Rightarrow> Inr cr
       | None \<Rightarrow> channel_error (w @ '': no credential for host '' @ py_repr host @ '' and key '' @ py_repr key)))"

definition not_before_issue :: "host_credential \<Rightarrow> datetime \<Rightarrow> string \<Rightarrow> unit res" where
  "not_before_issue cr now refusal =
     bindR (channel_timestamp (PStr (hc_issued_at cr)) ''host_credential.issued_at'') (\<lambda>issued.
       if dt_instant now < dt_instant issued then channel_error refusal else Inr ())"

definition check_rotation :: "agent_channel \<Rightarrow> string \<Rightarrow> string \<Rightarrow> bytes \<Rightarrow> datetime \<Rightarrow> host_credential res" where
  "check_rotation c host key k now =
     bindR (check_public_key k ''channel.rotate.public_key'') (\<lambda>_.
     bindR (find_credential c host key ''channel.rotate'') (\<lambda>current.
     bindR (if hc_status current = C_REVOKED
            then channel_error (''channel.rotate: a revoked credential cannot be rotated; enroll a ''
                   @ ''new token for this host'')
            else if hc_status current \<noteq> C_ACTIVE
            then channel_error (''channel.rotate: only the active credential can be rotated (this one is ''
                   @ credential_status_value (hc_status current) @ '')'')
            else not_before_issue current now
                   ''channel.rotate: cannot rotate before the credential was issued'') (\<lambda>_.
     bindR (if k = hc_public_key current
            then channel_error (''channel.rotate: the new key is the current key; a rotation that ''
                   @ ''changes nothing must not silently re-authorize it'')
            else fresh_key c ''rotate'' k) (\<lambda>_. Inr current))))"

definition rotate ::
  "agent_channel \<Rightarrow> string \<Rightarrow> string \<Rightarrow> bytes \<Rightarrow> datetime
   \<Rightarrow> (agent_channel \<times> host_credential \<times> host_credential) res" where
  "rotate c host key k at =
     bindR (channel_instant at ''channel.rotate.at'') (\<lambda>now.
     bindR (check_rotation c host key k now) (\<lambda>current.
     bindR (bindR (dt_add now (cn_rotation_overlap c)) channel_stamp) (\<lambda>retires.
     bindR (credential_make (current\<lparr>hc_status := C_RETIRING, hc_retires_at := Some retires\<rparr>)) (\<lambda>retiring.
     bindR (new_credential c (hc_host_id current) k now (hc_generation current + 1)) (\<lambda>active.
       Inr (bind_key k (hc_host_id active) (store_credential active (store_credential retiring c)),
            active, retiring))))))"

definition revoke ::
  "agent_channel \<Rightarrow> string \<Rightarrow> string \<Rightarrow> datetime \<Rightarrow> (agent_channel \<times> host_credential) res" where
  "revoke c host key at =
     bindR (channel_instant at ''channel.revoke.at'') (\<lambda>now.
     bindR (find_credential c host key ''channel.revoke'') (\<lambda>current.
     bindR (if hc_status current = C_REVOKED
            then channel_error ''channel.revoke: this credential is already revoked''
            else not_before_issue current now
                   ''channel.revoke: cannot revoke before the credential was issued'') (\<lambda>_.
     bindR (credential_make (current\<lparr>hc_status := C_REVOKED, hc_retires_at := None\<rparr>)) (\<lambda>revoked.
       Inr (store_credential revoked c, revoked)))))"

definition active :: "agent_channel \<Rightarrow> string \<Rightarrow> host_credential res" where
  "active c host =
     bindR (channel_identifier (PStr host) ''channel.active.host_id'') (\<lambda>_.
       case map snd (filter (\<lambda>e. fst (fst e) = host \<and> hc_status (snd e) = C_ACTIVE) (cn_credentials c)) of
         [] \<Rightarrow> channel_error (''channel.active: host '' @ py_repr host @ '' has no active credential'')
       | [cr] \<Rightarrow> Inr cr
       | crs \<Rightarrow> channel_error (''channel.active: host '' @ py_repr host @ '' has '' @ nat_str (length crs)
                  @ '' active credentials; the ledger must name exactly one''))"

section \<open>Reports\<close>

datatype verdict = Returned bool | Raised string

type_synonym verifier = "bytes \<Rightarrow> bytes \<Rightarrow> bytes \<Rightarrow> verdict"

definition identity_of :: "envelope \<Rightarrow> string \<times> string" where
  "identity_of e = (en_host_id e, en_key_id e)"

text \<open>The checks of \<open>accept\<close> before it touches the replay state; they return the report's expiry.\<close>

definition check_report :: "agent_channel \<Rightarrow> envelope \<Rightarrow> datetime \<Rightarrow> verifier \<Rightarrow> datetime res" where
  "check_report c e at verify =
     bindR (channel_instant at ''channel.accept.at'') (\<lambda>now.
     bindR (find_credential c (en_host_id e) (en_key_id e) ''channel.accept'') (\<lambda>cr.
     bindR (usable_at cr now) (\<lambda>usable.
     bindR (if \<not> usable
            then channel_error (''channel.accept: the credential is not usable at this instant (status ''
                   @ credential_status_value (hc_status cr) @ '', key '' @ py_repr (hc_key_id cr) @ '')'')
            else Inr ()) (\<lambda>_.
     bindR (channel_timestamp (PStr (en_issued_at e)) ''envelope.issued_at'') (\<lambda>issued.
     bindR (channel_timestamp (PStr (en_expires_at e)) ''envelope.expires_at'') (\<lambda>expires.
     bindR (if dt_instant now \<ge> dt_instant expires
            then channel_error ''channel.accept: the report has expired''
            else dt_add issued (- max_clock_skew)) (\<lambda>earliest.
     bindR (if dt_instant now < dt_instant earliest
            then channel_error (''channel.accept: the report is issued in the future beyond the 60s clock skew'')
            else case verify (hc_public_key cr) (signed_bytes e) (en_signature e) of
              Raised t \<Rightarrow> channel_error (''channel.accept: the signature provider refused the report ('' @ t
                            @ ''); the channel does not fall back'')
            | Returned b \<Rightarrow>
                if b then Inr () else channel_error ''channel.accept: the signature does not verify'') (\<lambda>_.
     bindR (case cn_last_sequence c (identity_of e) of
              Some n \<Rightarrow>
                if en_sequence e \<le> n
                then channel_error (''channel.accept: the sequence is not new (last accepted '' @ int_str n
                       @ '', this report says '' @ int_str (en_sequence e)
                       @ ''); a replay or a reordered report is refused, not delivered'')
                else Inr ()
            | None \<Rightarrow> Inr ()) (\<lambda>_.
       Inr expires)))))))))"

text \<open>The nonces of one identity that have not expired.\<close>

definition live_nonces :: "agent_channel \<Rightarrow> string \<times> string \<Rightarrow> datetime \<Rightarrow> string \<rightharpoonup> datetime" where
  "live_nonces c i at = (\<lambda>n.
     case cn_nonces c i of
       None \<Rightarrow> None
     | Some seen \<Rightarrow>
         (case seen n of
            None \<Rightarrow> None
          | Some expiry \<Rightarrow> if dt_instant expiry < dt_instant at then None else Some expiry))"

definition report_of :: "envelope \<Rightarrow> accepted_report" where
  "report_of e =
     \<lparr>ar_host_id = en_host_id e, ar_key_id = en_key_id e, ar_sequence = en_sequence e,
      ar_issued_at = en_issued_at e, ar_body_json = en_body_json e\<rparr>"

definition accept ::
  "agent_channel \<Rightarrow> envelope \<Rightarrow> datetime \<Rightarrow> verifier \<Rightarrow> agent_channel \<times> accepted_report res" where
  "accept c e at verify =
     (case check_report c e at verify of
        Inl err \<Rightarrow> (c, Inl err)
      | Inr expires \<Rightarrow>
          let i = identity_of e; seen = live_nonces c i at in
          if seen (en_nonce e) \<noteq> None
          then (c\<lparr>cn_nonces := (cn_nonces c)(i \<mapsto> seen)\<rparr>,
                channel_error (''channel.accept: the nonce was already used under a later sequence; ''
                  @ ''a sequence that invented a nonce is not a report this channel trusts''))
          else (c\<lparr>cn_last_sequence := (cn_last_sequence c)(i \<mapsto> en_sequence e),
                  cn_nonces := (cn_nonces c)(i \<mapsto> seen(en_nonce e \<mapsto> expires))\<rparr>,
                Inr (report_of e)))"

definition last_sequence :: "agent_channel \<Rightarrow> string \<Rightarrow> string \<Rightarrow> int option" where
  "last_sequence c host key = cn_last_sequence c (host, key)"

section \<open>The channel as a transition system\<close>

text \<open>Every call a program can make on a channel that changes it, a refused report included.\<close>

inductive channel_step :: "agent_channel \<Rightarrow> agent_channel \<Rightarrow> bool" where
  issued: "issue_token c host pools at ttl tid random = Inr (d, t) \<Longrightarrow> channel_step c d"
| enrolled: "enroll c tid k at = Inr (d, cr) \<Longrightarrow> channel_step c d"
| rotated: "rotate c host key k at = Inr (d, new, old) \<Longrightarrow> channel_step c d"
| revoked: "revoke c host key at = Inr (d, cr) \<Longrightarrow> channel_step c d"
| reported: "accept c e at verify = (d, r) \<Longrightarrow> channel_step c d"

section \<open>What the values guarantee\<close>

definition credential_ok :: "host_credential \<Rightarrow> bool" where
  "credential_ok cr \<longleftrightarrow>
     is_identifier (hc_host_id cr) \<and> is_identifier (hc_key_id cr) \<and> length (hc_public_key cr) = 32
     \<and> hc_key_id cr = key_id_of (hc_public_key cr) \<and> 1 \<le> hc_generation cr
     \<and> (\<exists>i n. chan_us (hc_issued_at cr) = Some i \<and> chan_us (hc_not_after cr) = Some n \<and> i < n)
     \<and> (if hc_status cr = C_RETIRING then \<exists>r t. hc_retires_at cr = Some r \<and> chan_us r = Some t
        else hc_retires_at cr = None)"

text \<open>When a credential verifies: not revoked, not past its end, not past its overlap.\<close>

definition usable :: "host_credential \<Rightarrow> int \<Rightarrow> bool" where
  "usable cr t \<longleftrightarrow> hc_status cr \<noteq> C_REVOKED \<and> t \<le> the (chan_us (hc_not_after cr))
     \<and> (hc_status cr = C_RETIRING \<longrightarrow> t \<le> the (chan_us (the (hc_retires_at cr))))"

lemma channel_timestamp_iff: "channel_timestamp (PStr s) w = Inr d \<longleftrightarrow> fromisoformat s = Some d \<and> dt_offset d \<noteq> None"
  by (simp add: channel_timestamp_ok)

lemma chan_usE:
  assumes "chan_us s = Some t"
  obtains d where "fromisoformat s = Some d" "dt_offset d \<noteq> None" "dt_instant d = t"
  using assms by (auto simp: chan_us_iff)

lemma check_retires_ok: "check_retires st r = Inr u \<longleftrightarrow>
    (if st = C_RETIRING then \<exists>x t. r = Some x \<and> chan_us x = Some t else r = None)"
  by (auto simp: check_retires_def bindR_Inr_iff channel_timestamp_iff chan_us_iff split: option.splits)

lemma credential_make_ok: "credential_make cr = Inr x \<longleftrightarrow> x = cr \<and> credential_ok cr"
proof -
  have stamps: "(\<exists>i n. channel_timestamp (PStr a) v = Inr i \<and> channel_timestamp (PStr b) w = Inr n \<and> P (dt_instant i) (dt_instant n))
      \<longleftrightarrow> (\<exists>i n. chan_us a = Some i \<and> chan_us b = Some n \<and> P i n)" for a b v w P
    by (auto simp: channel_timestamp_iff chan_us_iff)
  show ?thesis
    using stamps [of "hc_issued_at cr" "''host_credential.issued_at''" "hc_not_after cr" "''host_credential.not_after''"
      "\<lambda>i n. i < n"]
    by (auto simp: credential_make_def credential_ok_def bindR_Inr_iff channel_identifier_ok check_public_key_ok
        key_id_for_ok run_checks_ok check_retires_ok)
qed

lemma usable_at_ok:
  assumes "credential_ok cr"
  shows "usable_at cr at = Inr (usable cr (dt_instant at))"
proof -
  obtain n where n: "chan_us (hc_not_after cr) = Some n" using assms by (auto simp: credential_ok_def)
  obtain d where d: "channel_timestamp (PStr (hc_not_after cr)) ''host_credential.not_after'' = Inr d" "dt_instant d = n"
    using channel_timestamp_us [OF n] by blast
  show ?thesis
  proof (cases "hc_status cr = C_RETIRING")
    case True
    then obtain r t where r: "hc_retires_at cr = Some r" "chan_us r = Some t"
      using assms by (auto simp: credential_ok_def)
    obtain x where "channel_timestamp (PStr r) ''host_credential.retires_at'' = Inr x" "dt_instant x = t"
      using channel_timestamp_us [OF r(2)] by blast
    then show ?thesis using True r n d by (auto simp: usable_at_def usable_def opt_str_def)
  next
    case False
    then show ?thesis using n d by (auto simp: usable_at_def usable_def)
  qed
qed

section \<open>The channel's invariant\<close>

text \<open>
  Credentials are filed under their own host and key; each key is bound to the host of its
  credential; every token and every credential is well formed.
\<close>

definition channel_ok :: "agent_channel \<Rightarrow> bool" where
  "channel_ok c \<longleftrightarrow>
     distinct (map fst (cn_credentials c))
     \<and> (\<forall>(k, cr) \<in> set (cn_credentials c).
          k = (hc_host_id cr, hc_key_id cr) \<and> credential_ok cr
          \<and> cn_keys c (hc_public_key cr) = Some (hc_host_id cr))
     \<and> (\<forall>k h. cn_keys c k = Some h \<longrightarrow> length k = 32)"

lemma entry_set_mem: "(k', v') \<in> set (entry_set d k v) \<Longrightarrow> k' = k \<and> v' = v \<or> k' \<noteq> k \<and> (k', v') \<in> set d"
  by (force simp: entry_set_def split: if_splits)

lemma entry_set_distinct: "distinct (map fst d) \<Longrightarrow> distinct (map fst (entry_set d k v))"
proof -
  have "map fst (map (\<lambda>e. if fst e = k then (k, v) else e) d) = map fst d" by simp
  then show "distinct (map fst d) \<Longrightarrow> distinct (map fst (entry_set d k v))"
    by (auto simp: entry_set_def simp del: map_map)
qed

lemma map_of_replace: "map_of (map (\<lambda>e. if fst e = k then (k, v) else e) d) x =
    (if x = k \<and> k \<in> fst ` set d then Some v else map_of d x)"
proof (induction d)
  case (Cons e d)
  then show ?case by (cases e) (auto split: if_splits)
qed simp

lemma map_of_entry_set: "map_of (entry_set d k v) = (map_of d)(k \<mapsto> v)"
proof
  show "map_of (entry_set d k v) x = ((map_of d)(k \<mapsto> v)) x" for x
  proof (cases "k \<in> fst ` set d")
    case True
    then show ?thesis by (simp add: entry_set_def map_of_replace)
  next
    case False
    then have "map_of d k = None" by (simp add: map_of_eq_None_iff)
    then show ?thesis using False by (auto simp: entry_set_def map_add_def split: option.splits)
  qed
qed

lemma fresh_key_ok: "fresh_key c m k = Inr u \<longleftrightarrow> cn_keys c k = None"
  by (simp add: fresh_key_def split: option.splits)

lemma new_credential_ok:
  "new_credential c host k now g = Inr cr \<Longrightarrow>
     credential_ok cr \<and> hc_host_id cr = host \<and> hc_public_key cr = k \<and> hc_key_id cr = key_id_of k
     \<and> hc_status cr = C_ACTIVE \<and> hc_generation cr = g"
  by (auto simp: new_credential_def bindR_Inr_iff credential_make_ok key_id_for_ok)

lemma find_credential_ok: "find_credential c host key w = Inr cr \<longleftrightarrow>
    is_identifier host \<and> is_identifier key \<and> map_of (cn_credentials c) (host, key) = Some cr"
  by (auto simp: find_credential_def bindR_Inr_iff channel_identifier_ok split: option.splits)

lemma credential_fields [simp]:
  "cn_credentials (store_credential cr c) = entry_set (cn_credentials c) (hc_host_id cr, hc_key_id cr) cr"
  "cn_keys (store_credential cr c) = cn_keys c" "cn_consumed (store_credential cr c) = cn_consumed c"
  "cn_last_sequence (store_credential cr c) = cn_last_sequence c" "cn_nonces (store_credential cr c) = cn_nonces c"
  "cn_credentials (bind_key k h c) = cn_credentials c" "cn_keys (bind_key k h c) = (cn_keys c)(k \<mapsto> h)"
  "cn_consumed (bind_key k h c) = cn_consumed c" "cn_last_sequence (bind_key k h c) = cn_last_sequence c"
  "cn_nonces (bind_key k h c) = cn_nonces c"
  by (simp_all add: store_credential_def bind_key_def)

lemma map_of_credential:
  assumes "channel_ok c" and "map_of (cn_credentials c) (h, k) = Some cr"
  shows "hc_host_id cr = h" and "hc_key_id cr = k" and "credential_ok cr" and "cn_keys c (hc_public_key cr) = Some h"
  using assms map_of_SomeD [OF assms(2)] by (auto simp: channel_ok_def)

text \<open>Filing a credential: under a key that is already bound to its host, or under a fresh key.\<close>

lemma store_ok:
  assumes "channel_ok c" and "credential_ok cr" and "cn_keys c (hc_public_key cr) = Some (hc_host_id cr)"
  shows "channel_ok (store_credential cr c)"
  using assms by (auto simp: channel_ok_def entry_set_distinct dest!: entry_set_mem)

lemma bind_ok:
  assumes "channel_ok c" and "cn_keys c k = None" and "length k = 32"
  shows "channel_ok (bind_key k h c)"
  using assms by (fastforce simp: channel_ok_def)

lemma store_bind_swap: "bind_key k h (store_credential cr c) = store_credential cr (bind_key k h c)"
  by (simp add: bind_key_def store_credential_def)

lemma store_fresh_ok:
  assumes "channel_ok c" and "credential_ok cr" and "cn_keys c (hc_public_key cr) = None"
  shows "channel_ok (bind_key (hc_public_key cr) (hc_host_id cr) (store_credential cr c))"
  unfolding store_bind_swap
  by (rule store_ok [OF bind_ok]) (use assms in \<open>auto simp: credential_ok_def\<close>)

text \<open>Each operation, as what it did.\<close>

lemma issue_tokenD: "issue_token c host pools at ttl tid random = Inr (d, t) \<Longrightarrow>
    d = c\<lparr>cn_tokens := (cn_tokens c)(et_token_id t \<mapsto> t)\<rparr>"
  by (auto simp: issue_token_def bindR_Inr_iff)

lemma enrollD:
  assumes "enroll c tid k at = Inr (d, cr)"
  shows "tid \<notin> cn_consumed c" and "cn_keys c k = None" and "length k = 32" and "credential_ok cr"
    and "hc_public_key cr = k" and "hc_key_id cr = key_id_of k" and "hc_status cr = C_ACTIVE"
    and "\<exists>t. cn_tokens c tid = Some t \<and> hc_host_id cr = et_host_id t"
    and "d = bind_key k (hc_host_id cr) (store_credential cr
           (c\<lparr>cn_tokens := (cn_tokens c)(tid := None), cn_consumed := insert tid (cn_consumed c)\<rparr>))"
  using assms
  by (auto simp: enroll_def bindR_Inr_iff fresh_key_ok check_public_key_ok
      dest!: new_credential_ok split: if_splits option.splits)

lemma check_rotationD:
  assumes "check_rotation c host key k now = Inr current"
  shows "map_of (cn_credentials c) (host, key) = Some current" and "hc_status current = C_ACTIVE"
    and "cn_keys c k = None"
  using assms
  by (auto simp: check_rotation_def bindR_Inr_iff find_credential_ok fresh_key_ok split: if_splits)

lemma rotateD:
  assumes "rotate c host key k at = Inr (d, new, old)"
  obtains current retires where "map_of (cn_credentials c) (host, key) = Some current"
    and "hc_status current = C_ACTIVE" and "cn_keys c k = None" and "credential_ok old" and "credential_ok new"
    and "old = current\<lparr>hc_status := C_RETIRING, hc_retires_at := Some retires\<rparr>"
    and "hc_public_key new = k" and "hc_key_id new = key_id_of k" and "hc_host_id new = hc_host_id current"
    and "hc_status new = C_ACTIVE" and "hc_generation new = hc_generation current + 1"
    and "d = bind_key k (hc_host_id new) (store_credential new (store_credential old c))"
proof -
  obtain current retires where r: "check_rotation c host key k at = Inr current"
      and o': "credential_make (current\<lparr>hc_status := C_RETIRING, hc_retires_at := Some retires\<rparr>) = Inr old"
      and n: "new_credential c (hc_host_id current) k at (hc_generation current + 1) = Inr new"
      and d: "d = bind_key k (hc_host_id new) (store_credential new (store_credential old c))"
    using assms by (auto simp: rotate_def bindR_Inr_iff channel_instant_ok)
  note c = check_rotationD [OF r]
  show thesis
    by (rule that [OF c]) (use o' new_credential_ok [OF n] d in \<open>simp_all add: credential_make_ok\<close>)
qed

lemma revokeD:
  assumes "revoke c host key at = Inr (d, cr)"
  obtains current where "map_of (cn_credentials c) (host, key) = Some current"
    and "cr = current\<lparr>hc_status := C_REVOKED, hc_retires_at := None\<rparr>" and "credential_ok cr"
    and "d = store_credential cr c"
  using assms
  by (auto simp: revoke_def bindR_Inr_iff find_credential_ok credential_make_ok split: if_splits)

lemma acceptD:
  assumes "accept c e at verify = (d, r)"
  obtains (refused) err where "check_report c e at verify = Inl err" "d = c" "r = Inl err"
  | (repeated) x where "check_report c e at verify = Inr x"
      "live_nonces c (identity_of e) at (en_nonce e) \<noteq> None" "\<exists>err. r = Inl err"
      "d = c\<lparr>cn_nonces := (cn_nonces c)(identity_of e \<mapsto> live_nonces c (identity_of e) at)\<rparr>"
  | (accepted) x where "check_report c e at verify = Inr x"
      "live_nonces c (identity_of e) at (en_nonce e) = None" "r = Inr (report_of e)"
      "d = c\<lparr>cn_last_sequence := (cn_last_sequence c)(identity_of e \<mapsto> en_sequence e),
             cn_nonces := (cn_nonces c)(identity_of e \<mapsto> (live_nonces c (identity_of e) at)(en_nonce e \<mapsto> x))\<rparr>"
proof (cases "check_report c e at verify")
  case (Inl err)
  then show thesis using assms by (intro refused [OF Inl]) (simp_all add: accept_def)
next
  case (Inr x)
  show thesis
  proof (cases "live_nonces c (identity_of e) at (en_nonce e) = None")
    case True
    have "accept c e at verify =
        (c\<lparr>cn_last_sequence := (cn_last_sequence c)(identity_of e \<mapsto> en_sequence e),
           cn_nonces := (cn_nonces c)(identity_of e \<mapsto> (live_nonces c (identity_of e) at)(en_nonce e \<mapsto> x))\<rparr>,
         Inr (report_of e))"
      unfolding accept_def Inr sum.case Let_def by (simp only: True simp_thms if_False)
    then show thesis using accepted [OF Inr True] unfolding assms by (simp only: prod.inject)
  next
    case False
    obtain err where "accept c e at verify =
        (c\<lparr>cn_nonces := (cn_nonces c)(identity_of e \<mapsto> live_nonces c (identity_of e) at)\<rparr>, Inl err)"
      unfolding accept_def Inr sum.case Let_def channel_error_def raise_def by (simp only: False not_False_eq_True if_True)
    then show thesis using repeated [OF Inr False] unfolding assms by (simp only: prod.inject) blast
  qed
qed

lemma check_report_newer: "check_report c e at verify = Inr x \<Longrightarrow> cn_last_sequence c (identity_of e) = Some n \<Longrightarrow>
    n < en_sequence e"
  by (auto simp: check_report_def bindR_Inr_iff split: if_splits)

text \<open>What a step leaves alone, and what it can only raise.\<close>

lemma channel_step_ok: "channel_step c d \<Longrightarrow> channel_ok c \<Longrightarrow> channel_ok d"
proof (induction rule: channel_step.induct)
  case (issued c host pools at ttl tid random d t)
  then show ?case using issue_tokenD [OF issued(1)] by (simp add: channel_ok_def)
next
  case (enrolled c tid k at d cr)
  note e = enrollD [OF enrolled(1)]
  let ?b = "c\<lparr>cn_tokens := (cn_tokens c)(tid := None), cn_consumed := insert tid (cn_consumed c)\<rparr>"
  have "channel_ok ?b" using enrolled(2) by (simp add: channel_ok_def)
  then show ?case using store_fresh_ok [of ?b cr] e by simp
next
  case (rotated c host key k at d new old)
  from rotated(1) show ?case
  proof (rule rotateD)
    fix current retires
    assume cur: "map_of (cn_credentials c) (host, key) = Some current"
      and old: "old = current\<lparr>hc_status := C_RETIRING, hc_retires_at := Some retires\<rparr>"
      and ok: "credential_ok old" "credential_ok new" and k: "cn_keys c k = None" "hc_public_key new = k"
      and d: "d = bind_key k (hc_host_id new) (store_credential new (store_credential old c))"
    have "cn_keys c (hc_public_key old) = Some (hc_host_id old)"
      using map_of_credential [OF rotated(2) cur] old by simp
    then have "channel_ok (store_credential old c)" using store_ok [OF rotated(2) ok(1)] by simp
    then show ?case using store_fresh_ok [OF _ ok(2)] k d by simp
  qed
next
  case (revoked c host key at d cr)
  from revoked(1) show ?case
  proof (rule revokeD)
    fix current
    assume cur: "map_of (cn_credentials c) (host, key) = Some current"
      and cr: "cr = current\<lparr>hc_status := C_REVOKED, hc_retires_at := None\<rparr>" "credential_ok cr"
      and d: "d = store_credential cr c"
    then show ?case
      using store_ok [OF revoked(2) cr(2)] map_of_credential [OF revoked(2) cur] by simp
  qed
next
  case (reported c e at verify d r)
  from reported(1) show ?case
    by (cases rule: acceptD) (use reported(2) in \<open>simp_all add: channel_ok_def\<close>)
qed

lemma channel_step_sequence:
  "channel_step c d \<Longrightarrow> cn_last_sequence c i = Some n \<Longrightarrow> \<exists>k. cn_last_sequence d i = Some k \<and> n \<le> k"
proof (induction rule: channel_step.induct)
  case (reported c e at verify d r)
  from reported(1) show ?case
  proof (cases rule: acceptD)
    case (accepted x)
    then show ?thesis using check_report_newer [OF accepted(1)] reported(2) by fastforce
  qed (use reported(2) in simp_all)
qed (auto dest!: issue_tokenD enrollD(9) elim!: rotateD revokeD)

lemma channel_step_consumed: "channel_step c d \<Longrightarrow> cn_consumed c \<subseteq> cn_consumed d"
proof (induction rule: channel_step.induct)
  case (reported c e at verify d r)
  from reported(1) show ?case by (cases rule: acceptD) simp_all
qed (auto dest!: issue_tokenD enrollD(9) elim!: rotateD revokeD)

lemma channel_step_keys: "channel_step c d \<Longrightarrow> cn_keys c \<subseteq>\<^sub>m cn_keys d"
proof (induction rule: channel_step.induct)
  case (enrolled c tid k at d cr)
  then show ?case using enrollD(2,9) [OF enrolled] by (auto simp: map_le_def)
next
  case (reported c e at verify d r)
  from reported show ?case by (cases rule: acceptD) simp_all
qed (auto dest!: issue_tokenD elim!: rotateD revokeD simp: map_le_def)

text \<open>What a call of \<open>accept\<close> lets through, as a guard.\<close>

definition admitted :: "agent_channel \<Rightarrow> envelope \<times> datetime \<times> verifier \<Rightarrow> agent_channel option" where
  "admitted c m = (case m of (e, at, verify) \<Rightarrow>
     (case accept c e at verify of (d, Inr r) \<Rightarrow> Some d | (d, Inl err) \<Rightarrow> None))"

lemma admitted_ok: "admitted c (e, at, verify) = Some d \<longleftrightarrow> (\<exists>r. accept c e at verify = (d, Inr r))"
  by (auto simp: admitted_def split: prod.splits sum.splits)

lemma accept_sequence:
  assumes "accept c e at verify = (d, Inr r)"
  shows "cn_last_sequence c (identity_of e) = Some n \<Longrightarrow> n < en_sequence e"
    and "cn_last_sequence d (identity_of e) = Some (en_sequence e)"
proof -
  show "cn_last_sequence c (identity_of e) = Some n \<Longrightarrow> n < en_sequence e"
    using assms by (cases rule: acceptD) (auto dest: check_report_newer)
  show "cn_last_sequence d (identity_of e) = Some (en_sequence e)"
    using assms by (cases rule: acceptD) simp_all
qed

interpretation reports: replay_guard admitted cn_last_sequence "\<lambda>m. identity_of (fst m)" "\<lambda>m. en_sequence (fst m)"
  channel_step
proof unfold_locales
  fix c d :: agent_channel and m :: "envelope \<times> datetime \<times> verifier" and n
  obtain e at verify where m: "m = (e, at, verify)" by (cases m)
  assume "admitted c m = Some d"
  then obtain r where r: "accept c e at verify = (d, Inr r)" using m admitted_ok by blast
  show "cn_last_sequence c (identity_of (fst m)) = Some n \<Longrightarrow> n < en_sequence (fst m)"
    using accept_sequence(1) [OF r] m by simp
  show "cn_last_sequence d (identity_of (fst m)) = Some (en_sequence (fst m))"
    using accept_sequence(2) [OF r] m by simp
next
  fix c d :: agent_channel and i n
  show "channel_step c d \<Longrightarrow> cn_last_sequence c i = Some n \<Longrightarrow> \<exists>k. cn_last_sequence d i = Some k \<and> n \<le> k"
    by (rule channel_step_sequence)
qed

interpretation channel: monotone_system channel_step channel_ok cn_consumed
  by unfold_locales (auto dest: channel_step_ok channel_step_consumed)

section \<open>Properties\<close>

text \<open>
  C8: no report is accepted twice. Once a report has been accepted, then after any calls on the
  channel -- issuing, enrolling, rotating, revoking, other reports, accepted or refused, at any
  instants and under any verifiers -- every report of the same host and key whose sequence is not
  newer is refused.
\<close>

theorem report_accepted_once:
  assumes "accept c e at verify = (d, Inr r)" and "channel_step\<^sup>*\<^sup>* d d2"
    and "identity_of e2 = identity_of e" and "en_sequence e2 \<le> en_sequence e"
  shows "\<exists>err. snd (accept d2 e2 at2 verify2) = Inl err"
proof -
  have "admitted d2 (e2, at2, verify2) = None"
    by (rule reports.no_replay [where m = "(e, at, verify)"]) (use assms in \<open>auto simp: admitted_ok\<close>)
  then show ?thesis by (auto simp: admitted_def split: prod.splits sum.splits)
qed

text \<open>
  C13: a token is redeemed once. After a token has been redeemed, whatever is called next, also when a
  token with the same id is issued again, no redemption of that id succeeds.
\<close>

theorem token_redeemed_once:
  assumes "enroll c tid k at = Inr (d, cr)" and "channel_ok c" and "channel_step\<^sup>*\<^sup>* d d2"
  shows "\<exists>err. enroll d2 tid k2 at2 = Inl err"
proof -
  have "tid \<in> cn_consumed d" using enrollD(9) [OF assms(1)] by simp
  moreover have "channel_ok d" using channel_step_ok channel_step.enrolled assms(1,2) by blast
  ultimately have "tid \<in> cn_consumed d2" using channel.reachable_mono [OF assms(3)] by auto
  then show ?thesis using enrollD(1) [of d2 tid k2 at2] by (cases "enroll d2 tid k2 at2") auto
qed

lemma channel_init_ok: "channel_init o' l = Inr c \<Longrightarrow> channel_ok c"
  by (auto simp: channel_init_def channel_ok_def split: if_splits)

text \<open>
  C14: a key speaks for one host. In every channel that any sequence of calls can lead to, a key is
  held by at most one host however often keys were rotated, every credential is filed under its own
  host and the id derived from its key, and is well formed.
\<close>

theorem key_identifies_host:
  assumes "channel_init overlap lifetime = Inr c" and "channel_step\<^sup>*\<^sup>* c d"
    and "map_of (cn_credentials d) (h1, k1) = Some cr1" and "map_of (cn_credentials d) (h2, k2) = Some cr2"
    and "hc_public_key cr1 = hc_public_key cr2"
  shows "h1 = h2 \<and> cr1 = cr2 \<and> k1 = key_id_of (hc_public_key cr1) \<and> hc_host_id cr1 = h1 \<and> credential_ok cr1"
proof -
  have ok: "channel_ok d" using channel.reachable_keeps [OF assms(2)] channel_init_ok [OF assms(1)] .
  note m1 = map_of_credential [OF ok assms(3)] and m2 = map_of_credential [OF ok assms(4)]
  have "h1 = h2" using m1(4) m2(4) assms(5) by simp
  moreover have "k1 = key_id_of (hc_public_key cr1)" "k2 = key_id_of (hc_public_key cr2)"
    using m1(2,3) m2(2,3) by (auto simp: credential_ok_def)
  ultimately show ?thesis using assms(3-5) m1(1,3) by auto
qed

end
