(* ===== verification/Channel_Reports.thy ===== *)
theory Channel_Reports
  imports Agent_Channel
begin

text \<open>
  What the channel guarantees about reports: when one is accepted, what a refused one leaves behind,
  that a revocation is final, that an envelope survives its document, and that the signed bytes
  determine everything the report says.
\<close>

section \<open>Accepting\<close>

lemma check_report_ok:
  assumes ok: "channel_ok c" and at: "dt_offset at \<noteq> None"
    and i: "fromisoformat (en_issued_at e) = Some i" "dt_offset i \<noteq> None" "in_calendar (dt_local i - max_clock_skew)"
    and x: "fromisoformat (en_expires_at e) = Some x" "dt_offset x \<noteq> None"
  shows "check_report c e at verify = Inr y \<longleftrightarrow> y = x
     \<and> (\<exists>cr. map_of (cn_credentials c) (identity_of e) = Some cr \<and> usable cr (dt_instant at)
          \<and> verify (hc_public_key cr) (signed_bytes e) (en_signature e) = Returned True)
     \<and> dt_instant i - max_clock_skew \<le> dt_instant at \<and> dt_instant at < dt_instant x
     \<and> (\<forall>n. cn_last_sequence c (identity_of e) = Some n \<longrightarrow> n < en_sequence e)"
proof -
  have stamps: "channel_timestamp (PStr (en_issued_at e)) w = Inr i" "channel_timestamp (PStr (en_expires_at e)) w = Inr x" for w
    using i x by (simp_all add: channel_timestamp_iff)
  have earliest: "dt_add i (- max_clock_skew) = Inr (i\<lparr>dt_local := dt_local i - max_clock_skew\<rparr>)"
    using i(3) by (simp add: dt_add_def)
  have shift: "dt_instant (i\<lparr>dt_local := dt_local i - max_clock_skew\<rparr>) = dt_instant i - max_clock_skew"
    by (simp add: dt_instant_def)
  have now: "channel_instant at w = Inr at" for w using at by (simp add: channel_instant_ok)
  show ?thesis
  proof (cases "map_of (cn_credentials c) (identity_of e)")
    case None
    then show ?thesis
      by (auto simp: check_report_def now bindR_Inr_iff find_credential_ok identity_of_def)
  next
    case (Some cr)
    have ids: "is_identifier (en_host_id e)" "is_identifier (en_key_id e)" "credential_ok cr"
      using map_of_credential [OF ok, of "en_host_id e" "en_key_id e" cr] Some
      by (auto simp: identity_of_def credential_ok_def)
    have f: "find_credential c (en_host_id e) (en_key_id e) w = Inr cr" for w
      using ids Some by (simp add: find_credential_ok identity_of_def)
    show ?thesis
      using Some
      by (auto simp: check_report_def now f usable_at_ok [OF ids(3)] stamps earliest shift bindR_Inr_iff
          split: if_splits verdict.splits option.splits)
  qed
qed

text \<open>
  C9: exactly which reports are accepted. At an aware instant, a report whose stamps are aware is
  accepted if and only if its host and key hold a credential that verifies at the instant, the
  verifier says yes to the report's own bytes under that credential's key, the instant is before the
  report's expiry and not more than a minute before its issue, its sequence is newer than the last
  accepted one, and its nonce is not one of an accepted report that has not expired; what is returned
  is then the report.
\<close>

theorem accept_iff:
  assumes "channel_ok c" and "dt_offset at \<noteq> None"
    and "fromisoformat (en_issued_at e) = Some i" and "dt_offset i \<noteq> None"
    and "in_calendar (dt_local i - max_clock_skew)"
    and "fromisoformat (en_expires_at e) = Some x" and "dt_offset x \<noteq> None"
  shows "snd (accept c e at verify) = Inr r \<longleftrightarrow> r = report_of e
     \<and> (\<exists>cr. map_of (cn_credentials c) (identity_of e) = Some cr \<and> usable cr (dt_instant at)
          \<and> verify (hc_public_key cr) (signed_bytes e) (en_signature e) = Returned True)
     \<and> dt_instant i - max_clock_skew \<le> dt_instant at \<and> dt_instant at < dt_instant x
     \<and> (\<forall>n. cn_last_sequence c (identity_of e) = Some n \<longrightarrow> n < en_sequence e)
     \<and> live_nonces c (identity_of e) at (en_nonce e) = None"
proof -
  note check = check_report_ok [OF assms, of verify]
  obtain d s where a: "accept c e at verify = (d, s)" by (cases "accept c e at verify")
  from a show ?thesis
  proof (cases rule: acceptD)
    case (refused err)
    then show ?thesis using a check [of x] by auto
  next
    case (repeated y)
    then show ?thesis using a by auto
  next
    case (accepted y)
    then show ?thesis using a check [of y] by auto
  qed
qed

text \<open>
  C12: a refused report changes nothing that counts. Tokens, credentials, keys and sequences stay as
  they were, and so does every nonce that has not expired; and when the verifier did not say yes to
  the report's bytes the channel is exactly as before, so a forged report cannot use up a sequence
  number or a nonce.
\<close>

theorem refused_report_harmless:
  assumes "accept c e at verify = (d, Inl err)"
  shows "d\<lparr>cn_nonces := cn_nonces c\<rparr> = c
     \<and> (\<forall>i t. dt_instant at \<le> dt_instant t \<longrightarrow> live_nonces d i t = live_nonces c i t)
     \<and> ((\<forall>cr. map_of (cn_credentials c) (identity_of e) = Some cr \<longrightarrow>
           verify (hc_public_key cr) (signed_bytes e) (en_signature e) \<noteq> Returned True) \<longrightarrow> d = c)"
  using assms
proof (cases rule: acceptD)
  case (repeated x)
  have "live_nonces d i t = live_nonces c i t" if "dt_instant at \<le> dt_instant t" for i t
    using repeated(4) that
    by (auto simp: live_nonces_def fun_eq_iff split: option.splits)
  moreover have "\<exists>cr. map_of (cn_credentials c) (identity_of e) = Some cr
      \<and> verify (hc_public_key cr) (signed_bytes e) (en_signature e) = Returned True"
    using repeated(1)
    by (auto simp: check_report_def bindR_Inr_iff find_credential_ok identity_of_def split: if_splits verdict.splits)
  ultimately show ?thesis using repeated(4) by auto
qed auto

section \<open>Revocation\<close>

text \<open>A step does not touch a revoked credential, unless a new key has the id of the old one.\<close>

lemma step_keeps_revoked:
  assumes "channel_step c d" and ok: "channel_ok c" and r: "map_of (cn_credentials c) (h, k) = Some cr"
    and "hc_status cr = C_REVOKED" and "inj_on key_id_of (dom (cn_keys d))"
  shows "map_of (cn_credentials d) (h, k) = Some cr"
proof -
  have key: "k = key_id_of (hc_public_key cr)" "hc_public_key cr \<in> dom (cn_keys c)"
    using map_of_credential [OF ok r] by (auto simp: credential_ok_def)
  have grow: "dom (cn_keys c) \<subseteq> dom (cn_keys d)"
    using channel_step_keys [OF assms(1)] by (rule map_le_implies_dom_le)
  have other: "(h', key_id_of p) \<noteq> (h, k)" if p: "cn_keys c p = None" "p \<in> dom (cn_keys d)" for h' p
  proof
    assume "(h', key_id_of p) = (h, k)"
    then have "key_id_of p = key_id_of (hc_public_key cr)" using key(1) by simp
    from inj_onD [OF assms(5) this p(2)] have "p = hc_public_key cr" using key(2) grow by blast
    then show False using p(1) key(2) by auto
  qed
  from assms(1) show ?thesis
  proof (cases rule: channel_step.cases)
    case (enrolled tid p at cr')
    note e = enrollD [OF enrolled(1)]
    have "p \<in> dom (cn_keys d)" using e(9) by simp
    from other [OF e(2) this, of "hc_host_id cr'"] show ?thesis using e(6,9) r by (auto simp: map_of_entry_set)
  next
    case (rotated host key p at new old)
    from rotated(1) show ?thesis
    proof (rule rotateD)
      fix current retires
      assume cur: "map_of (cn_credentials c) (host, key) = Some current" "hc_status current = C_ACTIVE"
        and p: "cn_keys c p = None" and new: "hc_key_id new = key_id_of p"
        and old: "old = current\<lparr>hc_status := C_RETIRING, hc_retires_at := Some retires\<rparr>"
        and d: "d = bind_key p (hc_host_id new) (store_credential new (store_credential old c))"
      have "(hc_host_id old, hc_key_id old) = (host, key)" using map_of_credential(1,2) [OF ok cur(1)] old by simp
      moreover have "(host, key) \<noteq> (h, k)" using cur r assms(4) by auto
      moreover have "(hc_host_id new, hc_key_id new) \<noteq> (h, k)" using other [OF p] d new by simp
      ultimately show ?thesis using d r by (auto simp: map_of_entry_set)
    qed
  next
    case (revoked host key at cr')
    from revoked(1) show ?thesis
    proof (rule revokeD)
      fix current
      assume cur: "map_of (cn_credentials c) (host, key) = Some current"
        and cr': "cr' = current\<lparr>hc_status := C_REVOKED, hc_retires_at := None\<rparr>" and d: "d = store_credential cr' c"
      have "(hc_host_id cr', hc_key_id cr') = (host, key)" using map_of_credential(1,2) [OF ok cur] cr' by simp
      moreover have "(host, key) \<noteq> (h, k)"
        using revoked(1) cur r assms(4) by (auto simp: revoke_def bindR_Inr_iff find_credential_ok)
      ultimately show ?thesis using d r by (auto simp: map_of_entry_set)
    qed
  next
    case (reported e at verify s)
    from reported(1) show ?thesis by (cases rule: acceptD) (use r in simp_all)
  next
    case (issued host pools at ttl tid random t)
    then show ?thesis using r issue_tokenD [OF issued] by simp
  qed
qed

text \<open>
  C10: a revocation is immediate and final. Once a credential has been revoked, then after any calls on
  the channel every report of its host and key is refused, whatever the verifier says and at every
  instant, as long as no two keys the channel has seen share a derived key id.
\<close>

theorem revocation_final:
  assumes "channel_ok c" and "revoke c host key at = Inr (d, cr)" and "channel_step\<^sup>*\<^sup>* d d2"
    and "inj_on key_id_of (dom (cn_keys d2))" and "identity_of e = (host, key)"
  shows "\<exists>err. accept d2 e at2 verify = (d2, Inl err)"
proof -
  have ok: "channel_ok d" using channel_step_ok [OF channel_step.revoked [OF assms(2)] assms(1)] .
  obtain current where cur: "map_of (cn_credentials c) (host, key) = Some current"
      and cr: "cr = current\<lparr>hc_status := C_REVOKED, hc_retires_at := None\<rparr>" and d: "d = store_credential cr c"
    using assms(2) by (rule revokeD)
  have r: "map_of (cn_credentials d) (host, key) = Some cr" "hc_status cr = C_REVOKED"
    using map_of_credential(1,2) [OF assms(1) cur] cr d by (simp_all add: map_of_entry_set)
  from assms(3,4) have "channel_ok d2 \<and> map_of (cn_credentials d2) (host, key) = Some cr"
  proof (induction rule: rtranclp_induct)
    case (step y z)
    have "inj_on key_id_of (dom (cn_keys y))"
      using step(4) map_le_implies_dom_le [OF channel_step_keys [OF step(2)]] by (rule inj_on_subset)
    then have y: "channel_ok y" "map_of (cn_credentials y) (host, key) = Some cr" using step(3) by simp_all
    then show ?case
      using step_keeps_revoked [OF step(2) y r(2) step(4)] channel_step_ok [OF step(2)] by simp
  qed (use ok r in simp)
  then have f: "find_credential d2 (en_host_id e) (en_key_id e) w = Inr cr" "credential_ok cr" for w
    using assms(5) map_of_credential [of d2 host key cr] by (auto simp: identity_of_def find_credential_ok credential_ok_def)
  have "\<exists>err. check_report d2 e at2 verify = Inl err"
    using r(2) by (cases "channel_instant at2 ''channel.accept.at''")
      (simp_all add: check_report_def f(1) usable_at_def channel_error_def raise_def)
  then show ?thesis by (auto simp: accept_def)
qed

section \<open>Envelopes and their documents\<close>

lemma fromhex_hex: "hex_pairs (hex_of bs) = Some bs"
proof (induction bs)
  case (Cons b bs)
  have "unat b < 256" using unsigned_less [of b] by simp
  then have "hex_number 0 [hex_digit (unat b div 16), hex_digit (unat b mod 16)] = Some (unat b)"
    by (simp add: hex_value_digit)
  then show ?case using Cons by (simp add: hex_of_def)
qed (simp add: hex_of_def)

lemma hex_digit_hex: "n < 16 \<Longrightarrow> is_hex (hex_digit n)"
  by (auto simp: is_hex_def hex_digit_def is_digit_def code_def)

lemma hex_of_hex: "list_all is_hex (hex_of bs)"
proof (induction bs)
  case (Cons b bs)
  have "unat b < 256" using unsigned_less [of b] by simp
  then show ?case using Cons by (simp add: hex_of_def hex_digit_hex)
qed (simp add: hex_of_def)

lemma hex_of_text: "bs \<noteq> [] \<Longrightarrow> is_hex_text (hex_of bs)"
  using hex_of_hex [of bs] by (cases bs) (auto simp: is_hex_text_def dollar_def hex_body_def hex_of_def)

lemma key_id_of_identifier: "is_identifier (key_id_of k)"
proof -
  have "list_all is_hex (take 16 (hexdigest k))"
    using hex_of_hex [of "sha256 k"] by (auto simp: hexdigest_def list_all_iff dest: in_set_takeD)
  then show ?thesis
    by (auto simp: key_id_of_def is_identifier_def dollar_def identifier_body_def id_char_def is_lower_def is_digit_def
        code_def list_all_iff is_hex_def)
qed

lemma check_sequence_ok: "check_sequence v w = Inr n \<longleftrightarrow> v = PInt n \<and> 1 \<le> n \<and> n \<le> max_sequence"
  by (cases v) (auto simp: check_sequence_def)

lemma check_nonce_ok: "check_nonce v = Inr n \<longleftrightarrow> v = PStr n \<and> is_nonce n"
  by (cases v) (auto simp: check_nonce_def Let_def)

lemma canonical_body_ok: "canonical_body cls m v w = Inr t \<longleftrightarrow>
    (\<exists>d. v = PDict d) \<and> encodable v \<and> length (utf8 (json_text False v)) \<le> m \<and> t = json_text False v"
  by (cases v) (auto simp: canonical_body_def)

lemma check_body_text_ok: "check_body_text body = Inr u \<longleftrightarrow>
    body \<noteq> [] \<and> (\<exists>v. loads body = Some v \<and> (\<forall>w. body_json v w = Inr body))"
  by (auto simp: check_body_text_def body_json_def canonical_body_ok mapErr_Inr_iff bindR_Inr_iff split: option.splits)

text \<open>What an envelope that was constructed satisfies.\<close>

definition envelope_ok :: "envelope \<Rightarrow> bool" where
  "envelope_ok e \<longleftrightarrow>
     is_identifier (en_host_id e) \<and> is_identifier (en_key_id e)
     \<and> 1 \<le> en_sequence e \<and> en_sequence e \<le> max_sequence \<and> is_nonce (en_nonce e)
     \<and> (\<exists>i x. chan_us (en_issued_at e) = Some i \<and> chan_us (en_expires_at e) = Some x
          \<and> i < x \<and> x - i \<le> max_message_lifetime)
     \<and> check_body_text (en_body_json e) = Inr () \<and> length (en_signature e) = signature_size"

lemma stamps_iff:
  "(\<exists>a. channel_timestamp (PStr s) v = Inr a \<and> (\<exists>b. channel_timestamp (PStr t) w = Inr b \<and> P (dt_instant a) (dt_instant b)))
    \<longleftrightarrow> (\<exists>i x. chan_us s = Some i \<and> chan_us t = Some x \<and> P i x)"
  by (auto simp: channel_timestamp_iff chan_us_iff)

lemma envelope_make_ok:
  "envelope_make (PStr h) (PStr k) (PInt n) (PStr x) (PStr i) (PStr t) body sig = Inr e \<longleftrightarrow>
     e = \<lparr>en_host_id = h, en_key_id = k, en_sequence = n, en_nonce = x, en_issued_at = i, en_expires_at = t,
          en_body_json = body, en_signature = sig\<rparr> \<and> envelope_ok e"
  using stamps_iff [of i "''envelope.issued_at''" t "''envelope.expires_at''" "\<lambda>a b. a < b \<and> b - a \<le> max_message_lifetime"]
  by (auto simp: envelope_make_def envelope_ok_def bindR_Inr_iff channel_identifier_ok check_sequence_ok check_nonce_ok
      run_checks_ok string_value_def)

lemma envelope_okD:
  assumes "envelope_ok e"
  shows "length (en_signature e) = 64" and "1 \<le> en_sequence e" and "en_sequence e \<le> max_sequence"
    and "loads (en_body_json e) = Some (body_value (en_body_json e))"
    and "body_json (body_value (en_body_json e)) w = Inr (en_body_json e)"
    and "json_text False (body_value (en_body_json e)) = en_body_json e"
proof -
  obtain v where v: "loads (en_body_json e) = Some v" "\<And>w. body_json v w = Inr (en_body_json e)"
    using assms by (auto simp: envelope_ok_def check_body_text_ok)
  then have "body_value (en_body_json e) = v" by (simp add: body_value_def)
  then show "loads (en_body_json e) = Some (body_value (en_body_json e))"
      "body_json (body_value (en_body_json e)) w = Inr (en_body_json e)"
      "json_text False (body_value (en_body_json e)) = en_body_json e"
    using v v(2) [of w] by (simp_all add: body_json_def canonical_body_ok)
qed (use assms in \<open>simp_all add: envelope_ok_def signature_size_def\<close>)

text \<open>
  C15: an envelope survives its document. Reading back the document of a well-formed envelope gives
  the envelope, and every envelope that can be constructed or read is well formed.
\<close>

theorem envelope_document_round_trip:
  assumes "envelope_ok e"
  shows "envelope_from_document (envelope_to_document e) w = Inr e"
proof -
  have sig: "check_signature_text (PStr (hex_of (en_signature e))) w = Inr (en_signature e)"
  proof -
    have "en_signature e \<noteq> []" using envelope_okD(1) [OF assms] by auto
    then show ?thesis by (simp add: hex_of_text check_signature_text_def Let_def fromhex_def fromhex_hex)
  qed
  have make: "envelope_make (PStr (en_host_id e)) (PStr (en_key_id e)) (PInt (en_sequence e)) (PStr (en_nonce e))
      (PStr (en_issued_at e)) (PStr (en_expires_at e)) (en_body_json e) (en_signature e) = Inr e"
    using assms by (simp add: envelope_make_ok)
  show ?thesis
    by (simp add: envelope_from_document_def envelope_to_document_def envelope_fields_def py_get_def sig
        envelope_okD(5) [OF assms] make)
qed

section \<open>What a signature covers\<close>

lemma utf8_cons: "utf8 (c # s) = utf8_char c @ utf8 s"
  by (simp add: utf8_def)

text \<open>The encoding of one character can be read off the front of a text.\<close>

lemma utf8_char_prefix: "utf8_char c @ s = utf8_char d @ t \<Longrightarrow> c = d \<and> s = t"
proof -
  assume a: "utf8_char c @ s = utf8_char d @ t"
  have lt: "code c < 256" "code d < 256" by (simp_all add: code_lt)
  have byte: "(of_nat m :: 8 word) = of_nat n \<longleftrightarrow> m = n" if "m < 256" "n < 256" for m n
    using that by (simp add: word_of_nat_eq_iff take_bit_nat_eq_self)
  have "code c = code d \<and> s = t"
  proof (cases "code c < 128"; cases "code d < 128")
    assume "\<not> code c < 128" "\<not> code d < 128"
    then have "192 + code c div 64 = 192 + code d div 64" "128 + code c mod 64 = 128 + code d mod 64" "s = t"
      using a lt byte [of "192 + code c div 64" "192 + code d div 64"] byte [of "128 + code c mod 64" "128 + code d mod 64"]
      by (simp_all add: utf8_char_def del: of_nat_add)
    moreover have "code c = 64 * (code c div 64) + code c mod 64" "code d = 64 * (code d div 64) + code d mod 64" by simp_all
    ultimately show ?thesis by simp
  next
    assume "code c < 128" "code d < 128"
    then show ?thesis using a lt byte [of "code c" "code d"] by (simp add: utf8_char_def)
  next
    assume "code c < 128" "\<not> code d < 128"
    then show ?thesis using a lt byte [of "code c" "192 + code d div 64"] by (simp add: utf8_char_def del: of_nat_add)
  next
    assume "\<not> code c < 128" "code d < 128"
    then show ?thesis using a lt byte [of "192 + code c div 64" "code d"] by (simp add: utf8_char_def del: of_nat_add)
  qed
  then show ?thesis by (simp add: code_eq_iff)
qed

lemma utf8_nonempty: "utf8_char c \<noteq> []"
  by (simp add: utf8_char_def)

lemma utf8_inj: "utf8 s = utf8 t \<Longrightarrow> s = t"
proof (induction s arbitrary: t)
  case Nil
  then show ?case by (cases t) (simp_all add: utf8_cons utf8_nonempty utf8_def)
next
  case (Cons c s)
  then obtain d t' where t: "t = d # t'"
    using utf8_nonempty [of c] by (cases t) (auto simp: utf8_cons utf8_def)
  from Cons(2) have "c = d \<and> utf8 s = utf8 t'" unfolding t utf8_cons by (rule utf8_char_prefix)
  then show ?case using Cons(1) t by simp
qed

lemma canon_text: "value_ok v \<Longrightarrow> value_ok w \<Longrightarrow> json_text False v = json_text False w \<Longrightarrow> canon v = canon w"
  using loads_text [of v False] loads_text [of w False] by simp

lemma signed_document_ok:
  assumes "envelope_ok e" and "value_ok (body_value (en_body_json e))"
  shows "value_ok (signed_document e)"
proof -
  have "nat \<bar>en_sequence e\<bar> < 10 ^ Suc 18" using envelope_okD(2,3) [OF assms(1)] by (simp add: max_sequence_def)
  from nat_str_length [OF this] have "length (nat_str (nat \<bar>en_sequence e\<bar>)) \<le> max_str_digits"
    by (simp add: max_str_digits_def)
  then show ?thesis using assms(2) by (simp add: signed_document_def)
qed

text \<open>
  C11: a signature covers everything a report says. Two well-formed envelopes with the same signed bytes
  agree on host, key, sequence, nonce, both stamps and body, so a signature for one report is never a
  signature for another; the hypotheses on the bodies say that their floats are written the way they
  read back.
\<close>

theorem signed_bytes_determine:
  assumes "envelope_ok e1" and "envelope_ok e2"
    and "value_ok (body_value (en_body_json e1))" and "value_ok (body_value (en_body_json e2))"
    and "signed_bytes e1 = signed_bytes e2"
  shows "e2 = e1\<lparr>en_signature := en_signature e2\<rparr>"
proof -
  have "canon (signed_document e1) = canon (signed_document e2)"
    by (rule canon_text) (use assms utf8_inj signed_document_ok in \<open>auto simp: signed_bytes_def\<close>)
  then have f: "en_host_id e1 = en_host_id e2" "en_key_id e1 = en_key_id e2" "en_sequence e1 = en_sequence e2"
      "en_nonce e1 = en_nonce e2" "en_issued_at e1 = en_issued_at e2" "en_expires_at e1 = en_expires_at e2"
      "canon (body_value (en_body_json e1)) = canon (body_value (en_body_json e2))"
    by (simp_all add: signed_document_def)
  have "en_body_json e1 = en_body_json e2"
    using arg_cong [OF f(7), of "json_text False"] envelope_okD(6) assms(1,2) by (simp add: text_canon)
  then show ?thesis using f by (cases e1; cases e2) simp
qed

end
