(* ===== verification/Channel_Example.thy ===== *)
theory Channel_Example
  imports Fleet_Example Channel_Reports
begin

text \<open>One host enrolled on a channel, one report of it, and the instances of the channel's properties.\<close>

definition key0 :: bytes where
  "key0 = replicate 32 0"

definition kid0 :: string where
  "kid0 = key_id_of key0"

definition ch_new :: agent_channel where
  "ch_new = \<lparr>cn_rotation_overlap = rotation_overlap, cn_credential_lifetime = default_credential_lifetime,
     cn_tokens = Map.empty, cn_consumed = {}, cn_credentials = [], cn_keys = Map.empty,
     cn_last_sequence = Map.empty, cn_nonces = Map.empty\<rparr>"

definition token0 :: enrollment_token where
  "token0 = \<lparr>et_host_id = ''h1'', et_pools = [''p1''], et_issued_at = zulu noon,
     et_expires_at = zulu (noon + seconds 60), et_token_id = ''tok''\<rparr>"

definition ch_tok :: agent_channel where
  "ch_tok = ch_new\<lparr>cn_tokens := [''tok'' \<mapsto> token0]\<rparr>"

definition cred0 :: host_credential where
  "cred0 = \<lparr>hc_host_id = ''h1'', hc_key_id = kid0, hc_public_key = key0, hc_issued_at = zulu noon,
     hc_not_after = zulu (noon + default_credential_lifetime), hc_generation = 1, hc_status = C_ACTIVE,
     hc_retires_at = None\<rparr>"

definition ch_on :: agent_channel where
  "ch_on = ch_new\<lparr>cn_consumed := {''tok''}, cn_credentials := [((''h1'', kid0), cred0)], cn_keys := [key0 \<mapsto> ''h1'']\<rparr>"

definition revoked0 :: host_credential where
  "revoked0 = cred0\<lparr>hc_status := C_REVOKED\<rparr>"

definition ch_off :: agent_channel where
  "ch_off = ch_on\<lparr>cn_credentials := [((''h1'', kid0), revoked0)]\<rparr>"

definition report0 :: envelope where
  "report0 = \<lparr>en_host_id = ''h1'', en_key_id = kid0, en_sequence = 1, en_nonce = ''nonce-01'',
     en_issued_at = zulu noon, en_expires_at = zulu (noon + seconds 60), en_body_json = ''{}'',
     en_signature = replicate 64 0\<rparr>"

definition answers :: "verdict \<Rightarrow> verifier" where
  "answers v = (\<lambda>k m s. v)"

section \<open>The flow, step by step\<close>

lemma soon [simp]: "in_calendar noon" "in_calendar (noon + seconds 60)" "in_calendar (noon - max_clock_skew)"
    "in_calendar (noon + default_credential_lifetime)"
  by (simp_all add: in_calendar_def max_us_def noon_def max_ordinal_def day_us_def second_us_def
      max_clock_skew_def seconds_def default_credential_lifetime_def)

lemma utc_fields [simp]: "dt_local (utc t) = t" "dt_instant (utc t) = t" "dt_offset (utc t) \<noteq> None"
  by (simp_all add: utc_def dt_instant_def)

lemma zulu_reads: "in_calendar t \<Longrightarrow> fromisoformat (zulu t) = Some (utc t)"
  by (simp add: zulu_def fromisoformat_zulu)

lemma enrolled_ids [simp]: "is_identifier kid0" "length key0 = 32" "is_identifier ''h1''" "is_identifier ''p1''"
  using key_id_of_identifier [of key0] by (simp_all only: kid0_def) (simp_all add: key0_def is_identifier_def char_simps)

lemma demo_stamps [simp]: "chan_us (zulu noon) = Some noon" "chan_us (zulu (noon + seconds 60)) = Some (noon + seconds 60)"
    "chan_us (zulu (noon + default_credential_lifetime)) = Some (noon + default_credential_lifetime)"
    "channel_timestamp (PStr (zulu noon)) w = Inr (utc noon)"
    "channel_timestamp (PStr (zulu (noon + seconds 60))) w = Inr (utc (noon + seconds 60))"
    "channel_stamp (utc noon) = Inr (zulu noon)"
  by (simp_all add: chan_us_zulu channel_timestamp_zulu channel_stamp_ok)

lemma demo_spans [simp]: "0 < seconds 60" "\<not> seconds 60 < 0" "seconds 60 \<le> max_token_lifetime" "seconds 60 \<le> max_message_lifetime"
    "0 < default_credential_lifetime" "0 < rotation_overlap" "0 \<le> default_credential_lifetime" "0 \<le> max_clock_skew"
  by (simp_all add: seconds_def second_us_def max_token_lifetime_def max_message_lifetime_def
      default_credential_lifetime_def day_us_def rotation_overlap_def max_clock_skew_def)

lemma demo_later: "in_calendar (noon + k) \<Longrightarrow> bindR (dt_add (utc noon) k) channel_stamp = Inr (zulu (noon + k))"
  by (simp add: dt_add_def channel_stamp_ok dt_instant_def) (simp add: utc_def)

lemma demo_credential: "credential_ok cred0" "credential_ok revoked0"
  by (simp_all add: credential_ok_def cred0_def revoked0_def kid0_def)
    (simp_all flip: kid0_def)

lemma demo_init: "channel_init rotation_overlap default_credential_lifetime = Inr ch_new"
  by (simp add: channel_init_def ch_new_def not_le)

lemma demo_issue: "issue_token ch_new (PStr ''h1'') [''p1''] (utc noon) (seconds 60) (Some ''tok'') [] = Inr (ch_tok, token0)"
  by (simp add: issue_token_def channel_instant_def channel_identifier_def demo_later token_make_def check_token_pools_def)
    (simp add: ch_tok_def token0_def ch_new_def)

lemma demo_enroll: "enroll ch_tok ''tok'' key0 (utc noon) = Inr (ch_on, cred0)"
proof -
  have "new_credential ch_tok ''h1'' key0 (utc noon) 1 = Inr cred0"
    using demo_credential(1)
    by (simp add: new_credential_def key_id_for_def check_public_key_def public_key_size_def ch_tok_def ch_new_def
        demo_later credential_make_ok) (simp add: cred0_def kid0_def)
  then show ?thesis
    by (simp add: enroll_def channel_instant_def check_public_key_def public_key_size_def ch_tok_def token0_def
        token_expired_def fresh_key_def ch_new_def bind_key_def store_credential_def entry_set_def)
      (simp add: ch_on_def ch_new_def cred0_def)
qed

lemma demo_steps: "channel_step ch_new ch_tok" "channel_step ch_tok ch_on"
  by (rule channel_step.issued [OF demo_issue]) (rule channel_step.enrolled [OF demo_enroll])

lemma demo_channel: "channel_ok ch_new" "channel_ok ch_tok" "channel_ok ch_on"
  using channel_init_ok [OF demo_init] channel_step_ok demo_steps by auto

lemma demo_lookup: "map_of (cn_credentials ch_on) (identity_of report0) = Some cred0"
  by (simp add: ch_on_def identity_of_def report0_def)

lemma demo_body: "loads ''{}'' = Some (PDict [])" "body_value ''{}'' = PDict []"
  using loads_text [of "PDict []" False] by (simp_all add: body_value_def)

lemma demo_report: "envelope_ok report0"
proof -
  have "check_body_text ''{}'' = Inr ()"
    by (simp add: check_body_text_def demo_body body_json_def canonical_body_def utf8_def utf8_char_def max_body_bytes_def)
  then show ?thesis
    by (simp add: envelope_ok_def report0_def max_sequence_def is_nonce_def nonce_body_def char_simps signature_size_def)
qed

lemma demo_stamps_read: "fromisoformat (en_issued_at report0) = Some (utc noon)"
    "fromisoformat (en_expires_at report0) = Some (utc (noon + seconds 60))"
  by (simp_all add: report0_def zulu_reads)

lemma demo_usable: "usable cred0 noon"
  by (simp add: usable_def cred0_def)

lemmas demo_check = check_report_ok [OF demo_channel(3) utc_fields(3) demo_stamps_read(1) utc_fields(3) _
  demo_stamps_read(2) utc_fields(3)]

lemma demo_fresh: "live_nonces ch_on i at = Map.empty" "cn_last_sequence ch_on = Map.empty"
  by (simp_all add: live_nonces_def ch_on_def ch_new_def fun_eq_iff)

lemma demo_checked: "check_report ch_on report0 (utc noon) (answers v) = Inr y \<longleftrightarrow>
    y = utc (noon + seconds 60) \<and> v = Returned True"
  using demo_lookup demo_usable by (auto simp: demo_check demo_fresh answers_def)

section \<open>The instances\<close>

lemma demo_accept: "\<exists>d. accept ch_on report0 (utc noon) (answers (Returned True)) = (d, Inr (report_of report0))"
proof -
  have "check_report ch_on report0 (utc noon) (answers (Returned True)) = Inr (utc (noon + seconds 60))"
    by (simp add: demo_checked)
  then show ?thesis by (simp add: accept_def Let_def demo_fresh)
qed

theorem accept_iff_witness:
  "snd (accept ch_on report0 (utc noon) (answers (Returned True))) = Inr (report_of report0)
   \<and> snd (accept ch_on report0 (utc noon) (answers (Returned False))) \<noteq> Inr (report_of report0)"
  using demo_lookup demo_usable
  by (simp add: accept_iff [OF demo_channel(3) utc_fields(3) demo_stamps_read(1) utc_fields(3) _
        demo_stamps_read(2) utc_fields(3)] demo_fresh answers_def)

theorem refused_report_harmless_witness:
  "\<exists>err. accept ch_on report0 (utc noon) (answers (Returned False)) = (ch_on, Inl err)"
proof -
  obtain err where r: "check_report ch_on report0 (utc noon) (answers (Returned False)) = Inl err"
    using demo_checked [of "Returned False"]
    by (cases "check_report ch_on report0 (utc noon) (answers (Returned False))") auto
  then obtain d where d: "accept ch_on report0 (utc noon) (answers (Returned False)) = (d, Inl err)"
    by (simp add: accept_def)
  then have "d = ch_on" using refused_report_harmless [OF d] by (simp add: answers_def)
  then show ?thesis using d by blast
qed

theorem report_accepted_once_witness:
  "\<exists>d err. accept ch_on report0 (utc noon) (answers (Returned True)) = (d, Inr (report_of report0))
     \<and> snd (accept d report0 (utc noon) (answers (Returned True))) = Inl err"
proof -
  obtain d where d: "accept ch_on report0 (utc noon) (answers (Returned True)) = (d, Inr (report_of report0))"
    using demo_accept by blast
  from report_accepted_once [OF d rtranclp.rtrancl_refl refl order.refl] d show ?thesis by blast
qed

theorem token_redeemed_once_witness:
  "\<exists>err. enroll ch_tok ''tok'' key0 (utc noon) = Inr (ch_on, cred0) \<and> enroll ch_on ''tok'' key0 (utc noon) = Inl err"
  using token_redeemed_once [OF demo_enroll demo_channel(2) rtranclp.rtrancl_refl] demo_enroll by blast

theorem key_identifies_host_witness:
  "channel_step\<^sup>*\<^sup>* ch_new ch_on \<and> map_of (cn_credentials ch_on) (''h1'', kid0) = Some cred0 \<and> hc_host_id cred0 = ''h1''"
proof -
  have s: "channel_step\<^sup>*\<^sup>* ch_new ch_on" using demo_steps by (meson converse_rtranclp_into_rtranclp r_into_rtranclp)
  have l: "map_of (cn_credentials ch_on) (''h1'', kid0) = Some cred0" by (simp add: ch_on_def)
  from key_identifies_host [OF demo_init s l l refl] s l show ?thesis by simp
qed

theorem revocation_final_witness:
  "\<exists>err. revoke ch_on ''h1'' kid0 (utc noon) = Inr (ch_off, revoked0)
     \<and> accept ch_off report0 (utc noon) (answers (Returned True)) = (ch_off, Inl err)"
proof -
  have "find_credential ch_on ''h1'' kid0 w = Inr cred0" for w by (simp add: find_credential_ok ch_on_def)
  moreover have "cred0\<lparr>hc_status := C_REVOKED, hc_retires_at := None\<rparr> = revoked0" by (simp add: revoked0_def cred0_def)
  moreover have "credential_make revoked0 = Inr revoked0" using demo_credential(2) by (simp add: credential_make_ok)
  moreover have "not_before_issue cred0 (utc noon) w = Inr ()" for w by (simp add: not_before_issue_def cred0_def)
  moreover have "hc_status cred0 = C_ACTIVE" "store_credential revoked0 ch_on = ch_off"
    by (simp_all add: cred0_def revoked0_def store_credential_def entry_set_def ch_on_def ch_off_def)
  ultimately have r: "revoke ch_on ''h1'' kid0 (utc noon) = Inr (ch_off, revoked0)"
    by (simp add: revoke_def channel_instant_def)
  have "inj_on key_id_of (dom (cn_keys ch_off))" by (simp add: ch_off_def ch_on_def ch_new_def)
  from revocation_final [OF demo_channel(3) r rtranclp.rtrancl_refl this] r show ?thesis
    by (simp add: identity_of_def report0_def)
qed

theorem envelope_document_round_trip_witness:
  "envelope_from_document (envelope_to_document report0) ''wire'' = Inr report0"
  by (rule envelope_document_round_trip [OF demo_report])

theorem signed_bytes_determine_witness:
  "signed_bytes report0 \<noteq> signed_bytes (report0\<lparr>en_sequence := 2\<rparr>)"
proof
  assume s: "signed_bytes report0 = signed_bytes (report0\<lparr>en_sequence := 2\<rparr>)"
  have "envelope_ok (report0\<lparr>en_sequence := 2\<rparr>)" using demo_report by (simp add: envelope_ok_def max_sequence_def)
  moreover have "value_ok (body_value (en_body_json report0))" "value_ok (body_value (en_body_json (report0\<lparr>en_sequence := 2\<rparr>)))"
    by (simp_all add: report0_def demo_body)
  ultimately have "report0\<lparr>en_sequence := 2\<rparr> = report0\<lparr>en_signature := en_signature (report0\<lparr>en_sequence := 2\<rparr>)\<rparr>"
    using signed_bytes_determine [OF demo_report _ _ _ s] by blast
  then have "en_sequence (report0\<lparr>en_sequence := 2\<rparr>) = en_sequence report0" by (metis envelope.select_convs(3) envelope.surjective envelope.update_convs(8))
  then show False by (simp add: report0_def)
qed

end
