(* ===== verification/Py_Schema.thy ===== *)
theory Py_Schema
  imports Py_Loads Py_Datetime
begin

text \<open>
  The JSON-Schema checker of the core, \<open>hub/coherence/schemacheck.py\<close>, and what it uses of Python:
  \<open>==\<close> and \<open>repr\<close> on JSON values and \<open>re.fullmatch\<close> on the patterns schemas are written in, which are
  sequences of characters and character classes with a repetition. A schema is the value of its JSON
  text. A keyword whose value has another shape than the keyword has is a \<open>TypeError\<close>.
\<close>

section \<open>Equality and order of values\<close>

text \<open>The number a value is, as a ratio; a float is the double its \<open>repr\<close> reads back as.\<close>

definition float_ratio :: "string \<Rightarrow> (int \<times> nat) option" where
  "float_ratio s =
     (let (neg, body) = (if s \<noteq> [] \<and> hd s = CHR ''-'' then (True, tl s) else (False, s)) in
      case number_whole body of
        None \<Rightarrow> None
      | Some (whole, r) \<Rightarrow>
          let (fraction, r2) = number_fraction r; (x, r3) = number_exponent r2;
              (p, q) = decimal_ratio (num_of (whole @ fraction)) ((case x of None \<Rightarrow> 0 | Some e \<Rightarrow> e) - int (length fraction))
          in map_option (\<lambda>d. case double_ratio d of (a, b) \<Rightarrow> (if neg then - int a else int a, b)) (nearest_double p q))"

fun number_of :: "pyval \<Rightarrow> (int \<times> nat) option" where
  "number_of (PBool b) = Some (if b then 1 else 0, 1)"
| "number_of (PInt i) = Some (i, 1)"
| "number_of (PFloat s) = float_ratio s"
| "number_of v = None"

definition same_number :: "int \<times> nat \<Rightarrow> int \<times> nat \<Rightarrow> bool" where
  "same_number x y \<longleftrightarrow> fst x * int (snd y) = fst y * int (snd x)"

definition smaller_number :: "int \<times> nat \<Rightarrow> int \<times> nat \<Rightarrow> bool" where
  "smaller_number x y \<longleftrightarrow> fst x * int (snd y) < fst y * int (snd x)"

text \<open>
  \<open>v is w or v == w\<close>, by which \<open>in\<close> and the equality of lists and dictionaries compare elements: \<open>True\<close> is
  \<open>1\<close> and \<open>1.0\<close>, and the one \<open>NaN\<close> that \<open>json.loads\<close> gives is itself.
\<close>

fun py_same :: "pyval \<Rightarrow> pyval \<Rightarrow> bool" where
  "py_same (PList xs) w = (case w of PList ys \<Rightarrow> list_all2 py_same xs ys | _ \<Rightarrow> False)"
| "py_same (PDict d) w =
     (case w of
        PDict e \<Rightarrow> length d = length e
          \<and> list_all (\<lambda>kv. case map_of e (fst kv) of None \<Rightarrow> False | Some u \<Rightarrow> py_same (snd kv) u) d
      | _ \<Rightarrow> False)"
| "py_same PNone w = (w = PNone)"
| "py_same (PStr s) w = (w = PStr s)"
| "py_same (PInf b) w = (w = PInf b)"
| "py_same PNaN w = (w = PNaN)"
| "py_same v w = (case (number_of v, number_of w) of (Some x, Some y) \<Rightarrow> same_number x y | _ \<Rightarrow> False)"

text \<open>\<open>v == w\<close>: a \<open>NaN\<close> equals nothing.\<close>

fun py_eq :: "pyval \<Rightarrow> pyval \<Rightarrow> bool" where
  "py_eq PNaN w = False"
| "py_eq v w = py_same v w"

fun type_name :: "pyval \<Rightarrow> string" where
  "type_name PNone = ''NoneType''"
| "type_name (PBool b) = ''bool''"
| "type_name (PInt i) = ''int''"
| "type_name (PFloat s) = ''float''"
| "type_name (PInf b) = ''float''"
| "type_name PNaN = ''float''"
| "type_name (PStr s) = ''str''"
| "type_name (PList vs) = ''list''"
| "type_name (PDict d) = ''dict''"

text \<open>\<open>v < w\<close> of two numbers.\<close>

definition is_number :: "pyval \<Rightarrow> bool" where
  "is_number v \<longleftrightarrow> type_name v = ''int'' \<or> type_name v = ''float'' \<or> type_name v = ''bool''"

fun py_less :: "pyval \<Rightarrow> pyval \<Rightarrow> bool" where
  "py_less (PInf b) w = (b \<and> w \<noteq> PInf True \<and> w \<noteq> PNaN)"
| "py_less PNaN w = False"
| "py_less v (PInf b) = (\<not> b)"
| "py_less v w = (case (number_of v, number_of w) of (Some x, Some y) \<Rightarrow> smaller_number x y | _ \<Rightarrow> False)"

text \<open>
  \<open>repr(v)\<close>, which is also \<open>str(v)\<close> of a number. An integer of more than 4300 digits raises, and so does a
  value that nests deeper than the stack that is left.
\<close>

definition int_repr :: "int \<Rightarrow> string res" where
  "int_repr i =
     (if max_str_digits < length (nat_str (nat \<bar>i\<bar>))
      then raise PyValueError ''Exceeds the limit (4300 digits) for integer string conversion''
      else Inr (int_str i))"

definition repr_too_deep :: "'a res" where
  "repr_too_deep = raise PyRecursionError ''maximum recursion depth exceeded while getting the repr of an object''"

fun value_repr :: "nat \<Rightarrow> pyval \<Rightarrow> string res" where
  "value_repr n PNone = Inr ''None''"
| "value_repr n (PBool b) = Inr (if b then ''True'' else ''False'')"
| "value_repr n (PInt i) = int_repr i"
| "value_repr n (PFloat s) = Inr s"
| "value_repr n (PInf b) = Inr (if b then ''-inf'' else ''inf'')"
| "value_repr n PNaN = Inr ''nan''"
| "value_repr n (PStr s) = Inr (py_repr s)"
| "value_repr 0 (PList vs) = repr_too_deep"
| "value_repr (Suc n) (PList vs) = bindR (mapR (value_repr n) vs) (\<lambda>ts. Inr (''['' @ join '', '' ts @ '']''))"
| "value_repr 0 (PDict kvs) = repr_too_deep"
| "value_repr (Suc n) (PDict kvs) =
     bindR (mapR (value_repr n) (map snd kvs)) (\<lambda>ts.
       Inr (''{'' @ join '', '' (map (\<lambda>(k, t). py_repr k @ '': '' @ t) (zip (map fst kvs) ts)) @ ''}''))"

section \<open>Patterns\<close>

text \<open>One item of a pattern: the ranges of its class and how often it occurs.\<close>

datatype pattern_item = Item (item_class: "(char \<times> char) list") (item_least: nat) (item_most: "nat option")

definition in_class :: "(char \<times> char) list \<Rightarrow> char \<Rightarrow> bool" where
  "in_class cs c \<longleftrightarrow> list_ex (\<lambda>(a, b). code a \<le> code c \<and> code c \<le> code b) cs"

text \<open>The ranges up to the closing bracket; a dash just before it is a dash.\<close>

fun read_class :: "string \<Rightarrow> ((char \<times> char) list \<times> string) option" where
  "read_class [] = None"
| "read_class (c # r) =
     (if c = CHR '']'' then Some ([], r)
      else if c = backslash then None
      else case r of
        d # e # r2 \<Rightarrow>
          if d = CHR ''-'' \<and> e \<noteq> CHR '']''
          then map_option (\<lambda>(cs, t). ((c, e) # cs, t)) (read_class r2)
          else map_option (\<lambda>(cs, t). ((c, c) # cs, t)) (read_class r)
      | _ \<Rightarrow> map_option (\<lambda>(cs, t). ((c, c) # cs, t)) (read_class r))"

definition read_count :: "string \<Rightarrow> (nat \<times> string) option" where
  "read_count s =
     (let ds = takeWhile is_digit s in if ds = [] then None else Some (num_of ds, dropWhile is_digit s))"

text \<open>\<^verbatim>\<open>{m}\<close>, \<^verbatim>\<open>{m,n}\<close>, \<^verbatim>\<open>+\<close>, \<^verbatim>\<open>*\<close>, \<^verbatim>\<open>?\<close> or nothing.\<close>

definition read_repeat :: "string \<Rightarrow> (nat \<times> nat option \<times> string) option" where
  "read_repeat s =
     (case s of
        c # r \<Rightarrow>
          if c = CHR ''+'' then Some (1, None, r)
          else if c = CHR ''*'' then Some (0, None, r)
          else if c = CHR ''?'' then Some (0, Some 1, r)
          else if c = CHR ''{''
          then (case read_count r of
                  None \<Rightarrow> None
                | Some (m, t) \<Rightarrow>
                    if opens (CHR ''}'') t then Some (m, Some m, tl t)
                    else if opens (CHR '','') t
                    then (case read_count (tl t) of
                            None \<Rightarrow> None
                          | Some (n, u) \<Rightarrow> if opens (CHR ''}'') u then Some (m, Some n, tl u) else None)
                    else None)
          else Some (1, Some 1, s)
      | [] \<Rightarrow> Some (1, Some 1, s))"

text \<open>The characters that mean something else outside a class.\<close>

definition special :: "char \<Rightarrow> bool" where
  "special c \<longleftrightarrow> c \<in> set ''.^$*+?{}[]|()'' \<or> c = backslash"

text \<open>Reading a pattern takes at most one step per character.\<close>

fun read_items :: "nat \<Rightarrow> string \<Rightarrow> pattern_item list option" where
  "read_items n [] = Some []"
| "read_items 0 (c # r) = None"
| "read_items (Suc n) (c # r) =
     (if c = CHR ''$'' \<and> r = [] then Some []
      else case (if c = CHR ''['' then if opens (CHR ''^'') r then None else read_class r else if special c then None else Some ([(c, c)], r)) of
        None \<Rightarrow> None
      | Some (cs, t) \<Rightarrow>
          (case read_repeat t of
             None \<Rightarrow> None
           | Some (lo, hi, u) \<Rightarrow> map_option (\<lambda>items. Item cs lo hi # items) (read_items n u)))"

definition read_pattern :: "string \<Rightarrow> pattern_item list option" where
  "read_pattern p = (let body = (if opens (CHR ''^'') p then tl p else p) in read_items (length p) body)"

text \<open>A text matches when it can be cut into one run per item.\<close>

fun matches_items :: "pattern_item list \<Rightarrow> string \<Rightarrow> bool" where
  "matches_items [] s \<longleftrightarrow> s = []"
| "matches_items (Item cs lo hi # items) s \<longleftrightarrow>
     list_ex (\<lambda>k. lo \<le> k \<and> (case hi of None \<Rightarrow> True | Some h \<Rightarrow> k \<le> h)
        \<and> list_all (in_class cs) (take k s) \<and> matches_items items (drop k s)) [0..<Suc (length s)]"

definition fullmatch :: "string \<Rightarrow> string \<Rightarrow> bool res" where
  "fullmatch p s =
     (case read_pattern p of
        None \<Rightarrow> raise PyValueError (''pattern '' @ p)
      | Some items \<Rightarrow> Inr (matches_items items s))"

section \<open>The checker\<close>

definition keyword :: "pyval \<Rightarrow> string \<Rightarrow> pyval option" where
  "keyword schema k = (case schema of PDict d \<Rightarrow> map_of d k | _ \<Rightarrow> None)"

definition schema_shape :: "'a res" where
  "schema_shape = raise PyTypeError ''schema''"

definition valid_date_time :: "string \<Rightarrow> bool" where
  "valid_date_time s =
     (case fromisoformat (replace_all ''Z'' ''+00:00'' s) of None \<Rightarrow> False | Some d \<Rightarrow> dt_offset d \<noteq> None)"

definition is_type :: "pyval \<Rightarrow> string \<Rightarrow> bool res" where
  "is_type v t =
     (if t = ''integer'' then Inr (type_name v = ''int'')
      else if t = ''boolean'' then Inr (type_name v = ''bool'')
      else if t = ''number'' then Inr (type_name v = ''int'' \<or> type_name v = ''float'')
      else if t = ''object'' then Inr (type_name v = ''dict'')
      else if t = ''array'' then Inr (type_name v = ''list'')
      else if t = ''string'' then Inr (type_name v = ''str'')
      else if t = ''null'' then Inr (type_name v = ''NoneType'')
      else raise PyKeyError (py_repr t))"

text \<open>\<open>any(_is_type(doc, n) for n in names)\<close>: it stops at the first that holds.\<close>

fun any_type :: "pyval \<Rightarrow> pyval list \<Rightarrow> bool res" where
  "any_type v [] = Inr False"
| "any_type v (t # ts) =
     (case t of
        PStr s \<Rightarrow> bindR (is_type v s) (\<lambda>b. if b then Inr True else any_type v ts)
      | _ \<Rightarrow> schema_shape)"

text \<open>\<open>ref[2:].split("/")\<close>, walked from the root.\<close>

fun split_at :: "char \<Rightarrow> string \<Rightarrow> string list" where
  "split_at c [] = [[]]"
| "split_at c (d # s) =
     (if d = c then [] # split_at c s else case split_at c s of [] \<Rightarrow> [[d]] | p # ps \<Rightarrow> (d # p) # ps)"

fun walk :: "string list \<Rightarrow> pyval \<Rightarrow> pyval option" where
  "walk [] v = Some v"
| "walk (p # ps) v = (case keyword v p of None \<Rightarrow> None | Some w \<Rightarrow> walk ps w)"

definition resolve_ref :: "string \<Rightarrow> pyval \<Rightarrow> pyval res" where
  "resolve_ref ref root =
     (if \<not> starts_with ''#/'' ref then raise SchemaError (''unsupported $ref form: '' @ py_repr ref)
      else case walk (split_at (CHR ''/'') (drop 2 ref)) root of
        None \<Rightarrow> raise SchemaError (''unresolvable $ref: '' @ py_repr ref)
      | Some s \<Rightarrow> Inr s)"

text \<open>The checks that print the value they refuse take the stack that is left.\<close>

definition const_errors :: "nat \<Rightarrow> pyval \<Rightarrow> pyval \<Rightarrow> string \<Rightarrow> string list res" where
  "const_errors n doc schema path =
     (case keyword schema ''const'' of
        None \<Rightarrow> Inr []
      | Some c \<Rightarrow>
          if py_eq doc c then Inr []
          else bindR (value_repr n c) (\<lambda>expected.
               bindR (value_repr n doc) (\<lambda>got.
               Inr [path @ '': expected const '' @ expected @ '', got '' @ got])))"

definition enum_errors :: "nat \<Rightarrow> pyval \<Rightarrow> pyval \<Rightarrow> string \<Rightarrow> string list res" where
  "enum_errors n doc schema path =
     (case keyword schema ''enum'' of
        None \<Rightarrow> Inr []
      | Some (PList vs) \<Rightarrow>
          if list_ex (py_same doc) vs then Inr []
          else bindR (value_repr n doc) (\<lambda>got.
               bindR (value_repr n (PList vs)) (\<lambda>expected.
               Inr [path @ '': '' @ got @ '' not in enum '' @ expected]))
      | Some _ \<Rightarrow> schema_shape)"

definition type_errors :: "nat \<Rightarrow> pyval \<Rightarrow> pyval \<Rightarrow> string \<Rightarrow> string list res" where
  "type_errors n doc schema path =
     (case keyword schema ''type'' of
        None \<Rightarrow> Inr []
      | Some PNone \<Rightarrow> Inr []
      | Some t \<Rightarrow>
          bindR (any_type doc (case t of PList ts \<Rightarrow> ts | _ \<Rightarrow> [t])) (\<lambda>b.
            if b then Inr []
            else bindR (value_repr n t) (\<lambda>expected.
                 Inr [path @ '': expected type '' @ expected @ '', got '' @ type_name doc])))"

definition pattern_errors :: "string \<Rightarrow> pyval \<Rightarrow> string \<Rightarrow> string list res" where
  "pattern_errors s schema path =
     (case keyword schema ''pattern'' of
        None \<Rightarrow> Inr []
      | Some (PStr p) \<Rightarrow>
          bindR (fullmatch p s) (\<lambda>b.
            Inr (if b then [] else [path @ '': '' @ py_repr s @ '' does not match pattern '' @ py_repr p]))
      | Some _ \<Rightarrow> schema_shape)"

text \<open>A bound on a length: the keyword, whether the length is too small or too large for it.\<close>

definition length_errors ::
  "nat \<Rightarrow> pyval \<Rightarrow> string \<Rightarrow> string \<Rightarrow> string \<Rightarrow> string \<Rightarrow> bool \<Rightarrow> string list res" where
  "length_errors n schema path k before after low =
     (case keyword schema k of
        None \<Rightarrow> Inr []
      | Some (PInt m) \<Rightarrow>
          if (if low then int n < m else m < int n)
          then bindR (int_repr m) (\<lambda>bound.
               Inr [path @ '': '' @ before @ nat_str n @ after @ (if low then '' below '' else '' above '') @ k
                      @ '' '' @ bound])
          else Inr []
      | Some _ \<Rightarrow> schema_shape)"

definition string_errors :: "pyval \<Rightarrow> pyval \<Rightarrow> string \<Rightarrow> string list res" where
  "string_errors doc schema path =
     (case doc of
        PStr s \<Rightarrow>
          bindR (pattern_errors s schema path) (\<lambda>pe.
          bindR (length_errors (length s) schema path ''minLength'' ''length '' [] True) (\<lambda>lo.
          bindR (length_errors (length s) schema path ''maxLength'' ''length '' [] False) (\<lambda>hi.
            Inr (pe @ lo @ hi
              @ (if keyword schema ''format'' = Some (PStr ''date-time'') \<and> \<not> valid_date_time s
                 then [path @ '': '' @ py_repr s @ '' is not a valid date-time''] else [])))))
      | _ \<Rightarrow> Inr [])"

definition minimum_errors :: "nat \<Rightarrow> pyval \<Rightarrow> pyval \<Rightarrow> string \<Rightarrow> string list res" where
  "minimum_errors n doc schema path =
     (if type_name doc \<notin> {''int'', ''float''} then Inr []
      else case keyword schema ''minimum'' of
        None \<Rightarrow> Inr []
      | Some m \<Rightarrow>
          if \<not> is_number m then schema_shape
          else if py_less doc m
          then bindR (value_repr n doc) (\<lambda>got.
               bindR (value_repr n m) (\<lambda>least.
               Inr [path @ '': '' @ got @ '' below minimum '' @ least]))
          else Inr [])"

definition required_errors :: "(string \<times> pyval) list \<Rightarrow> pyval \<Rightarrow> string \<Rightarrow> string list res" where
  "required_errors d schema path =
     (case keyword schema ''required'' of
        None \<Rightarrow> Inr []
      | Some (PList names) \<Rightarrow>
          bindR (mapR (\<lambda>r. case r of
              PStr r \<Rightarrow> Inr (if r \<in> fst ` set d then [] else [path @ '': missing required property '' @ py_repr r])
            | _ \<Rightarrow> schema_shape) names) (\<lambda>es. Inr (concat es))
      | Some _ \<Rightarrow> schema_shape)"

text \<open>The names that the presence of \<open>trigger\<close> asks for and that are not there.\<close>

definition needed_errors :: "(string \<times> pyval) list \<Rightarrow> string \<Rightarrow> string \<Rightarrow> pyval \<Rightarrow> string list res" where
  "needed_errors d path trigger needed =
     (if trigger \<notin> fst ` set d then Inr []
      else case needed of
        PList ns \<Rightarrow>
          bindR (mapR (\<lambda>r. case r of
              PStr r \<Rightarrow> Inr (if r \<in> fst ` set d then []
                else [path @ '': property '' @ py_repr r @ '' is required when '' @ py_repr trigger
                        @ '' is present (dependentRequired)''])
            | _ \<Rightarrow> schema_shape) ns) (\<lambda>es. Inr (concat es))
      | _ \<Rightarrow> schema_shape)"

definition dependent_errors :: "(string \<times> pyval) list \<Rightarrow> pyval \<Rightarrow> string \<Rightarrow> string list res" where
  "dependent_errors d schema path =
     (case keyword schema ''dependentRequired'' of
        None \<Rightarrow> Inr []
      | Some (PDict deps) \<Rightarrow>
          bindR (mapR (\<lambda>(trigger, needed). needed_errors d path trigger needed) deps) (\<lambda>es. Inr (concat es))
      | Some _ \<Rightarrow> schema_shape)"

definition schema_properties :: "pyval \<Rightarrow> (string \<times> pyval) list res" where
  "schema_properties schema =
     (case keyword schema ''properties'' of
        None \<Rightarrow> Inr [] | Some (PDict ps) \<Rightarrow> Inr ps | Some _ \<Rightarrow> schema_shape)"

definition unexpected_errors ::
  "(string \<times> pyval) list \<Rightarrow> (string \<times> pyval) list \<Rightarrow> pyval \<Rightarrow> string \<Rightarrow> string list" where
  "unexpected_errors d props schema path =
     (if keyword schema ''additionalProperties'' = Some (PBool False)
      then concat (map (\<lambda>(k, v). if k \<in> fst ` set props then []
             else [path @ '': unexpected property '' @ py_repr k @ '' (additionalProperties: false)'']) d)
      else [])"

text \<open>
  \<open>validate(doc, schema, root, path)\<close>. The first argument is the depth of the interpreter's stack that
  is left; each call of the checker on a part or through a reference takes one.
\<close>

fun sc_validate :: "nat \<Rightarrow> pyval \<Rightarrow> pyval \<Rightarrow> pyval \<Rightarrow> string \<Rightarrow> string list res" where
  "sc_validate 0 doc schema root path = raise PyRecursionError ''maximum recursion depth exceeded''"
| "sc_validate (Suc n) doc schema root path =
     (case keyword schema ''$ref'' of
        Some ref \<Rightarrow>
          (case ref of
             PStr r \<Rightarrow> bindR (resolve_ref r root) (\<lambda>s. sc_validate n doc s root path)
           | _ \<Rightarrow> schema_shape)
      | None \<Rightarrow>
          bindR (const_errors n doc schema path) (\<lambda>ce.
          bindR (enum_errors n doc schema path) (\<lambda>ee.
          bindR (type_errors n doc schema path) (\<lambda>te.
          let found = ce @ ee @ te in
          if te \<noteq> [] then Inr found
          else bindR (string_errors doc schema path) (\<lambda>se.
          bindR (minimum_errors n doc schema path) (\<lambda>me.
          bindR (case doc of
              PList vs \<Rightarrow>
                bindR (length_errors (length vs) schema path ''minItems'' [] '' items'' True) (\<lambda>lo.
                bindR (length_errors (length vs) schema path ''maxItems'' [] '' items'' False) (\<lambda>hi.
                bindR (case keyword schema ''items'' of
                    None \<Rightarrow> Inr []
                  | Some sub \<Rightarrow> eachR (\<lambda>i v. sc_validate n v sub root (index_str path i)) 0 vs) (\<lambda>es.
                  Inr (lo @ hi @ concat es))))
            | _ \<Rightarrow> Inr []) (\<lambda>ie.
          bindR (case doc of
              PDict d \<Rightarrow>
                bindR (required_errors d schema path) (\<lambda>re.
                bindR (dependent_errors d schema path) (\<lambda>de.
                bindR (schema_properties schema) (\<lambda>props.
                bindR (mapR (\<lambda>(k, sub).
                    case map_of d k of
                      None \<Rightarrow> Inr []
                    | Some v \<Rightarrow> sc_validate n v sub root (path @ ''.'' @ k)) props) (\<lambda>es.
                  Inr (re @ de @ unexpected_errors d props schema path @ concat es)))))
            | _ \<Rightarrow> Inr []) (\<lambda>oe.
            Inr (found @ se @ me @ ie @ oe)))))))))"

end
