(* ===== verification/Schema_Reference.thy ===== *)
theory Schema_Reference
  imports Py_Schema
begin

text \<open>
  What a schema means, apart from how \<open>schemacheck.validate\<close> goes through it: \<open>conforms\<close> is the reference
  definition of a value that satisfies a schema. On every schema whose keywords have the shapes the
  keywords have (\<open>schema_ok\<close>, which also bounds how deep it nests), the checker returns a list whatever the
  value is, and the list is empty exactly when the value conforms.
\<close>

section \<open>The meaning of the keywords\<close>

definition const_ok :: "pyval \<Rightarrow> pyval \<Rightarrow> bool" where
  "const_ok doc s \<longleftrightarrow> (case keyword s ''const'' of None \<Rightarrow> True | Some c \<Rightarrow> py_eq doc c)"

definition enum_ok :: "pyval \<Rightarrow> pyval \<Rightarrow> bool" where
  "enum_ok doc s \<longleftrightarrow> (case keyword s ''enum'' of Some (PList vs) \<Rightarrow> list_ex (py_same doc) vs | _ \<Rightarrow> True)"

definition has_type :: "pyval \<Rightarrow> string \<Rightarrow> bool" where
  "has_type v t \<longleftrightarrow> is_type v t = Inr True"

definition type_ok :: "pyval \<Rightarrow> pyval \<Rightarrow> bool" where
  "type_ok doc s \<longleftrightarrow>
     (case keyword s ''type'' of
        Some (PStr t) \<Rightarrow> has_type doc t
      | Some (PList ts) \<Rightarrow> list_ex (\<lambda>t. case t of PStr n \<Rightarrow> has_type doc n | _ \<Rightarrow> False) ts
      | _ \<Rightarrow> True)"

definition length_ok :: "pyval \<Rightarrow> string \<Rightarrow> bool \<Rightarrow> nat \<Rightarrow> bool" where
  "length_ok s k low n \<longleftrightarrow>
     (case keyword s k of Some (PInt m) \<Rightarrow> if low then m \<le> int n else int n \<le> m | _ \<Rightarrow> True)"

definition text_ok :: "pyval \<Rightarrow> pyval \<Rightarrow> bool" where
  "text_ok doc s \<longleftrightarrow>
     (case doc of
        PStr t \<Rightarrow>
          (case keyword s ''pattern'' of Some (PStr p) \<Rightarrow> fullmatch p t = Inr True | _ \<Rightarrow> True)
          \<and> length_ok s ''minLength'' True (length t) \<and> length_ok s ''maxLength'' False (length t)
          \<and> (keyword s ''format'' = Some (PStr ''date-time'') \<longrightarrow> valid_date_time t)
      | _ \<Rightarrow> True)"

definition minimum_ok :: "pyval \<Rightarrow> pyval \<Rightarrow> bool" where
  "minimum_ok doc s \<longleftrightarrow>
     type_name doc \<in> {''int'', ''float''} \<longrightarrow>
     (case keyword s ''minimum'' of None \<Rightarrow> True | Some m \<Rightarrow> \<not> py_less doc m)"

definition required_ok :: "(string \<times> pyval) list \<Rightarrow> pyval \<Rightarrow> bool" where
  "required_ok d s \<longleftrightarrow>
     (case keyword s ''required'' of
        Some (PList ns) \<Rightarrow> list_all (\<lambda>n. case n of PStr r \<Rightarrow> map_of d r \<noteq> None | _ \<Rightarrow> False) ns
      | _ \<Rightarrow> True)"

definition dependent_names :: "pyval \<Rightarrow> string list" where
  "dependent_names v = (case v of PList ns \<Rightarrow> map (\<lambda>n. case n of PStr r \<Rightarrow> r | _ \<Rightarrow> []) ns | _ \<Rightarrow> [])"

definition dependent_ok :: "(string \<times> pyval) list \<Rightarrow> pyval \<Rightarrow> bool" where
  "dependent_ok d s \<longleftrightarrow>
     (case keyword s ''dependentRequired'' of
        Some (PDict deps) \<Rightarrow>
          list_all (\<lambda>(t, ns). map_of d t \<noteq> None \<longrightarrow> list_all (\<lambda>n. map_of d n \<noteq> None) (dependent_names ns)) deps
      | _ \<Rightarrow> True)"

definition closed_ok :: "(string \<times> pyval) list \<Rightarrow> (string \<times> pyval) list \<Rightarrow> pyval \<Rightarrow> bool" where
  "closed_ok d props s \<longleftrightarrow>
     (keyword s ''additionalProperties'' = Some (PBool False) \<longrightarrow> fst ` set d \<subseteq> fst ` set props)"

definition properties_of :: "pyval \<Rightarrow> (string \<times> pyval) list" where
  "properties_of s = (case keyword s ''properties'' of Some (PDict ps) \<Rightarrow> ps | _ \<Rightarrow> [])"

primrec conforms :: "nat \<Rightarrow> pyval \<Rightarrow> pyval \<Rightarrow> bool" where
  "conforms 0 doc s \<longleftrightarrow> False"
| "conforms (Suc n) doc s \<longleftrightarrow>
     const_ok doc s \<and> enum_ok doc s \<and> type_ok doc s \<and> text_ok doc s \<and> minimum_ok doc s
     \<and> (case doc of
          PList vs \<Rightarrow>
            length_ok s ''minItems'' True (length vs) \<and> length_ok s ''maxItems'' False (length vs)
            \<and> (case keyword s ''items'' of None \<Rightarrow> True | Some sub \<Rightarrow> list_all (\<lambda>v. conforms n v sub) vs)
        | PDict d \<Rightarrow>
            required_ok d s \<and> dependent_ok d s \<and> closed_ok d (properties_of s) s
            \<and> list_all (\<lambda>ks. case map_of d (fst ks) of None \<Rightarrow> True | Some v \<Rightarrow> conforms n v (snd ks)) (properties_of s)
        | _ \<Rightarrow> True)"

section \<open>Schemas of the right shape\<close>

definition type_names :: "string list" where
  "type_names = [''integer'', ''boolean'', ''number'', ''object'', ''array'', ''string'', ''null'']"

fun names_type :: "pyval \<Rightarrow> bool" where
  "names_type (PStr t) \<longleftrightarrow> t \<in> set type_names"
| "names_type v \<longleftrightarrow> False"

fun is_text :: "pyval \<Rightarrow> bool" where
  "is_text (PStr s) \<longleftrightarrow> True"
| "is_text v \<longleftrightarrow> False"

fun texts :: "pyval \<Rightarrow> bool" where
  "texts (PList vs) \<longleftrightarrow> list_all is_text vs"
| "texts v \<longleftrightarrow> False"

fun text_lists :: "pyval \<Rightarrow> bool" where
  "text_lists (PDict d) \<longleftrightarrow> list_all (\<lambda>kv. texts (snd kv)) d"
| "text_lists v \<longleftrightarrow> False"

text \<open>
  Values whose \<open>repr\<close> can be taken with so much stack left: no integer in them has more than 4300 digits, and
  they nest no deeper.
\<close>

fun printable :: "nat \<Rightarrow> pyval \<Rightarrow> bool" where
  "printable n (PInt i) \<longleftrightarrow> length (nat_str (nat \<bar>i\<bar>)) \<le> max_str_digits"
| "printable 0 (PList vs) \<longleftrightarrow> False"
| "printable (Suc n) (PList vs) \<longleftrightarrow> list_all (printable n) vs"
| "printable 0 (PDict d) \<longleftrightarrow> False"
| "printable (Suc n) (PDict d) \<longleftrightarrow> list_all (\<lambda>kv. printable n (snd kv)) d"
| "printable n v \<longleftrightarrow> True"

fun is_int :: "pyval \<Rightarrow> bool" where
  "is_int (PInt i) \<longleftrightarrow> printable 0 (PInt i)"
| "is_int v \<longleftrightarrow> False"

definition keyword_all :: "pyval \<Rightarrow> string \<Rightarrow> (pyval \<Rightarrow> bool) \<Rightarrow> bool" where
  "keyword_all s k p \<longleftrightarrow> (case keyword s k of None \<Rightarrow> True | Some v \<Rightarrow> p v)"

definition keywords_ok :: "nat \<Rightarrow> pyval \<Rightarrow> bool" where
  "keywords_ok n s \<longleftrightarrow>
     keyword s ''$ref'' = None
     \<and> keyword_all s ''const'' (printable n)
     \<and> keyword_all s ''enum'' (\<lambda>v. type_name v = ''list'' \<and> printable n v)
     \<and> keyword_all s ''type'' (\<lambda>v. (case v of PList ts \<Rightarrow> list_all names_type ts | _ \<Rightarrow> names_type v) \<and> printable n v)
     \<and> keyword_all s ''pattern'' (\<lambda>v. case v of PStr p \<Rightarrow> read_pattern p \<noteq> None | _ \<Rightarrow> False)
     \<and> keyword_all s ''minLength'' is_int \<and> keyword_all s ''maxLength'' is_int
     \<and> keyword_all s ''minItems'' is_int \<and> keyword_all s ''maxItems'' is_int
     \<and> keyword_all s ''minimum'' (\<lambda>v. is_number v \<and> printable n v)
     \<and> keyword_all s ''required'' texts
     \<and> keyword_all s ''dependentRequired'' text_lists
     \<and> keyword_all s ''properties'' (\<lambda>v. type_name v = ''dict'')"

primrec schema_ok :: "nat \<Rightarrow> pyval \<Rightarrow> bool" where
  "schema_ok 0 s \<longleftrightarrow> False"
| "schema_ok (Suc n) s \<longleftrightarrow>
     keywords_ok n s \<and> keyword_all s ''items'' (schema_ok n)
     \<and> list_all (\<lambda>ks. schema_ok n (snd ks)) (properties_of s)"

lemma mapR_total: "(\<exists>ts. mapR f vs = Inr ts) \<longleftrightarrow> (\<forall>v\<in>set vs. \<exists>t. f v = Inr t)"
proof -
  have "(\<exists>ts. eachR (\<lambda>_. f) n vs = Inr ts) \<longleftrightarrow> (\<forall>v\<in>set vs. \<exists>t. f v = Inr t)" for n
    by (induction vs arbitrary: n) (auto simp: bindR_Inr_iff)
  then show ?thesis by (simp add: mapR_def)
qed

lemma printable_iff: "printable n v \<longleftrightarrow> (\<exists>t. value_repr n v = Inr t)"
proof (induction n v rule: printable.induct)
  case (3 n vs)
  have "(\<exists>t. value_repr (Suc n) (PList vs) = Inr t) \<longleftrightarrow> (\<exists>ts. mapR (value_repr n) vs = Inr ts)"
    by (auto simp: bindR_Inr_iff)
  then show ?case using 3 by (simp add: mapR_total list_all_iff)
next
  case (5 n d)
  have "(\<exists>t. value_repr (Suc n) (PDict d) = Inr t) \<longleftrightarrow> (\<exists>ts. mapR (value_repr n) (map snd d) = Inr ts)"
    by (auto simp: bindR_Inr_iff)
  then show ?case using 5 by (simp add: mapR_total list_all_iff)
qed (auto simp: int_repr_def repr_too_deep_def raise_def)

lemma value_repr_deeper: "value_repr n v = Inr t \<Longrightarrow> n \<le> m \<Longrightarrow> value_repr m v = Inr t"
proof (induction n v arbitrary: m t rule: value_repr.induct)
  case (9 n vs)
  then obtain k where k: "m = Suc k" "n \<le> k" by (cases m) auto
  have "mapR (value_repr k) vs = Inr ts" if "mapR (value_repr n) vs = Inr ts" for ts
    using that "9.IH" [OF _ k(2)] by (auto simp: mapR_ok)
  then show ?case using "9.prems"(1) by (auto simp: k(1) bindR_Inr_iff)
next
  case (11 n d)
  then obtain k where k: "m = Suc k" "n \<le> k" by (cases m) auto
  have "mapR (value_repr k) (map snd d) = Inr ts" if "mapR (value_repr n) (map snd d) = Inr ts" for ts
    using that "11.IH" [OF _ k(2)] by (auto simp: mapR_ok)
  then show ?case using "11.prems"(1) by (auto simp: k(1) bindR_Inr_iff)
qed (auto simp: repr_too_deep_def)

lemma printable_deeper: "printable n v \<Longrightarrow> n \<le> m \<Longrightarrow> printable m v"
  unfolding printable_iff using value_repr_deeper by blast

lemma printable_element: "printable n (PList vs) \<Longrightarrow> v \<in> set vs \<Longrightarrow> \<exists>m. n = Suc m \<and> printable m v"
  by (cases n) (auto simp: list_all_iff)

lemma printable_entry: "printable n (PDict d) \<Longrightarrow> map_of d k = Some v \<Longrightarrow> \<exists>m. n = Suc m \<and> printable m v"
  by (cases n) (auto simp: list_all_iff dest!: map_of_SomeD)

lemma keyword_all_mono: "keyword_all s k p \<Longrightarrow> (\<And>v. p v \<Longrightarrow> q v) \<Longrightarrow> keyword_all s k q"
  by (simp add: keyword_all_def split: option.splits)

lemma keywords_ok_deeper: "keywords_ok n s \<Longrightarrow> n \<le> m \<Longrightarrow> keywords_ok m s"
  unfolding keywords_ok_def
  by (elim conjE, intro conjI) (assumption | erule keyword_all_mono, blast intro: printable_deeper)+

lemma schema_ok_deeper: "schema_ok n s \<Longrightarrow> n \<le> m \<Longrightarrow> schema_ok m s"
proof (induction n arbitrary: s m)
  case (Suc n)
  then obtain k where "m = Suc k" "n \<le> k" by (cases m) auto
  then show ?case
    using Suc keywords_ok_deeper by (auto simp: keyword_all_def list_all_iff split: option.splits)
qed simp

section \<open>The checker decides conformance\<close>

text \<open>
  A check that returns its violations, none of them exactly when the condition holds, or that cannot print
  what it refuses, which \<open>ok\<close> rules out.
\<close>

definition unprintable :: "exn \<Rightarrow> bool" where
  "unprintable e \<longleftrightarrow> exn_class e = PyValueError \<or> exn_class e = PyRecursionError"

definition decides :: "bool \<Rightarrow> string list res \<Rightarrow> bool \<Rightarrow> bool" where
  "decides ok m b \<longleftrightarrow> (case m of Inl e \<Rightarrow> \<not> b \<and> \<not> ok \<and> unprintable e | Inr es \<Rightarrow> (es = [] \<longleftrightarrow> b))"

lemma decides_Inr [simp]: "decides ok (Inr es) b \<longleftrightarrow> (es = [] \<longleftrightarrow> b)"
  by (simp add: decides_def)

lemma decides_weaker: "decides ok m b \<Longrightarrow> (ok' \<Longrightarrow> ok) \<Longrightarrow> decides ok' m b"
  by (auto simp: decides_def split: sum.splits)

lemma decides_iff: "decides ok m b \<Longrightarrow> b = b' \<Longrightarrow> decides ok m b'"
  by simp

text \<open>One check after another; a later one is judged by what the earlier ones found.\<close>

lemma decides_bind:
  assumes "decides ok m p" and "\<And>es. (es = []) = p \<Longrightarrow> decides ok (f es) q" and "q \<Longrightarrow> p"
  shows "decides ok (bindR m f) q"
  using assms by (cases m) (auto simp: decides_def)

lemma decides_each:
  assumes "\<And>i x. x \<in> set xs \<Longrightarrow> decides ok (f i x) (p x)"
    and "\<And>es. (concat es = []) = list_all p xs \<Longrightarrow> decides ok (g es) q" and "q \<Longrightarrow> list_all p xs"
  shows "decides ok (bindR (eachR f n xs) g) q"
  using assms
proof (induction xs arbitrary: n g)
  case (Cons x xs)
  have *: "decides ok (bindR (f n x) (\<lambda>y. bindR (eachR f (Suc n) xs) (\<lambda>ys. g (y # ys)))) q"
  proof (rule decides_bind)
    show "decides ok (f n x) (p x)" using Cons.prems(1) by simp
    show "q \<Longrightarrow> p x" using Cons.prems(3) by simp
    fix y :: "string list" assume y: "(y = []) = p x"
    show "decides ok (bindR (eachR f (Suc n) xs) (\<lambda>ys. g (y # ys))) q"
      by (rule Cons.IH) (use Cons.prems y in auto)
  qed
  have "bindR (eachR f n (x # xs)) g = bindR (f n x) (\<lambda>y. bindR (eachR f (Suc n) xs) (\<lambda>ys. g (y # ys)))"
    by (simp add: bindR_def split: sum.split)
  with * show ?case by simp
qed simp

lemma decides_map:
  assumes "\<And>x. x \<in> set xs \<Longrightarrow> decides ok (f x) (p x)"
    and "\<And>es. (concat es = []) = list_all p xs \<Longrightarrow> decides ok (g es) q" and "q \<Longrightarrow> list_all p xs"
  shows "decides ok (bindR (mapR f xs) g) q"
  unfolding mapR_def by (rule decides_each) (use assms in auto)

lemma decides_all:
  assumes "\<And>x. x \<in> set xs \<Longrightarrow> decides ok (f x) (p x)"
  shows "decides ok (bindR (mapR f xs) (\<lambda>es. Inr (concat es))) (list_all p xs)"
  by (rule decides_map [where p = p]) (use assms in \<open>simp_all only: decides_Inr\<close>)

text \<open>A violation that prints a value, and one that prints a part of the schema.\<close>

lemma mapped_unprintable: "mapR f vs = Inl e \<Longrightarrow> \<exists>v\<in>set vs. f v = Inl e"
proof -
  have "eachR (\<lambda>_. f) k us = Inl e \<Longrightarrow> \<exists>v\<in>set us. f v = Inl e" for k us
    by (induction us arbitrary: k) (auto simp: bindR_Inl_iff)
  then show "mapR f vs = Inl e \<Longrightarrow> \<exists>v\<in>set vs. f v = Inl e" by (simp add: mapR_def)
qed

lemma repr_unprintable: "value_repr n v = Inl e \<Longrightarrow> unprintable e"
proof (induction n v arbitrary: e rule: value_repr.induct)
  case (9 n vs)
  then show ?case using mapped_unprintable [of "value_repr n" vs e] by (auto simp: bindR_Inl_iff)
next
  case (11 n d)
  then show ?case using mapped_unprintable [of "value_repr n" "map snd d" e] by (auto simp: bindR_Inl_iff)
qed (auto simp: int_repr_def repr_too_deep_def raise_def unprintable_def split: if_splits)

lemma decides_printed:
  assumes "\<not> b" and "\<And>t. decides ok (f t) b" and "ok \<Longrightarrow> printable n v"
  shows "decides ok (bindR (value_repr n v) f) b"
  using assms repr_unprintable [of n v] by (cases "value_repr n v") (auto simp: decides_def printable_iff)

lemma const_decides:
  assumes "keyword_all s ''const'' (printable n)"
  shows "decides (printable n doc) (const_errors n doc s path) (const_ok doc s)"
proof (cases "keyword s ''const''")
  case (Some c)
  then have "printable n c" using assms by (simp add: keyword_all_def)
  then show ?thesis
    by (auto simp: const_errors_def const_ok_def Some intro!: decides_printed)
qed (simp add: const_errors_def const_ok_def)

lemma enum_decides:
  assumes "keyword_all s ''enum'' (\<lambda>v. type_name v = ''list'' \<and> printable n v)"
  shows "decides (printable n doc) (enum_errors n doc s path) (enum_ok doc s)"
proof (cases "keyword s ''enum''")
  case (Some v)
  then obtain vs where "v = PList vs" "printable n v" using assms by (cases v) (simp_all add: keyword_all_def)
  then show ?thesis
    by (auto simp: enum_errors_def enum_ok_def Some intro!: decides_printed)
qed (simp add: enum_errors_def enum_ok_def)

lemma is_type_total: "t \<in> set type_names \<Longrightarrow> is_type v t = Inr (has_type v t)"
  by (auto simp: type_names_def is_type_def has_type_def)

lemma any_type_total:
  "list_all names_type ts \<Longrightarrow>
     any_type v ts = Inr (list_ex (\<lambda>t. case t of PStr n \<Rightarrow> has_type v n | _ \<Rightarrow> False) ts)"
proof (induction ts)
  case (Cons t ts)
  then obtain n where "t = PStr n" "n \<in> set type_names" by (cases t) auto
  then show ?case using Cons is_type_total [of n v] by simp
qed simp

lemma type_decides:
  assumes "keyword_all s ''type'' (\<lambda>v. (case v of PList ts \<Rightarrow> list_all names_type ts | _ \<Rightarrow> names_type v) \<and> printable n v)"
  shows "decides ok (type_errors n doc s path) (type_ok doc s)"
proof (cases "keyword s ''type''")
  case (Some v)
  then have v: "case v of PList ts \<Rightarrow> list_all names_type ts | _ \<Rightarrow> names_type v" "printable n v"
    using assms by (simp_all add: keyword_all_def)
  show ?thesis
  proof (cases v)
    case (PStr t)
    then show ?thesis
      using v Some by (auto simp: type_errors_def type_ok_def is_type_total intro!: decides_printed)
  next
    case (PList ts)
    then show ?thesis
      using v Some by (auto simp: type_errors_def type_ok_def any_type_total intro!: decides_printed)
  qed (use v in simp_all)
qed (simp add: type_errors_def type_ok_def)

lemma length_decides: "keyword_all s k is_int \<Longrightarrow>
    decides ok (length_errors n s path k b a low) (length_ok s k low n)"
  by (auto simp: length_errors_def length_ok_def keyword_all_def int_repr_def
      split: option.splits pyval.splits sum.splits)

lemma pattern_decides:
  assumes "keyword_all s ''pattern'' (\<lambda>v. case v of PStr p \<Rightarrow> read_pattern p \<noteq> None | _ \<Rightarrow> False)"
  shows "decides ok (pattern_errors t s path)
    (case keyword s ''pattern'' of Some (PStr p) \<Rightarrow> fullmatch p t = Inr True | _ \<Rightarrow> True)"
  using assms
  by (auto simp: pattern_errors_def keyword_all_def fullmatch_def split: option.splits pyval.splits)

lemma minimum_decides:
  assumes "keyword_all s ''minimum'' (\<lambda>v. is_number v \<and> printable n v)"
  shows "decides (printable n doc) (minimum_errors n doc s path) (minimum_ok doc s)"
  using assms
  by (auto simp: minimum_errors_def minimum_ok_def keyword_all_def intro!: decides_printed split: option.splits)

lemma concat_clean: "(\<And>x. x \<in> set xs \<Longrightarrow> f x = [] \<longleftrightarrow> p x) \<Longrightarrow> concat (map f xs) = [] \<longleftrightarrow> list_all p xs"
  by (induction xs) auto

lemma has_key: "k \<in> fst ` set d \<longleftrightarrow> map_of d k \<noteq> None"
  by (simp add: map_of_eq_None_iff)

lemma required_decides:
  assumes "keyword_all s ''required'' texts"
  shows "decides ok (required_errors d s path) (required_ok d s)"
proof (cases "keyword s ''required''")
  case (Some v)
  then obtain ns where v: "v = PList ns" "list_all is_text ns"
    using assms by (cases v) (simp_all add: keyword_all_def)
  show ?thesis
    unfolding required_errors_def required_ok_def Some v(1) option.case pyval.case
  proof (rule decides_all)
    fix r assume "r \<in> set ns"
    then have "is_text r" using v(2) by (simp add: list_all_iff)
    then obtain t where "r = PStr t" by (cases r) simp_all
    then show "decides ok (case r of PStr r \<Rightarrow> Inr (if r \<in> fst ` set d then []
          else [path @ '': missing required property '' @ py_repr r]) | _ \<Rightarrow> schema_shape)
        (case r of PStr r \<Rightarrow> map_of d r \<noteq> None | _ \<Rightarrow> False)"
      by (simp add: has_key del: image_iff)
  qed
qed (simp add: required_errors_def required_ok_def)

lemma needed_decides:
  assumes "texts ns"
  shows "decides ok (needed_errors d path t ns)
    (map_of d t \<noteq> None \<longrightarrow> list_all (\<lambda>n. map_of d n \<noteq> None) (dependent_names ns))"
proof -
  obtain us where us: "ns = PList us" "list_all is_text us" using assms by (cases ns) simp_all
  let ?p = "\<lambda>r. map_of d (case r of PStr r \<Rightarrow> r | _ \<Rightarrow> []) \<noteq> None"
  have "decides ok (bindR (mapR (\<lambda>r. case r of
        PStr r \<Rightarrow> Inr (if r \<in> fst ` set d then []
          else [path @ '': property '' @ py_repr r @ '' is required when '' @ py_repr t @ '' is present (dependentRequired)''])
      | _ \<Rightarrow> schema_shape) us) (\<lambda>es. Inr (concat es))) (list_all ?p us)"
  proof (rule decides_all)
    fix r assume "r \<in> set us"
    then have "is_text r" using us(2) by (simp add: list_all_iff)
    then obtain x where "r = PStr x" by (cases r) simp_all
    then show "decides ok (case r of
        PStr r \<Rightarrow> Inr (if r \<in> fst ` set d then []
          else [path @ '': property '' @ py_repr r @ '' is required when '' @ py_repr t @ '' is present (dependentRequired)''])
      | _ \<Rightarrow> schema_shape) (?p r)"
      by (simp add: has_key del: image_iff)
  qed
  moreover have "list_all ?p us \<longleftrightarrow> list_all (\<lambda>n. map_of d n \<noteq> None) (dependent_names ns)"
    by (simp add: us(1) dependent_names_def list.pred_map comp_def)
  ultimately show ?thesis
    by (cases "map_of d t = None") (simp_all only: needed_errors_def has_key us(1) pyval.case simp_thms if_True if_False decides_Inr)
qed

lemma dependent_decides:
  assumes "keyword_all s ''dependentRequired'' text_lists"
  shows "decides ok (dependent_errors d s path) (dependent_ok d s)"
proof (cases "keyword s ''dependentRequired''")
  case (Some v)
  then obtain deps where v: "v = PDict deps" "list_all (\<lambda>kv. texts (snd kv)) deps"
    using assms by (cases v) (simp_all add: keyword_all_def)
  show ?thesis
    unfolding dependent_errors_def dependent_ok_def Some v(1) option.case pyval.case
  proof (rule decides_all)
    fix x assume "x \<in> set deps"
    then have "texts (snd x)" using v(2) by (simp add: list_all_iff)
    then show "decides ok (case x of (trigger, needed) \<Rightarrow> needed_errors d path trigger needed)
        (case x of (t, ns) \<Rightarrow> map_of d t \<noteq> None \<longrightarrow> list_all (\<lambda>n. map_of d n \<noteq> None) (dependent_names ns))"
      using needed_decides by (cases x) (simp only: prod.case snd_conv)
  qed
qed (simp add: dependent_errors_def dependent_ok_def)

lemma closed_decides: "unexpected_errors d props s path = [] \<longleftrightarrow> closed_ok d props s"
proof -
  have "concat (map (\<lambda>(k, v). if k \<in> fst ` set props then []
          else [path @ '': unexpected property '' @ py_repr k @ '' (additionalProperties: false)'']) d) = []
      \<longleftrightarrow> list_all (\<lambda>kv. fst kv \<in> fst ` set props) d"
    by (rule concat_clean) (simp add: case_prod_beta del: image_iff)
  then show ?thesis
    unfolding unexpected_errors_def closed_ok_def by (simp add: list_all_iff image_subset_iff del: concat_eq_Nil_conv)
qed

text \<open>The parts of the checker that go through a string, a list and an object.\<close>

lemma string_decides:
  assumes "keywords_ok n s"
  shows "decides ok (string_errors doc s path) (text_ok doc s)"
proof (cases doc)
  case (PStr t)
  have k: "keyword_all s ''pattern'' (\<lambda>v. case v of PStr p \<Rightarrow> read_pattern p \<noteq> None | _ \<Rightarrow> False)"
      "keyword_all s ''minLength'' is_int" "keyword_all s ''maxLength'' is_int"
    using assms by (simp_all add: keywords_ok_def)
  show ?thesis
    unfolding PStr string_errors_def text_ok_def pyval.case
    by (rule decides_bind [OF pattern_decides [OF k(1)]], rule decides_bind [OF length_decides [OF k(2)]],
        rule decides_bind [OF length_decides [OF k(3)]]) auto
qed (simp_all add: string_errors_def text_ok_def)

lemma list_decides:
  assumes "keywords_ok n s"
    and each: "\<And>t i v. keyword s ''items'' = Some t \<Longrightarrow> v \<in> set vs \<Longrightarrow> decides ok (f t i v) (p t v)"
  shows "decides ok (bindR (length_errors (length vs) s path ''minItems'' [] '' items'' True) (\<lambda>lo.
      bindR (length_errors (length vs) s path ''maxItems'' [] '' items'' False) (\<lambda>hi.
      bindR (case keyword s ''items'' of None \<Rightarrow> Inr [] | Some sub \<Rightarrow> eachR (f sub) 0 vs) (\<lambda>es.
        Inr (lo @ hi @ concat es)))))
    (length_ok s ''minItems'' True (length vs) \<and> length_ok s ''maxItems'' False (length vs)
     \<and> (case keyword s ''items'' of None \<Rightarrow> True | Some sub \<Rightarrow> list_all (p sub) vs))"
    (is "decides ok _ (?lo \<and> ?hi \<and> ?all)")
proof -
  have k: "keyword_all s ''minItems'' is_int" "keyword_all s ''maxItems'' is_int"
    using assms(1) by (simp_all add: keywords_ok_def)
  let ?rest = "\<lambda>lo hi. bindR (case keyword s ''items'' of None \<Rightarrow> Inr [] | Some sub \<Rightarrow> eachR (f sub) 0 vs) (\<lambda>es.
      Inr (lo @ hi @ concat es))"
  have inner: "decides ok (?rest lo hi) (?lo \<and> ?hi \<and> ?all)" if "(lo = []) = ?lo" "(hi = []) = ?hi" for lo hi
  proof (cases "keyword s ''items''")
    case (Some t)
    show ?thesis
      unfolding Some option.case
    proof (rule decides_each [where p = "p t"])
      show "decides ok (f t i v) (p t v)" if "v \<in> set vs" for i v using each [OF Some that] .
      show "decides ok (Inr (lo @ hi @ concat es)) (?lo \<and> ?hi \<and> list_all (p t) vs)" if "(concat es = []) = list_all (p t) vs" for es
        unfolding decides_Inr append_is_Nil_conv that \<open>(lo = []) = ?lo\<close> \<open>(hi = []) = ?hi\<close> ..
    qed blast
  qed (use that in simp)
  show ?thesis
  proof (rule decides_bind [OF length_decides [OF k(1)]])
    fix lo :: "string list" assume lo: "(lo = []) = ?lo"
    show "decides ok (bindR (length_errors (length vs) s path ''maxItems'' [] '' items'' False) (?rest lo)) (?lo \<and> ?hi \<and> ?all)"
    proof (rule decides_bind [OF length_decides [OF k(2)]])
      fix hi :: "string list" assume hi: "(hi = []) = ?hi"
      show "decides ok (?rest lo hi) (?lo \<and> ?hi \<and> ?all)" using inner [OF lo hi] .
    qed (erule conjunct2 [THEN conjunct1])
  qed (erule conjunct1)
qed

lemma properties_total:
  assumes "keywords_ok n s"
  shows "schema_properties s = Inr (properties_of s)"
proof (cases "keyword s ''properties''")
  case (Some v)
  then have "type_name v = ''dict''" using assms by (simp add: keywords_ok_def keyword_all_def)
  then show ?thesis using Some by (cases v) (simp_all add: schema_properties_def properties_of_def)
qed (simp add: schema_properties_def properties_of_def)

lemma object_decides:
  assumes "keywords_ok n s" and each: "\<And>ks. ks \<in> set (properties_of s) \<Longrightarrow> decides ok (f ks) (p ks)"
  shows "decides ok (bindR (required_errors d s path) (\<lambda>re.
      bindR (dependent_errors d s path) (\<lambda>de.
      bindR (schema_properties s) (\<lambda>props.
      bindR (mapR f props) (\<lambda>es. Inr (re @ de @ unexpected_errors d props s path @ concat es))))))
    (required_ok d s \<and> dependent_ok d s \<and> closed_ok d (properties_of s) s \<and> list_all p (properties_of s))"
proof -
  have k: "keyword_all s ''required'' texts" "keyword_all s ''dependentRequired'' text_lists"
    using assms(1) by (simp_all add: keywords_ok_def)
  show ?thesis
    unfolding properties_total [OF assms(1)] bindR_Inr
  proof (rule decides_bind [OF required_decides [OF k(1)]], rule decides_bind [OF dependent_decides [OF k(2)]])
    fix re de :: "string list" assume found: "(re = []) = required_ok d s" "(de = []) = dependent_ok d s"
    show "decides ok (bindR (mapR f (properties_of s)) (\<lambda>es. Inr (re @ de @ unexpected_errors d (properties_of s) s path @ concat es)))
        (required_ok d s \<and> dependent_ok d s \<and> closed_ok d (properties_of s) s \<and> list_all p (properties_of s))"
    proof (rule decides_map [where p = p])
      show "decides ok (Inr (re @ de @ unexpected_errors d (properties_of s) s path @ concat es))
          (required_ok d s \<and> dependent_ok d s \<and> closed_ok d (properties_of s) s \<and> list_all p (properties_of s))"
        if "(concat es = []) = list_all p (properties_of s)" for es
        unfolding decides_Inr append_is_Nil_conv found closed_decides that ..
    qed (use each in simp_all)
  qed simp_all
qed

text \<open>Enough stack: as many calls as the schema nests.\<close>

lemma checker_decides:
  "schema_ok (Suc n) s \<Longrightarrow> decides (printable n doc) (sc_validate (Suc n) doc s root path) (conforms (Suc n) doc s)"
proof (induction n arbitrary: doc s path rule: less_induct)
  case (less n)
  note ok = less.prems
  have k: "keywords_ok n s" and ref: "keyword s ''$ref'' = None" using ok by (simp_all add: keywords_ok_def)
  have kw: "keyword_all s ''const'' (printable n)" "keyword_all s ''enum'' (\<lambda>v. type_name v = ''list'' \<and> printable n v)"
    "keyword_all s ''type'' (\<lambda>v. (case v of PList ts \<Rightarrow> list_all names_type ts | _ \<Rightarrow> names_type v) \<and> printable n v)"
    "keyword_all s ''minimum'' (\<lambda>v. is_number v \<and> printable n v)"
    using k by (simp_all add: keywords_ok_def)
  have part: "decides (printable n doc) (sc_validate n v t root path') (conforms n v t)"
    if "schema_ok n t" "printable n doc \<Longrightarrow> \<exists>m. n = Suc m \<and> printable m v" for v t path'
  proof (cases n)
    case (Suc m)
    have "decides (printable m v) (sc_validate (Suc m) v t root path') (conforms (Suc m) v t)"
      using less.IH [of m t v path'] that(1) Suc by simp
    then show ?thesis unfolding Suc by (rule decides_weaker) (use that(2) Suc in auto)
  qed (use that(1) in simp)
  have lists: "decides (printable n doc) (case doc of PList vs \<Rightarrow>
        bindR (length_errors (length vs) s path ''minItems'' [] '' items'' True) (\<lambda>lo.
        bindR (length_errors (length vs) s path ''maxItems'' [] '' items'' False) (\<lambda>hi.
        bindR (case keyword s ''items'' of None \<Rightarrow> Inr []
          | Some sub \<Rightarrow> eachR (\<lambda>i v. sc_validate n v sub root (index_str path i)) 0 vs) (\<lambda>es.
          Inr (lo @ hi @ concat es)))) | _ \<Rightarrow> Inr [])
      (case doc of PList vs \<Rightarrow>
         length_ok s ''minItems'' True (length vs) \<and> length_ok s ''maxItems'' False (length vs)
         \<and> (case keyword s ''items'' of None \<Rightarrow> True | Some sub \<Rightarrow> list_all (\<lambda>v. conforms n v sub) vs) | _ \<Rightarrow> True)"
  proof (cases doc)
    case (PList vs)
    show ?thesis
      unfolding PList pyval.case
    proof (rule list_decides [OF k])
      show "decides (printable n (PList vs)) (sc_validate n v t root (index_str path i)) (conforms n v t)"
        if "keyword s ''items'' = Some t" "v \<in> set vs" for t i v
        using part [of t v "index_str path i"] ok that printable_element [of n vs v] by (simp add: PList keyword_all_def)
    qed
  qed simp_all
  have objects: "decides (printable n doc) (case doc of PDict d \<Rightarrow>
        bindR (required_errors d s path) (\<lambda>re. bindR (dependent_errors d s path) (\<lambda>de.
        bindR (schema_properties s) (\<lambda>props. bindR (mapR (\<lambda>(k, sub). case map_of d k of None \<Rightarrow> Inr []
              | Some v \<Rightarrow> sc_validate n v sub root (path @ ''.'' @ k)) props) (\<lambda>es.
          Inr (re @ de @ unexpected_errors d props s path @ concat es))))) | _ \<Rightarrow> Inr [])
      (case doc of PDict d \<Rightarrow> required_ok d s \<and> dependent_ok d s \<and> closed_ok d (properties_of s) s
         \<and> list_all (\<lambda>ks. case map_of d (fst ks) of None \<Rightarrow> True | Some v \<Rightarrow> conforms n v (snd ks)) (properties_of s)
         | _ \<Rightarrow> True)"
  proof (cases doc)
    case (PDict d)
    show ?thesis
      unfolding PDict pyval.case
    proof (rule object_decides [OF k])
      fix ks assume "ks \<in> set (properties_of s)"
      then have t: "schema_ok n (snd ks)" using ok by (simp add: list_all_iff)
      show "decides (printable n (PDict d)) (case ks of (k, sub) \<Rightarrow> case map_of d k of None \<Rightarrow> Inr []
            | Some v \<Rightarrow> sc_validate n v sub root (path @ ''.'' @ k))
          (case map_of d (fst ks) of None \<Rightarrow> True | Some v \<Rightarrow> conforms n v (snd ks))"
        using part [OF t] printable_entry [of n d "fst ks"]
        by (cases ks; cases "map_of d (fst ks)") (simp_all add: PDict)
    qed
  qed simp_all
  have all: "conforms (Suc n) doc s \<longleftrightarrow> const_ok doc s \<and> enum_ok doc s \<and> type_ok doc s \<and> text_ok doc s \<and> minimum_ok doc s
      \<and> (case doc of PList vs \<Rightarrow>
         length_ok s ''minItems'' True (length vs) \<and> length_ok s ''maxItems'' False (length vs)
         \<and> (case keyword s ''items'' of None \<Rightarrow> True | Some sub \<Rightarrow> list_all (\<lambda>v. conforms n v sub) vs) | _ \<Rightarrow> True)
      \<and> (case doc of PDict d \<Rightarrow> required_ok d s \<and> dependent_ok d s \<and> closed_ok d (properties_of s) s
         \<and> list_all (\<lambda>ks. case map_of d (fst ks) of None \<Rightarrow> True | Some v \<Rightarrow> conforms n v (snd ks)) (properties_of s)
         | _ \<Rightarrow> True)"
    unfolding conforms.simps by (cases doc) simp_all
  show ?case
    unfolding sc_validate.simps ref option.case
  proof (rule decides_bind [OF const_decides [OF kw(1)]], rule decides_bind [OF enum_decides [OF kw(2)]],
      rule decides_bind [OF type_decides [OF kw(3)]])
    fix ce ee te :: "string list"
    assume found: "(ce = []) = const_ok doc s" "(ee = []) = enum_ok doc s" "(te = []) = type_ok doc s"
    show "decides (printable n doc) (let found = ce @ ee @ te in if te \<noteq> [] then Inr found
        else bindR (string_errors doc s path) (\<lambda>se. bindR (minimum_errors n doc s path) (\<lambda>me.
          bindR (case doc of PList vs \<Rightarrow>
              bindR (length_errors (length vs) s path ''minItems'' [] '' items'' True) (\<lambda>lo.
              bindR (length_errors (length vs) s path ''maxItems'' [] '' items'' False) (\<lambda>hi.
              bindR (case keyword s ''items'' of None \<Rightarrow> Inr []
                | Some sub \<Rightarrow> eachR (\<lambda>i v. sc_validate n v sub root (index_str path i)) 0 vs) (\<lambda>es.
                Inr (lo @ hi @ concat es)))) | _ \<Rightarrow> Inr []) (\<lambda>ie.
          bindR (case doc of PDict d \<Rightarrow>
              bindR (required_errors d s path) (\<lambda>re. bindR (dependent_errors d s path) (\<lambda>de.
              bindR (schema_properties s) (\<lambda>props. bindR (mapR (\<lambda>(k, sub). case map_of d k of None \<Rightarrow> Inr []
                    | Some v \<Rightarrow> sc_validate n v sub root (path @ ''.'' @ k)) props) (\<lambda>es.
                Inr (re @ de @ unexpected_errors d props s path @ concat es))))) | _ \<Rightarrow> Inr []) (\<lambda>oe.
          Inr (found @ se @ me @ ie @ oe))))))
      (conforms (Suc n) doc s)"
    proof (cases "te = []")
      case False
      then have "\<not> conforms (Suc n) doc s" unfolding all using found(3) by blast
      then show ?thesis using False by (simp add: Let_def del: conforms.simps)
    next
      case True
      show ?thesis
        unfolding True Let_def append_Nil2 not_not simp_thms if_False
      proof (rule decides_bind [OF string_decides [OF k]], rule decides_bind [OF minimum_decides [OF kw(4)]],
          rule decides_bind [OF lists], rule decides_bind [OF objects])
        show "decides (printable n doc) (Inr ((ce @ ee) @ se @ me @ ie @ oe)) (conforms (Suc n) doc s)"
          if "(se = []) = text_ok doc s" "(me = []) = minimum_ok doc s" "(ie = []) = (case doc of PList vs \<Rightarrow>
            length_ok s ''minItems'' True (length vs) \<and> length_ok s ''maxItems'' False (length vs)
            \<and> (case keyword s ''items'' of None \<Rightarrow> True | Some sub \<Rightarrow> list_all (\<lambda>v. conforms n v sub) vs) | _ \<Rightarrow> True)"
            "(oe = []) = (case doc of PDict d \<Rightarrow> required_ok d s \<and> dependent_ok d s \<and> closed_ok d (properties_of s) s
              \<and> list_all (\<lambda>ks. case map_of d (fst ks) of None \<Rightarrow> True | Some v \<Rightarrow> conforms n v (snd ks)) (properties_of s)
              | _ \<Rightarrow> True)" for se me ie oe
          unfolding decides_Inr append_is_Nil_conv all found [symmetric] that [symmetric] True by blast
      qed (simp_all only: all)
    qed
  qed (simp_all only: all)
qed

section \<open>The shapes schemas are made of\<close>

lemma conforms_depth: "schema_ok n s \<Longrightarrow> n \<le> m \<Longrightarrow> conforms m doc s = conforms n doc s"
proof (induction n arbitrary: m doc s)
  case (Suc n)
  obtain k where m: "m = Suc k" "n \<le> k" using Suc.prems(2) by (cases m) auto
  have items: "conforms k v t = conforms n v t" if "keyword s ''items'' = Some t" for t v
  proof -
    have "schema_ok n t" using Suc.prems(1) that by (simp add: keyword_all_def)
    then show ?thesis by (rule Suc.IH [OF _ m(2)])
  qed
  have props: "conforms k v (snd ks) = conforms n v (snd ks)" if "ks \<in> set (properties_of s)" for ks v
  proof -
    have "schema_ok n (snd ks)" using Suc.prems(1) that by (simp add: list_all_iff)
    then show ?thesis by (rule Suc.IH [OF _ m(2)])
  qed
  have "(case keyword s ''items'' of None \<Rightarrow> True | Some sub \<Rightarrow> list_all (\<lambda>v. conforms k v sub) vs)
      = (case keyword s ''items'' of None \<Rightarrow> True | Some sub \<Rightarrow> list_all (\<lambda>v. conforms n v sub) vs)" for vs
    by (cases "keyword s ''items''") (simp_all only: option.case items)
  moreover have "list_all (\<lambda>ks. case map_of d (fst ks) of None \<Rightarrow> True | Some v \<Rightarrow> conforms k v (snd ks)) (properties_of s)
      = list_all (\<lambda>ks. case map_of d (fst ks) of None \<Rightarrow> True | Some v \<Rightarrow> conforms n v (snd ks)) (properties_of s)" for d
  proof (rule list.pred_cong [OF refl])
    show "(case map_of d (fst ks) of None \<Rightarrow> True | Some v \<Rightarrow> conforms k v (snd ks))
        = (case map_of d (fst ks) of None \<Rightarrow> True | Some v \<Rightarrow> conforms n v (snd ks))" if "ks \<in> set (properties_of s)" for ks
      by (cases "map_of d (fst ks)") (simp_all only: option.case props [OF that])
  qed
  ultimately show ?case unfolding m(1) conforms.simps by (simp only:)
qed simp

lemma py_same_string [simp]: "py_same v (PStr s) \<longleftrightarrow> v = PStr s"
  by (cases v) (auto split: option.split)

lemma py_eq_string [simp]: "py_eq v (PStr s) \<longleftrightarrow> v = PStr s"
  by (cases v) simp_all

lemmas keyword_defs = keyword_def const_ok_def enum_ok_def type_ok_def has_type_def is_type_def text_ok_def
  length_ok_def minimum_ok_def required_ok_def dependent_ok_def closed_ok_def properties_of_def

lemma conforms_pattern:
  "conforms (Suc n) v (PDict [(''type'', PStr ''string''), (''pattern'', PStr p)]) \<longleftrightarrow>
     (\<exists>s. v = PStr s \<and> fullmatch p s = Inr True)"
  by (cases v) (simp_all add: keyword_defs)

lemma conforms_date:
  "conforms (Suc n) v (PDict [(''type'', PStr ''string''), (''format'', PStr ''date-time'')]) \<longleftrightarrow>
     (\<exists>s. v = PStr s \<and> valid_date_time s)"
  by (cases v) (simp_all add: keyword_defs)

lemma conforms_text:
  "conforms (Suc n) v (PDict [(''type'', PStr ''string''), (''minLength'', PInt a), (''maxLength'', PInt b)]) \<longleftrightarrow>
     (\<exists>s. v = PStr s \<and> a \<le> int (length s) \<and> int (length s) \<le> b)"
  by (cases v) (simp_all add: keyword_defs)

lemma conforms_short:
  "conforms (Suc n) v (PDict [(''type'', PStr ''string''), (''maxLength'', PInt b)]) \<longleftrightarrow>
     (\<exists>s. v = PStr s \<and> int (length s) \<le> b)"
  by (cases v) (simp_all add: keyword_defs)

lemma conforms_enum: "conforms (Suc n) v (PDict [(''enum'', PList vs)]) \<longleftrightarrow> list_ex (py_same v) vs"
  by (cases v) (simp_all add: keyword_defs)

lemma conforms_const: "conforms (Suc n) v (PDict [(''const'', c)]) \<longleftrightarrow> py_eq v c"
  by (cases v) (simp_all add: keyword_defs)

lemma conforms_object:
  "conforms (Suc n) v (PDict [(''type'', PStr ''object''), (''additionalProperties'', PBool False),
       (''required'', PList ns), (''properties'', PDict ps)]) \<longleftrightarrow>
     (\<exists>d. v = PDict d \<and> list_all (\<lambda>n. case n of PStr r \<Rightarrow> map_of d r \<noteq> None | _ \<Rightarrow> False) ns
        \<and> fst ` set d \<subseteq> fst ` set ps
        \<and> list_all (\<lambda>ks. case map_of d (fst ks) of None \<Rightarrow> True | Some v \<Rightarrow> conforms n v (snd ks)) ps)"
  by (cases v) (simp_all add: keyword_defs)

lemmas conforms_shapes = conforms_pattern conforms_date conforms_text conforms_short conforms_enum conforms_const
  conforms_object

section \<open>Patterns\<close>

lemma matches_one: "matches_items (Item cs 1 (Some 1) # items) s \<longleftrightarrow>
    s \<noteq> [] \<and> in_class cs (hd s) \<and> matches_items items (tl s)"
proof -
  have one: "lo \<le> k \<and> (case hi of None \<Rightarrow> True | Some h \<Rightarrow> k \<le> h) \<longleftrightarrow> k = 1" if "lo = 1" "hi = Some 1" for lo hi and k :: nat
    using that by auto
  have "matches_items (Item cs 1 (Some 1) # items) s \<longleftrightarrow>
      1 \<le> length s \<and> list_all (in_class cs) (take 1 s) \<and> matches_items items (drop 1 s)"
    unfolding matches_items.simps list_ex_iff by (simp only: conj_assoc [symmetric] one [OF refl refl]) force
  also have "\<dots> \<longleftrightarrow> s \<noteq> [] \<and> in_class cs (hd s) \<and> matches_items items (tl s)"
    by (cases s) simp_all
  finally show ?thesis .
qed

lemma matches_last: "matches_items [Item cs lo hi] s \<longleftrightarrow>
    lo \<le> length s \<and> (case hi of None \<Rightarrow> True | Some h \<Rightarrow> length s \<le> h) \<and> list_all (in_class cs) s"
  by (auto simp: list_ex_iff)

lemma in_singleton: "in_class [(c, c)] d \<longleftrightarrow> d = c"
  by (auto simp: in_class_def code_def dest: le_antisym)

text \<open>A literal text, character by character.\<close>

lemma matches_literal:
  "matches_items (map (\<lambda>c. Item [(c, c)] 1 (Some 1)) p @ items) s \<longleftrightarrow>
     starts_with p s \<and> matches_items items (drop (length p) s)"
proof (induction p arbitrary: s)
  case (Cons c p)
  show ?case
    unfolding list.map append_Cons matches_one in_singleton Cons.IH starts_with_def by (cases s) auto
qed (simp add: starts_with_def)

text \<open>A class of ranges and single characters, as a condition on the character.\<close>

lemma range_one: "(code a \<le> code c \<and> code c \<le> code a) = (c = a)"
  by (auto simp: code_def dest: le_antisym)

lemma in_class_Cons: "in_class ((a, b) # cs) c \<longleftrightarrow> (code a \<le> code c \<and> code c \<le> code b) \<or> in_class cs c"
  by (simp add: in_class_def)

lemma in_class_Nil: "in_class [] c \<longleftrightarrow> False"
  by (simp add: in_class_def)

lemmas in_class_simps = in_class_Cons in_class_Nil range_one

end
