(* ===== verification/Fleet_Operations.thy ===== *)
theory Fleet_Operations
  imports Fleet_Audit Channel_Base "HOL-Library.Multiset"
begin

text \<open>
  What an agent may be told to do, \<open>fleet_manager/operations.py\<close>: the closed kinds of operation with
  their closed parameters, what an agent declared it can do, the receipt an agent gives, and
  \<open>OperationLedger\<close> as a record that its methods take and return. The contract document built from a
  receipt is in \<open>Fleet_Contracts\<close>.
\<close>

section \<open>The closed vocabulary\<close>

definition operation_refused :: "string \<Rightarrow> 'a res" where
  "operation_refused m = raise OperationRefused m"

text \<open>\<open>except ValueError as exc: raise OperationRefused(str(exc))\<close>.\<close>

definition as_refused :: "'a res \<Rightarrow> 'a res" where
  "as_refused m = mapErr is_value_error (\<lambda>e. Exn OperationRefused (exn_text e)) m"

definition shell_shaped :: "string list" where
  "shell_shaped =
     [''args'', ''argv'', ''bash'', ''cmd'', ''command'', ''commands'', ''entrypoint'', ''env'', ''environment'',
      ''exec'', ''script'', ''sh'', ''shell'', ''stdin'', ''stdout'']"

definition max_value :: nat where
  "max_value = 512"

definition is_reference :: "string \<Rightarrow> bool" where
  "is_reference s \<longleftrightarrow> dollar (\<lambda>t. starts_with ''ref:'' t \<and> identifier_body (drop 4 t)) s"

datatype operation_kind =
    ENSURE_IMAGE | CREATE_RUNNER | MARK_DRAIN | DESTROY_RUNNER | CANCEL_OR_TIMEOUT | OBSERVE_RUNNER
  | PROVE_CLEANUP | ROLLBACK_ADAPTER

fun operation_kind_value :: "operation_kind \<Rightarrow> string" where
  "operation_kind_value ENSURE_IMAGE = ''ensure_image''"
| "operation_kind_value CREATE_RUNNER = ''create_runner''"
| "operation_kind_value MARK_DRAIN = ''mark_drain''"
| "operation_kind_value DESTROY_RUNNER = ''destroy_runner''"
| "operation_kind_value CANCEL_OR_TIMEOUT = ''cancel_or_timeout''"
| "operation_kind_value OBSERVE_RUNNER = ''observe_runner''"
| "operation_kind_value PROVE_CLEANUP = ''prove_cleanup''"
| "operation_kind_value ROLLBACK_ADAPTER = ''rollback_adapter''"

datatype subject_kind = S_HOST | S_POOL | S_RUNNER

fun subject_kind_value :: "subject_kind \<Rightarrow> string" where
  "subject_kind_value S_HOST = ''host''"
| "subject_kind_value S_POOL = ''pool''"
| "subject_kind_value S_RUNNER = ''runner''"

datatype receipt_outcome = O_COMPLETED | O_FAILED | O_REJECTED

fun receipt_outcome_value :: "receipt_outcome \<Rightarrow> string" where
  "receipt_outcome_value O_COMPLETED = ''completed''"
| "receipt_outcome_value O_FAILED = ''failed''"
| "receipt_outcome_value O_REJECTED = ''rejected''"

definition read_only_kinds :: "operation_kind set" where
  "read_only_kinds = {OBSERVE_RUNNER, PROVE_CLEANUP}"

text \<open>The parameters of a kind: the required ones, and the optional ones.\<close>

fun kind_parameters :: "operation_kind \<Rightarrow> string list \<times> string list" where
  "kind_parameters ENSURE_IMAGE = ([''image_digest''], [])"
| "kind_parameters CREATE_RUNNER = ([''registration_ref'', ''runner_name'', ''pool_id''], [])"
| "kind_parameters MARK_DRAIN = ([''reason''], [])"
| "kind_parameters DESTROY_RUNNER = ([], [])"
| "kind_parameters CANCEL_OR_TIMEOUT = ([''reason''], [])"
| "kind_parameters OBSERVE_RUNNER = ([], [])"
| "kind_parameters PROVE_CLEANUP = ([], [])"
| "kind_parameters ROLLBACK_ADAPTER = ([''image_digest''], [])"

fun kind_subjects :: "operation_kind \<Rightarrow> subject_kind set" where
  "kind_subjects ENSURE_IMAGE = {S_HOST}"
| "kind_subjects CREATE_RUNNER = {S_RUNNER}"
| "kind_subjects MARK_DRAIN = {S_RUNNER, S_HOST}"
| "kind_subjects DESTROY_RUNNER = {S_RUNNER}"
| "kind_subjects CANCEL_OR_TIMEOUT = {S_RUNNER}"
| "kind_subjects OBSERVE_RUNNER = {S_RUNNER}"
| "kind_subjects PROVE_CLEANUP = {S_RUNNER}"
| "kind_subjects ROLLBACK_ADAPTER = {S_HOST}"

fun contract_operation :: "operation_kind \<Rightarrow> string option" where
  "contract_operation ENSURE_IMAGE = Some ''apply''"
| "contract_operation CREATE_RUNNER = Some ''assign''"
| "contract_operation MARK_DRAIN = Some ''drain''"
| "contract_operation DESTROY_RUNNER = Some ''release''"
| "contract_operation CANCEL_OR_TIMEOUT = Some ''release''"
| "contract_operation ROLLBACK_ADAPTER = Some ''apply''"
| "contract_operation OBSERVE_RUNNER = None"
| "contract_operation PROVE_CLEANUP = None"

section \<open>Parameters and operations\<close>

definition parameter_value :: "string \<Rightarrow> string \<Rightarrow> string res" where
  "parameter_value name v =
     (if v = [] then operation_refused (''operation.parameters['' @ name @ '']: must be a string'')
      else if length v > max_value
      then operation_refused (''operation.parameters['' @ name @ '']: exceeds 512 characters'')
      else if secret_shaped v
      then operation_refused (''operation.parameters['' @ name @ '']: looks like a credential value; ''
             @ ''an operation carries references, never secrets'')
      else Inr v)"

definition checked_value :: "string \<Rightarrow> string \<Rightarrow> string res" where
  "checked_value name v =
     (if name = ''image_digest'' \<and> \<not> is_digest v
      then operation_refused (''operation.parameters[image_digest]: must be an immutable ''
             @ ''sha256:<64 hex> digest'')
      else if name = ''registration_ref'' \<and> \<not> is_reference v
      then operation_refused (''operation.parameters[registration_ref]: must be an opaque ''
             @ [CHR 0x27] @ ''ref:<name>'' @ [CHR 0x27] @ '' reference, never the registration material itself'')
      else if name = ''pool_id'' then as_refused (identifier_of (PStr v) ''operation.parameters[pool_id]'')
      else if name = ''runner_name'' then as_refused (identifier_of (PStr v) ''operation.parameters[runner_name]'')
      else Inr v)"

record subject =
  sb_kind :: subject_kind
  sb_subject_id :: string

definition subject_make :: "subject_kind \<Rightarrow> string \<Rightarrow> subject res" where
  "subject_make k i =
     bindR (as_refused (identifier_of (PStr i) ''subject.subject_id'')) (\<lambda>s.
       Inr \<lparr>sb_kind = k, sb_subject_id = s\<rparr>)"

record operation =
  op_operation_key :: string
  op_host_id :: string
  op_kind :: operation_kind
  op_subject :: subject
  op_issued_at :: string
  op_parameters :: "(string \<times> string) list"

text \<open>One turn of the parameter loop: the name, then the value, then \<open>seen\<close> with both.\<close>

definition take_parameter ::
  "operation_kind \<Rightarrow> nat \<Rightarrow> string \<times> string \<Rightarrow> (string \<times> string) list \<Rightarrow> (string \<times> string) list res" where
  "take_parameter k i pair seen =
     (case pair of (name, v) \<Rightarrow>
        let w = ''operation.parameters['' @ nat_str i @ ''].'' @ name in
        if name \<in> set shell_shaped
        then operation_refused (w @ '': an operation has no command, script, or environment; host agents expose no ''
               @ ''remote shell'')
        else if name \<notin> set (fst (kind_parameters k)) \<and> name \<notin> set (snd (kind_parameters k))
        then operation_refused (w @ '': is not a parameter of '' @ operation_kind_value k)
        else if name \<in> fst ` set seen then operation_refused (w @ '': is given twice'')
        else bindR (parameter_value name v) (\<lambda>u. bindR (checked_value name u) (\<lambda>x. Inr (seen @ [(name, x)]))))"

fun take_parameters ::
  "operation_kind \<Rightarrow> nat \<Rightarrow> (string \<times> string) list \<Rightarrow> (string \<times> string) list \<Rightarrow> (string \<times> string) list res" where
  "take_parameters k i [] seen = Inr seen"
| "take_parameters k i (p # ps) seen =
     bindR (take_parameter k i p seen) (\<lambda>s. take_parameters k (Suc i) ps s)"

definition operation_make ::
  "string \<Rightarrow> string \<Rightarrow> operation_kind \<Rightarrow> subject \<Rightarrow> string \<Rightarrow> (string \<times> string) list \<Rightarrow> operation res" where
  "operation_make key host k sb issued ps =
     bindR (as_refused (request_id (PStr key) ''operation.operation_key'')) (\<lambda>_.
     bindR (as_refused (identifier_of (PStr host) ''operation.host_id'')) (\<lambda>_.
     bindR (if sb_kind sb \<notin> kind_subjects k
            then operation_refused (''operation.subject.kind: '' @ operation_kind_value k @ '' acts on ''
                   @ join '', '' (sorted_list_of_set (subject_kind_value ` kind_subjects k))
                   @ '', not '' @ subject_kind_value (sb_kind sb))
            else Inr ()) (\<lambda>_.
     bindR (as_refused (channel_timestamp (PStr issued) ''operation.issued_at'')) (\<lambda>_.
     bindR (take_parameters k 0 ps []) (\<lambda>seen.
     let missing = filter (\<lambda>n. n \<notin> fst ` set seen) (fst (kind_parameters k)) in
     if missing \<noteq> []
     then operation_refused (''operation.parameters: '' @ operation_kind_value k @ '' requires ''
            @ join '', '' missing)
     else Inr \<lparr>op_operation_key = key, op_host_id = host, op_kind = k, op_subject = sb, op_issued_at = issued,
               op_parameters = sort seen\<rparr>)))))"

definition op_parameter :: "operation \<Rightarrow> string \<Rightarrow> string option" where
  "op_parameter o' n = map_of (op_parameters o') n"

definition op_read_only :: "operation \<Rightarrow> bool" where
  "op_read_only o' \<longleftrightarrow> op_kind o' \<in> read_only_kinds"

section \<open>Capabilities\<close>

record capabilities =
  ca_adapters :: "runtime set"
  ca_operations :: "operation_kind set"
  ca_allow_cancel_or_timeout :: bool

definition permits :: "capabilities \<Rightarrow> operation_kind \<Rightarrow> bool" where
  "permits c k \<longleftrightarrow> k \<in> ca_operations c"

definition permit :: "operation \<Rightarrow> capabilities \<Rightarrow> unit res" where
  "permit o' c =
     (if ca_adapters c = {}
      then operation_refused (''permit: the agent has no runtime adapter installed; it may not be given work'')
      else if \<not> permits c (op_kind o')
      then operation_refused (''permit: '' @ operation_kind_value (op_kind o')
             @ '' is not in this agent'' @ [CHR 0x27] @ ''s allowlist'')
      else if op_kind o' = CANCEL_OR_TIMEOUT \<and> \<not> ca_allow_cancel_or_timeout c
      then operation_refused (''permit: cancel_or_timeout is refused without the explicit policy that authorizes it'')
      else Inr ())"

section \<open>Receipts\<close>

record evidence =
  ev_digest :: string
  ev_location :: string

definition evidence_make :: "string \<Rightarrow> string \<Rightarrow> evidence res" where
  "evidence_make d l =
     (if \<not> is_digest d then operation_refused ''evidence.digest: must be sha256:<64 hex>''
      else if l = [] then operation_refused ''evidence.location: must be a non-empty string''
      else if length l > max_value then operation_refused ''evidence.location: exceeds 512 characters''
      else Inr \<lparr>ev_digest = d, ev_location = l\<rparr>)"

definition operation_evidence_document :: "evidence \<Rightarrow> pyval" where
  "operation_evidence_document e = PDict [(''digest'', PStr (ev_digest e)), (''location'', PStr (ev_location e))]"

record agent_receipt =
  rt_operation_key :: string
  rt_host_id :: string
  rt_outcome :: receipt_outcome
  rt_finished_at :: string
  rt_evidence :: "evidence option"
  rt_detail :: "string option"

definition check_detail :: "string option \<Rightarrow> unit res" where
  "check_detail d =
     (case d of
        None \<Rightarrow> Inr ()
      | Some t \<Rightarrow>
          if t = [] then operation_refused ''receipt.detail: must be a non-empty string''
          else if length t > max_value then operation_refused ''receipt.detail: exceeds 512 characters''
          else if secret_shaped t
          then operation_refused (''receipt.detail: looks like a credential value; a receipt ''
                 @ ''carries references, never secrets'')
          else Inr ())"

definition receipt_make :: "agent_receipt \<Rightarrow> agent_receipt res" where
  "receipt_make r =
     bindR (as_refused (bindR (request_id (PStr (rt_operation_key r)) ''receipt.operation_key'') (\<lambda>_.
              identifier_of (PStr (rt_host_id r)) ''receipt.host_id''))) (\<lambda>_.
     bindR (as_refused (channel_timestamp (PStr (rt_finished_at r)) ''receipt.finished_at'')) (\<lambda>_.
     bindR (if rt_outcome r = O_COMPLETED \<and> rt_evidence r = None
            then operation_refused (''receipt.evidence: a completion without evidence is not a receipt'')
            else Inr ()) (\<lambda>_.
     bindR (check_detail (rt_detail r)) (\<lambda>_. Inr r))))"

section \<open>The ledger\<close>

record operation_ledger =
  ol_issued :: "string \<rightharpoonup> operation"
  ol_receipts :: "string \<rightharpoonup> agent_receipt"

definition ledger_init :: operation_ledger where
  "ledger_init = \<lparr>ol_issued = Map.empty, ol_receipts = Map.empty\<rparr>"

definition ol_issue ::
  "operation_ledger \<Rightarrow> operation \<Rightarrow> capabilities \<Rightarrow> (operation_ledger \<times> operation) res" where
  "ol_issue l o' c =
     bindR (permit o' c) (\<lambda>_.
       case ol_issued l (op_operation_key o') of
         Some existing \<Rightarrow>
           if existing \<noteq> o'
           then operation_refused (''ledger.issue: this operation key was already issued for ''
                  @ ''different work; a key cannot be widened'')
           else Inr (l, existing)
       | None \<Rightarrow> Inr (l\<lparr>ol_issued := (ol_issued l)(op_operation_key o' \<mapsto> o')\<rparr>, o'))"

definition issued_operation :: "operation_ledger \<Rightarrow> string \<Rightarrow> operation res" where
  "issued_operation l k =
     (case ol_issued l k of
        None \<Rightarrow> operation_refused ''ledger: no operation was issued under this key''
      | Some o' \<Rightarrow> Inr o')"

definition ol_record :: "operation_ledger \<Rightarrow> agent_receipt \<Rightarrow> (operation_ledger \<times> agent_receipt) res" where
  "ol_record l r =
     bindR (issued_operation l (rt_operation_key r)) (\<lambda>o'.
       if op_read_only o'
       then operation_refused (''ledger.record: '' @ operation_kind_value (op_kind o')
              @ '' changes nothing, so there is nothing to attest'')
       else if rt_host_id r \<noteq> op_host_id o'
       then operation_refused (''ledger.record: the receipt is from a different host than the ''
              @ ''operation was issued to'')
       else case ol_receipts l (rt_operation_key r) of
         Some existing \<Rightarrow>
           if existing \<noteq> r
           then operation_refused (''ledger.record: this operation already has a receipt, and this ''
                  @ ''one says something different; the first answer is the answer'')
           else Inr (l, existing)
       | None \<Rightarrow> Inr (l\<lparr>ol_receipts := (ol_receipts l)(rt_operation_key r \<mapsto> r)\<rparr>, r))"

definition recorded_receipt :: "operation_ledger \<Rightarrow> string \<Rightarrow> agent_receipt res" where
  "recorded_receipt l k =
     (case ol_receipts l k of
        None \<Rightarrow> operation_refused ''ledger: no receipt was recorded for this key''
      | Some r \<Rightarrow> Inr r)"

section \<open>What the constructors accept\<close>

definition value_allowed :: "string \<Rightarrow> string \<Rightarrow> bool" where
  "value_allowed n v \<longleftrightarrow>
     v \<noteq> [] \<and> length v \<le> max_value \<and> \<not> secret_shaped v
     \<and> (n = ''image_digest'' \<longrightarrow> is_digest v) \<and> (n = ''registration_ref'' \<longrightarrow> is_reference v)
     \<and> (n \<in> {''pool_id'', ''runner_name''} \<longrightarrow> is_identifier v)"

definition operation_ok :: "operation \<Rightarrow> bool" where
  "operation_ok o' \<longleftrightarrow>
     is_request_id (op_operation_key o') \<and> is_identifier (op_host_id o')
     \<and> sb_kind (op_subject o') \<in> kind_subjects (op_kind o') \<and> chan_us (op_issued_at o') \<noteq> None
     \<and> map fst (op_parameters o') = sort (fst (kind_parameters (op_kind o')))
     \<and> (\<forall>(n, v) \<in> set (op_parameters o'). value_allowed n v)"

definition receipt_ok :: "agent_receipt \<Rightarrow> bool" where
  "receipt_ok r \<longleftrightarrow>
     is_request_id (rt_operation_key r) \<and> is_identifier (rt_host_id r) \<and> chan_us (rt_finished_at r) \<noteq> None
     \<and> (rt_outcome r = O_COMPLETED \<longrightarrow> rt_evidence r \<noteq> None)
     \<and> (\<forall>d. rt_detail r = Some d \<longrightarrow> d \<noteq> [] \<and> length d \<le> max_value \<and> \<not> secret_shaped d)"

lemma operation_refused_Inr [simp]: "operation_refused m \<noteq> Inr a" "Inr a \<noteq> operation_refused m"
    "bindR (operation_refused m) f = operation_refused m"
  by (simp_all add: operation_refused_def)

lemma as_refused_ok [simp]: "as_refused m = Inr a \<longleftrightarrow> m = Inr a"
  by (simp add: as_refused_def mapErr_Inr_iff)

lemma channel_timestamp_some: "(\<exists>d. channel_timestamp (PStr s) w = Inr d) \<longleftrightarrow> chan_us s \<noteq> None"
  by (auto simp: channel_timestamp_ok chan_us_def split: option.splits)

lemma checked_parameter_ok:
  "bindR (parameter_value n v) (checked_value n) = Inr x \<longleftrightarrow> x = v \<and> value_allowed n v"
  by (auto simp: parameter_value_def checked_value_def value_allowed_def scalar_ok)

lemma take_parameter_ok: "take_parameter k i (n, v) seen = Inr r \<longleftrightarrow>
    r = seen @ [(n, v)] \<and> n \<notin> set shell_shaped \<and> n \<in> set (fst (kind_parameters k)) \<union> set (snd (kind_parameters k))
    \<and> n \<notin> fst ` set seen \<and> value_allowed n v"
proof -
  have "bindR (parameter_value n v) (\<lambda>u. bindR (checked_value n u) (\<lambda>x. Inr (seen @ [(n, x)]))) = Inr r \<longleftrightarrow>
      r = seen @ [(n, v)] \<and> value_allowed n v"
    using checked_parameter_ok [of n v] by (auto simp: bindR_Inr_iff)
  then show ?thesis by (auto simp: take_parameter_def Let_def)
qed

lemma take_parameters_ok:
  "distinct (map fst seen) \<Longrightarrow> take_parameters k i ps seen = Inr r \<longleftrightarrow>
     r = seen @ ps \<and> distinct (map fst (seen @ ps))
     \<and> (\<forall>(n, v) \<in> set ps. n \<notin> set shell_shaped
          \<and> n \<in> set (fst (kind_parameters k)) \<union> set (snd (kind_parameters k)) \<and> value_allowed n v)"
proof (induction ps arbitrary: i seen)
  case (Cons p ps)
  obtain n v where p: "p = (n, v)" by (cases p)
  show ?case
  proof (cases "n \<in> fst ` set seen")
    case True
    then show ?thesis unfolding p by (auto simp: bindR_Inr_iff take_parameter_ok)
  next
    case False
    then have "distinct (map fst (seen @ [(n, v)]))" using Cons.prems by auto
    from Cons.IH [OF this] show ?thesis unfolding p by (auto simp: bindR_Inr_iff take_parameter_ok)
  qed
qed auto

text \<open>Sorting pairs with distinct first components sorts the components.\<close>

lemma map_fst_sort: "map fst (sort ps) = sort (map fst ps)" for ps :: "('a::linorder \<times> 'b::linorder) list"
proof -
  have "sorted (map fst (sort ps))"
    unfolding sorted_map by (rule sorted_wrt_mono_rel [OF _ sorted_sort]) (auto simp: less_eq_prod_def)
  moreover have "mset (map fst (sort ps)) = mset (map fst ps)" by simp
  ultimately show ?thesis by (metis properties_for_sort)
qed

lemma kind_parameters_closed: "distinct (fst (kind_parameters k))" "snd (kind_parameters k) = []"
    "set (fst (kind_parameters k)) \<inter> set shell_shaped = {}"
  by (cases k; simp add: shell_shaped_def)+

lemma required_given:
  assumes "map fst (sort ps) = sort ns" and "distinct ns"
  shows "distinct (map fst ps)" and "set (map fst ps) = set ns"
proof -
  have "mset (map fst ps) = mset ns" using arg_cong [OF assms(1), of mset] by (simp add: map_fst_sort)
  then show "distinct (map fst ps)" "set (map fst ps) = set ns"
    using assms(2) by (metis distinct_count_atmost_1 set_mset_mset)+
qed

text \<open>
  An operation is exactly a typed instruction. The constructor succeeds if and only if the key, the
  host, the stamp and the subject's kind are acceptable, the parameters are the required ones of the
  kind, each given once, and every value is non-empty, short, not shaped like a secret and of the form
  its name asks for; it then stores what it was given, with the parameters sorted. None of the names of
  any kind is one that could carry a command.
\<close>

theorem operation_make_iff:
  "(operation_make key host k sb issued ps = Inr o' \<longleftrightarrow>
     o' = \<lparr>op_operation_key = key, op_host_id = host, op_kind = k, op_subject = sb, op_issued_at = issued,
           op_parameters = sort ps\<rparr> \<and> operation_ok o')
   \<and> set (fst (kind_parameters k)) \<inter> set shell_shaped = {}"
proof -
  let ?o = "\<lparr>op_operation_key = key, op_host_id = host, op_kind = k, op_subject = sb, op_issued_at = issued,
           op_parameters = sort ps\<rparr>"
  let ?req = "fst (kind_parameters k)"
  note closed = kind_parameters_closed [of k]
  have names: "distinct (map fst ps) \<and> (\<forall>(n, v) \<in> set ps. n \<notin> set shell_shaped \<and> n \<in> set ?req \<and> value_allowed n v)
        \<and> filter (\<lambda>n. n \<notin> fst ` set ps) ?req = []
      \<longleftrightarrow> map fst (sort ps) = sort ?req \<and> (\<forall>(n, v) \<in> set (sort ps). value_allowed n v)" (is "?l \<longleftrightarrow> ?r")
  proof
    assume l: ?l
    then have "set (map fst ps) = set ?req" by (force simp: filter_empty_conv)
    then have "sort (map fst ps) = sort ?req"
      using l closed(1) by (intro sorted_distinct_set_unique) simp_all
    then have "map fst (sort ps) = sort ?req" by (simp only: map_fst_sort)
    then show ?r using l by auto
  next
    assume r: ?r
    then show ?l using required_given [of ps ?req] closed by (force simp: filter_empty_conv)
  qed
  define stored where "stored = sort ps"
  have taken: "take_parameters k 0 ps [] = Inr seen \<longleftrightarrow> seen = ps \<and> distinct (map fst ps)
      \<and> (\<forall>(n, v) \<in> set ps. n \<notin> set shell_shaped \<and> n \<in> set ?req \<and> value_allowed n v)" for seen
    using take_parameters_ok [of "[]" k 0 ps seen] closed(2) by simp
  have "operation_make key host k sb issued ps = Inr o' \<longleftrightarrow>
      o' = ?o \<and> is_request_id key \<and> is_identifier host \<and> sb_kind sb \<in> kind_subjects k \<and> chan_us issued \<noteq> None
      \<and> map fst stored = sort ?req \<and> (\<forall>(n, v) \<in> set stored. value_allowed n v)"
    unfolding stored_def names [symmetric] channel_timestamp_some [where w = "''operation.issued_at''", symmetric]
    unfolding operation_make_def bindR_Inr_iff taken as_refused_ok scalar_ok Let_def
    by (auto simp del: filter_False)
  then show ?thesis using closed(3) by (auto simp: operation_ok_def stored_def)
qed

section \<open>What the ledger guarantees\<close>

text \<open>Every call that may change the ledger, on operations and receipts that could be constructed.\<close>

inductive ol_step :: "operation_ledger \<Rightarrow> operation_ledger \<Rightarrow> bool" where
  issued: "operation_ok o' \<Longrightarrow> ol_issue l o' c = Inr (m, x) \<Longrightarrow> ol_step l m"
| recorded: "receipt_ok r \<Longrightarrow> ol_record l r = Inr (m, x) \<Longrightarrow> ol_step l m"

definition permitted :: "operation \<Rightarrow> capabilities \<Rightarrow> bool" where
  "permitted o' c \<longleftrightarrow> ca_adapters c \<noteq> {} \<and> op_kind o' \<in> ca_operations c
     \<and> (op_kind o' = CANCEL_OR_TIMEOUT \<longrightarrow> ca_allow_cancel_or_timeout c)"

lemma permit_ok: "permit o' c = Inr u \<longleftrightarrow> permitted o' c"
  by (auto simp: permit_def permitted_def permits_def)

lemma ol_issue_ok: "ol_issue l o' c = Inr (m, x) \<longleftrightarrow> permitted o' c \<and> x = o'
    \<and> (case ol_issued l (op_operation_key o') of
         None \<Rightarrow> m = l\<lparr>ol_issued := (ol_issued l)(op_operation_key o' \<mapsto> o')\<rparr>
       | Some e \<Rightarrow> e = o' \<and> m = l)"
  by (auto simp: ol_issue_def bindR_Inr_iff permit_ok split: option.splits if_splits)

text \<open>When a receipt answers an operation: it is a mutation, and the host is the operation's.\<close>

definition answers_to :: "agent_receipt \<Rightarrow> operation \<Rightarrow> bool" where
  "answers_to r o' \<longleftrightarrow> \<not> op_read_only o' \<and> rt_host_id r = op_host_id o'"

lemma ol_record_ok: "ol_record l r = Inr (m, x) \<longleftrightarrow> x = r
    \<and> (\<exists>o'. ol_issued l (rt_operation_key r) = Some o' \<and> answers_to r o')
    \<and> (case ol_receipts l (rt_operation_key r) of
         None \<Rightarrow> m = l\<lparr>ol_receipts := (ol_receipts l)(rt_operation_key r \<mapsto> r)\<rparr>
       | Some e \<Rightarrow> e = r \<and> m = l)"
  by (auto simp: ol_record_def issued_operation_def bindR_Inr_iff answers_to_def split: option.splits if_splits)

definition operation_ledger_ok :: "operation_ledger \<Rightarrow> bool" where
  "operation_ledger_ok l \<longleftrightarrow>
     (\<forall>k o'. ol_issued l k = Some o' \<longrightarrow> op_operation_key o' = k \<and> operation_ok o')
     \<and> (\<forall>k r. ol_receipts l k = Some r \<longrightarrow> rt_operation_key r = k \<and> receipt_ok r
          \<and> (\<exists>o'. ol_issued l k = Some o' \<and> answers_to r o'))"

text \<open>Filing an operation under a free key, or a receipt for an operation that was issued.\<close>

lemma file_operation_ok:
  assumes "operation_ledger_ok l" and "ol_issued l (op_operation_key o') = None" and "operation_ok o'"
  shows "operation_ledger_ok (l\<lparr>ol_issued := (ol_issued l)(op_operation_key o' \<mapsto> o')\<rparr>)"
  using assms by (fastforce simp: operation_ledger_ok_def)

lemma file_receipt_ok:
  assumes "operation_ledger_ok l" and "ol_issued l (rt_operation_key r) = Some o'" and "answers_to r o'" and "receipt_ok r"
  shows "operation_ledger_ok (l\<lparr>ol_receipts := (ol_receipts l)(rt_operation_key r \<mapsto> r)\<rparr>)"
  using assms by (fastforce simp: operation_ledger_ok_def)

lemma ol_step_ok: "ol_step l m \<Longrightarrow> operation_ledger_ok l \<Longrightarrow> operation_ledger_ok m"
proof (induction rule: ol_step.induct)
  case (issued o' l c m x)
  then show ?case by (cases "ol_issued l (op_operation_key o')") (simp_all add: ol_issue_ok file_operation_ok)
next
  case (recorded r l m x)
  then show ?case
    by (cases "ol_receipts l (rt_operation_key r)") (auto simp only: ol_record_ok option.case intro: file_receipt_ok)
qed

lemma ol_step_grows: "ol_step l m \<Longrightarrow> ol_issued l \<subseteq>\<^sub>m ol_issued m \<and> ol_receipts l \<subseteq>\<^sub>m ol_receipts m"
  by (induction rule: ol_step.induct)
    (auto simp: ol_issue_ok ol_record_ok map_le_def split: option.splits)

interpretation issues: write_once ol_issued "\<lambda>l o' m. \<exists>c x. ol_issue l o' c = Inr (m, x)" op_operation_key ol_step
  by unfold_locales (auto simp: ol_issue_ok dest: ol_step_grows split: option.splits)

interpretation receipts: write_once ol_receipts "\<lambda>l r m. \<exists>x. ol_record l r = Inr (m, x)" rt_operation_key ol_step
  by unfold_locales (auto simp: ol_record_ok dest: ol_step_grows split: option.splits)

interpretation ledger: invariant_system ol_step operation_ledger_ok
  by unfold_locales (rule ol_step_ok)

section \<open>The ledger as a board of work\<close>

text \<open>
  What the ledger promises, without its two dictionaries: a board that shows under a key the work and
  the answer to it, if there is one. Work is put up once, an answer is given once, and both can be
  repeated without effect.
\<close>

type_synonym work_board = "string \<rightharpoonup> operation \<times> agent_receipt option"

definition board :: "operation_ledger \<Rightarrow> work_board" where
  "board l = (\<lambda>k. map_option (\<lambda>o'. (o', ol_receipts l k)) (ol_issued l k))"

definition put_up :: "work_board \<Rightarrow> operation \<Rightarrow> work_board option" where
  "put_up b o' =
     (case b (op_operation_key o') of
        None \<Rightarrow> Some (b(op_operation_key o' \<mapsto> (o', None)))
      | Some (e, answer) \<Rightarrow> if e = o' then Some b else None)"

definition settle :: "work_board \<Rightarrow> agent_receipt \<Rightarrow> work_board option" where
  "settle b r =
     (case b (rt_operation_key r) of
        Some (o', answer) \<Rightarrow>
          if answers_to r o' \<and> answer \<in> {None, Some r}
          then Some (b(rt_operation_key r \<mapsto> (o', Some r))) else None
      | None \<Rightarrow> None)"

lemma board_at: "board l k = map_option (\<lambda>o'. (o', ol_receipts l k)) (ol_issued l k)"
  by (simp add: board_def)

lemma board_issue:
  assumes "operation_ledger_ok l" and "ol_issued l (op_operation_key o') = None"
  shows "board (l\<lparr>ol_issued := (ol_issued l)(op_operation_key o' \<mapsto> o')\<rparr>) = (board l)(op_operation_key o' \<mapsto> (o', None))"
proof -
  have "ol_receipts l (op_operation_key o') = None"
    using assms unfolding operation_ledger_ok_def by (metis not_None_eq)
  then show ?thesis by (simp add: fun_eq_iff board_at)
qed

lemma board_record:
  assumes "ol_issued l (rt_operation_key r) = Some o'"
  shows "board (l\<lparr>ol_receipts := (ol_receipts l)(rt_operation_key r \<mapsto> r)\<rparr>) = (board l)(rt_operation_key r \<mapsto> (o', Some r))"
  using assms by (simp add: fun_eq_iff board_at)

lemma issue_refines:
  assumes "operation_ledger_ok l"
  shows "map_option (board \<circ> fst) (answer_of (ol_issue l o' c)) = (if permitted o' c then put_up (board l) o' else None)"
proof (cases "permitted o' c")
  case True
  then have "permit o' c = Inr ()" by (simp add: permit_ok)
  then show ?thesis
    using True assms
    by (cases "ol_issued l (op_operation_key o')")
      (simp_all add: ol_issue_def put_up_def board_at board_issue operation_refused_def)
next
  case False
  then have "answer_of (ol_issue l o' c) = None"
    using ol_issue_ok [of l o' c] by (cases "ol_issue l o' c") auto
  then show ?thesis using False by simp
qed

lemma record_refines: "map_option (board \<circ> fst) (answer_of (ol_record l r)) = settle (board l) r"
proof (cases "ol_issued l (rt_operation_key r)")
  case None
  then show ?thesis
    by (simp add: ol_record_def issued_operation_def settle_def board_at operation_refused_def raise_def)
next
  case (Some o')
  show ?thesis
  proof (cases "answers_to r o'")
    case False
    then show ?thesis using Some
      by (auto simp: ol_record_def issued_operation_def settle_def board_at operation_refused_def answers_to_def)
  next
    case True
    have same: "(board l)(rt_operation_key r \<mapsto> (o', Some r)) = board l" if "ol_receipts l (rt_operation_key r) = Some r"
      using that Some by (simp add: fun_eq_iff board_at)
    show ?thesis using True Some same
      by (cases "ol_receipts l (rt_operation_key r)")
        (auto simp: ol_record_def issued_operation_def settle_def board_at operation_refused_def answers_to_def board_record)
  qed
qed

text \<open>
  C16: the ledger implements the board. On every ledger that satisfies the invariant, issuing an
  operation puts the work up exactly when the agent declared that it may do it, and recording a
  receipt settles the work, with the same refusals: different work under a known key, no such work,
  work of another host, work that changes nothing, and a second answer that differs from the first.
\<close>

theorem ledger_refines_board:
  assumes "operation_ledger_ok l"
  shows "map_option (board \<circ> fst) (answer_of (ol_issue l o' c)) =
           (if ca_adapters c \<noteq> {} \<and> op_kind o' \<in> ca_operations c
               \<and> (op_kind o' = CANCEL_OR_TIMEOUT \<longrightarrow> ca_allow_cancel_or_timeout c)
            then put_up (board l) o' else None)
         \<and> map_option (board \<circ> fst) (answer_of (ol_record l r)) = settle (board l) r"
  using issue_refines [OF assms, of o' c] record_refines [of l r] unfolding permitted_def by (rule conjI)

text \<open>
  C17: the first answer is the answer. Once a receipt has been recorded, then after any calls that issue
  operations or record receipts the receipt under its key is that one, every other receipt for the key
  is refused, and the work it answers is a mutation that was issued to the receipt's host; a completion
  always carries evidence.
\<close>

theorem first_receipt_stands:
  assumes "operation_ledger_ok l" and "receipt_ok r" and "ol_record l r = Inr (m, x)" and "ol_step\<^sup>*\<^sup>* m n"
  shows "recorded_receipt n (rt_operation_key r) = Inr r
     \<and> (\<forall>s. rt_operation_key s = rt_operation_key r \<and> s \<noteq> r \<longrightarrow> (\<exists>e. ol_record n s = Inl e))
     \<and> (\<exists>o'. issued_operation n (rt_operation_key r) = Inr o' \<and> op_kind o' \<notin> read_only_kinds
          \<and> op_host_id o' = rt_host_id r)
     \<and> (rt_outcome r = O_COMPLETED \<longrightarrow> rt_evidence r \<noteq> None)"
proof -
  have put: "\<exists>x. ol_record l r = Inr (m, x)" using assms(3) by blast
  have ok: "operation_ledger_ok n"
    using ledger.reachable_keeps [OF assms(4)] ol_step_ok [OF ol_step.recorded [OF assms(2,3)] assms(1)] .
  have there: "ol_receipts n (rt_operation_key r) = Some r" by (rule receipts.put_stays [OF put assms(4)])
  have "\<exists>e. ol_record n s = Inl e" if "rt_operation_key s = rt_operation_key r" "s \<noteq> r" for s
    using receipts.only_answer [OF put assms(4), of s] that by (cases "ol_record n s") auto
  moreover obtain o' where "ol_issued n (rt_operation_key r) = Some o'" "answers_to r o'"
    using ok there unfolding operation_ledger_ok_def by blast
  ultimately show ?thesis
    using there assms(2)
    by (auto simp: recorded_receipt_def issued_operation_def answers_to_def op_read_only_def receipt_ok_def)
qed

end
