(* ===== verification/Fleet_Contracts.thy ===== *)
theory Fleet_Contracts
  imports Schema_Reference Fleet_Operations
begin

text \<open>
  The cross-boundary documents, \<open>fleet_manager/contracts.py\<close>, over the checker of \<open>Py_Schema\<close>, and the
  document \<open>OperationLedger.authoritative_receipt\<close> builds. The three schemas are the JSON files under
  \<open>contracts/v1\<close> without the titles and descriptions, which the checker does not read. The wall clock
  of \<open>_utc_now\<close> and the directory of the schemas are arguments. The long dashes of the messages are
  written with two hyphens.
\<close>

section \<open>The schemas\<close>

definition capacity_request_schema :: pyval where
  "capacity_request_schema = PDict
     [(''type'', PStr ''object''),
      (''additionalProperties'', PBool False),
      (''required'', PList [PStr ''contract_version'',
         PStr ''request_id'', PStr ''created_at'', PStr ''repository'',
         PStr ''workflow'', PStr ''runner'', PStr ''demand'']),
      (''properties'', PDict
       [(''contract_version'', PDict [(''const'', PInt 1)]),
        (''request_id'', PDict
         [(''type'', PStr ''string''),
          (''pattern'', PStr ''^[A-Za-z0-9][A-Za-z0-9._:-]{0,127}$'')]),
        (''created_at'', PDict [(''type'', PStr ''string''), (''format'', PStr ''date-time'')]),
        (''repository'', PDict
         [(''type'', PStr ''string''),
          (''pattern'', PStr ''^[A-Za-z0-9_.-]+/[A-Za-z0-9_.-]+$'')]),
        (''workflow'', PDict
         [(''type'', PStr ''object''),
          (''additionalProperties'', PBool False),
          (''required'', PList [PStr ''name'', PStr ''ref'', PStr ''event'']),
          (''properties'', PDict
           [(''name'', PDict [(''type'', PStr ''string''), (''minLength'', PInt 1), (''maxLength'', PInt 256)]),
            (''ref'', PDict [(''type'', PStr ''string''), (''minLength'', PInt 1), (''maxLength'', PInt 256)]),
            (''event'', PDict [(''type'', PStr ''string''), (''minLength'', PInt 1), (''maxLength'', PInt 64)])])]),
        (''runner'', PDict
         [(''type'', PStr ''object''),
          (''additionalProperties'', PBool False),
          (''required'', PList [PStr ''labels'', PStr ''trust_class'']),
          (''properties'', PDict
           [(''labels'', PDict
             [(''type'', PStr ''array''),
              (''minItems'', PInt 1),
              (''maxItems'', PInt 32),
              (''items'', PDict
               [(''type'', PStr ''string''),
                (''pattern'', PStr ''^[A-Za-z0-9][A-Za-z0-9._-]{0,63}$'')])]),
            (''trust_class'', PDict [(''enum'', PList [PStr ''public'', PStr ''private'', PStr ''isolated''])])])]),
        (''demand'', PDict
         [(''type'', PStr ''object''),
          (''additionalProperties'', PBool False),
          (''required'', PList [PStr ''concurrency'', PStr ''timeout_minutes'', PStr ''ephemeral'']),
          (''properties'', PDict
           [(''concurrency'', PDict [(''type'', PStr ''integer''), (''minimum'', PInt 1)]),
            (''timeout_minutes'', PDict [(''type'', PStr ''integer''), (''minimum'', PInt 1)]),
            (''ephemeral'', PDict [(''const'', PBool True)])])])])]"

definition capacity_decision_schema :: pyval where
  "capacity_decision_schema = PDict
     [(''type'', PStr ''object''),
      (''additionalProperties'', PBool False),
      (''required'', PList [PStr ''contract_version'',
         PStr ''request_id'', PStr ''decided_at'',
         PStr ''outcome'']),
      (''properties'', PDict
       [(''contract_version'', PDict [(''const'', PInt 1)]),
        (''request_id'', PDict
         [(''type'', PStr ''string''),
          (''pattern'', PStr ''^[A-Za-z0-9][A-Za-z0-9._:-]{0,127}$'')]),
        (''decided_at'', PDict [(''type'', PStr ''string''), (''format'', PStr ''date-time'')]),
        (''outcome'', PDict
         [(''enum'', PList [PStr ''assigned'', PStr ''queued'', PStr ''refused'', PStr ''unavailable''])]),
        (''assignment'', PDict
         [(''type'', PStr ''object''),
          (''additionalProperties'', PBool False),
          (''required'', PList [PStr ''assignment_id'', PStr ''pool'', PStr ''host'']),
          (''properties'', PDict
           [(''assignment_id'', PDict
             [(''type'', PStr ''string''),
              (''pattern'', PStr ''^[A-Za-z0-9][A-Za-z0-9._:-]{0,127}$'')]),
            (''pool'', PDict [(''type'', PStr ''string''), (''minLength'', PInt 1), (''maxLength'', PInt 128)]),
            (''host'', PDict [(''type'', PStr ''string''), (''minLength'', PInt 1), (''maxLength'', PInt 128)]),
            (''runner_image'', PDict [(''type'', PStr ''string''), (''minLength'', PInt 1), (''maxLength'', PInt 512)])])]),
        (''reason'', PDict
         [(''type'', PStr ''object''),
          (''additionalProperties'', PBool False),
          (''required'', PList [PStr ''code'', PStr ''detail'']),
          (''properties'', PDict
           [(''code'', PDict
             [(''enum'', PList [PStr ''capacity'', PStr ''policy'', PStr ''trust_class'', PStr ''unknown_repository'', PStr ''invalid_request'', PStr ''fleet_unavailable''])]),
            (''detail'', PDict [(''type'', PStr ''string''), (''minLength'', PInt 1), (''maxLength'', PInt 512)])])])])]"

definition operation_receipt_schema :: pyval where
  "operation_receipt_schema = PDict
     [(''type'', PStr ''object''),
      (''additionalProperties'', PBool False),
      (''required'', PList [PStr ''contract_version'',
         PStr ''receipt_id'', PStr ''issued_at'', PStr ''subject'', PStr ''operation'',
         PStr ''outcome'', PStr ''actor'']),
      (''properties'', PDict
       [(''contract_version'', PDict [(''const'', PInt 1)]),
        (''receipt_id'', PDict
         [(''type'', PStr ''string''),
          (''pattern'', PStr ''^[A-Za-z0-9][A-Za-z0-9._:-]{0,127}$'')]),
        (''issued_at'', PDict [(''type'', PStr ''string''), (''format'', PStr ''date-time'')]),
        (''subject'', PDict
         [(''type'', PStr ''object''),
          (''additionalProperties'', PBool False),
          (''required'', PList [PStr ''kind'', PStr ''id'']),
          (''properties'', PDict
           [(''kind'', PDict
             [(''enum'', PList [PStr ''host'', PStr ''runner'', PStr ''pool'', PStr ''assignment'', PStr ''desired_state''])]),
            (''id'', PDict [(''type'', PStr ''string''), (''minLength'', PInt 1), (''maxLength'', PInt 128)])])]),
        (''operation'', PDict
         [(''enum'', PList [PStr ''enroll'', PStr ''assign'', PStr ''release'', PStr ''drain'', PStr ''apply'', PStr ''revoke''])]),
        (''outcome'', PDict [(''enum'', PList [PStr ''completed'', PStr ''failed'', PStr ''rejected''])]),
        (''actor'', PDict
         [(''type'', PStr ''object''),
          (''additionalProperties'', PBool False),
          (''required'', PList [PStr ''kind'', PStr ''id'']),
          (''properties'', PDict
           [(''kind'', PDict [(''enum'', PList [PStr ''system'', PStr ''operator'', PStr ''host_agent''])]),
            (''id'', PDict [(''type'', PStr ''string''), (''minLength'', PInt 1), (''maxLength'', PInt 128)])])]),
        (''evidence'', PDict
         [(''type'', PStr ''object''),
          (''additionalProperties'', PBool False),
          (''required'', PList [PStr ''digest'', PStr ''location'']),
          (''properties'', PDict
           [(''digest'', PDict [(''type'', PStr ''string''), (''pattern'', PStr ''^sha256:[0-9a-f]{64}$'')]),
            (''location'', PDict [(''type'', PStr ''string''), (''minLength'', PInt 1), (''maxLength'', PInt 512)])])]),
        (''detail'', PDict [(''type'', PStr ''string''), (''maxLength'', PInt 512)])])]"

section \<open>Versions and rules\<close>

definition contract_version :: int where
  "contract_version = 1"

definition schema_files :: "(string \<times> string) list" where
  "schema_files =
     [(''capacity_request'', ''capacity-request.schema.json''),
      (''capacity_decision'', ''capacity-decision.schema.json''),
      (''operation_receipt'', ''operation-receipt.schema.json'')]"

definition terminal_outcomes :: "string list" where
  "terminal_outcomes = [''assigned'', ''queued'', ''refused'', ''unavailable'']"

definition contract_error :: "string \<Rightarrow> 'a res" where
  "contract_error m = raise ContractError m"

definition unknown_kind :: "string \<Rightarrow> 'a res" where
  "unknown_kind kind =
     contract_error (''unknown contract kind '' @ py_repr kind @ ''; known: ''
       @ ''['' @ join '', '' (map py_repr (sort (map fst schema_files))) @ '']'')"

definition load_schema :: "string \<Rightarrow> pyval res" where
  "load_schema kind =
     (if kind = ''capacity_request'' then Inr capacity_request_schema
      else if kind = ''capacity_decision'' then Inr capacity_decision_schema
      else if kind = ''operation_receipt'' then Inr operation_receipt_schema
      else unknown_kind kind)"

text \<open>How deep the interpreter's stack goes; \<open>contract_validate_decides\<close> shows that a
  document needs more only where it is printed.\<close>

definition stack_depth :: nat where
  "stack_depth = 900"

definition unsupported_version :: "pyval \<Rightarrow> 'a res" where
  "unsupported_version found =
     (if found = PNone
      then contract_error (''missing contract_version -- every cross-boundary document carries one (this build implements ''
             @ int_str contract_version @ '')'')
      else bindR (value_repr stack_depth found) (\<lambda>t.
           contract_error (''contract_version '' @ t @ '' is not supported by this build (implements ''
             @ int_str contract_version @ '')'')))"

definition check_version :: "pyval \<Rightarrow> int res" where
  "check_version doc =
     (let version = (case doc of PDict d \<Rightarrow> py_get d ''contract_version'' | _ \<Rightarrow> PNone) in
      case version of
        PInt i \<Rightarrow> if i = contract_version then Inr i else unsupported_version version
      | _ \<Rightarrow> unsupported_version version)"

definition semantic_errors :: "string \<Rightarrow> (string \<times> pyval) list \<Rightarrow> string list" where
  "semantic_errors kind d =
     (if kind = ''capacity_decision''
      then (case py_get d ''outcome'' of
          PStr outcome \<Rightarrow>
            if outcome = ''assigned''
            then (if ''assignment'' \<in> fst ` set d then []
                  else [''$.assignment: required when outcome is '' @ py_repr ''assigned''])
              @ (if ''reason'' \<in> fst ` set d
                 then [''$.reason: not allowed when outcome is '' @ py_repr ''assigned''
                         @ '' -- a grant and an excuse in one document cannot be acted on'']
                 else [])
            else if outcome \<in> set terminal_outcomes
            then (if ''reason'' \<in> fst ` set d then []
                  else [''$.reason: required when outcome is '' @ py_repr outcome
                          @ '' -- a decision without a reason cannot be acted on''])
              @ (if ''assignment'' \<in> fst ` set d
                 then [''$.assignment: not allowed when outcome is '' @ py_repr outcome] else [])
            else []
        | _ \<Rightarrow> [])
      else if kind = ''operation_receipt''
      then (if py_get d ''outcome'' = PStr ''completed'' \<and> ''evidence'' \<notin> fst ` set d
            then [''$.evidence: required when outcome is '' @ py_repr ''completed''
                    @ '' -- a completion claim without evidence is not a receipt'']
            else [])
      else [])"

definition contract_validate :: "string \<Rightarrow> pyval \<Rightarrow> string list res" where
  "contract_validate kind doc =
     (if kind \<notin> fst ` set schema_files then unknown_kind kind
      else case check_version doc of
        Inl e \<Rightarrow> if of_class ContractError e then Inr [''$.contract_version: '' @ exn_text e] else Inl e
      | Inr _ \<Rightarrow>
          bindR (load_schema kind) (\<lambda>schema.
          bindR (sc_validate stack_depth doc schema schema ''$'') (\<lambda>errors.
            Inr (errors @ (case doc of PDict d \<Rightarrow> semantic_errors kind d | _ \<Rightarrow> [])))))"

definition contract_parse :: "string \<Rightarrow> pyval \<Rightarrow> pyval res" where
  "contract_parse kind doc =
     bindR (contract_validate kind doc) (\<lambda>errors.
       if errors \<noteq> [] then contract_error (kind @ '' rejected: '' @ join ''; '' errors) else Inr doc)"

section \<open>Builders\<close>

text \<open>\<open>given or _utc_now()\<close>.\<close>

definition stamp_or_now :: "string option \<Rightarrow> string \<Rightarrow> string" where
  "stamp_or_now given now = (case given of None \<Rightarrow> now | Some s \<Rightarrow> if s = [] then now else s)"

definition optional_field :: "string \<Rightarrow> pyval option \<Rightarrow> (string \<times> pyval) list" where
  "optional_field k v = (case v of None \<Rightarrow> [] | Some x \<Rightarrow> [(k, x)])"

definition build_capacity_decision ::
  "pyval \<Rightarrow> string \<Rightarrow> pyval option \<Rightarrow> pyval option \<Rightarrow> string option \<Rightarrow> string \<Rightarrow> pyval res" where
  "build_capacity_decision request outcome assignment reason decided now =
     bindR (contract_parse ''capacity_request'' request) (\<lambda>r.
     bindR (case r of
         PDict d \<Rightarrow> (case map_of d ''request_id'' of
             Some i \<Rightarrow> Inr i | None \<Rightarrow> raise PyKeyError (py_repr ''request_id''))
       | _ \<Rightarrow> raise PyTypeError ''request'') (\<lambda>request_id.
       contract_parse ''capacity_decision''
         (PDict ([(''contract_version'', PInt contract_version), (''request_id'', request_id),
                  (''decided_at'', PStr (stamp_or_now decided now)), (''outcome'', PStr outcome)]
                 @ optional_field ''assignment'' assignment @ optional_field ''reason'' reason))))"

definition build_receipt ::
  "string \<Rightarrow> pyval \<Rightarrow> string \<Rightarrow> string \<Rightarrow> pyval \<Rightarrow> pyval option \<Rightarrow> string option \<Rightarrow> string option \<Rightarrow> string
   \<Rightarrow> pyval res" where
  "build_receipt receipt_id subject operation outcome actor evidence detail issued now =
     contract_parse ''operation_receipt''
       (PDict ([(''contract_version'', PInt contract_version), (''receipt_id'', PStr receipt_id),
                (''issued_at'', PStr (stamp_or_now issued now)), (''subject'', subject),
                (''operation'', PStr operation), (''outcome'', PStr outcome), (''actor'', actor)]
               @ optional_field ''evidence'' evidence @ optional_field ''detail'' (map_option PStr detail)))"

definition describe_contracts :: "string \<Rightarrow> pyval" where
  "describe_contracts directory =
     PDict [(''contract_version'', PInt contract_version),
            (''kinds'', PDict (map (\<lambda>(kind, name). (kind, PStr (directory @ ''/'' @ name))) (sort schema_files))),
            (''outcomes'', PList (map PStr terminal_outcomes))]"

text \<open>\<open>OperationLedger.authoritative_receipt\<close>.\<close>

definition authoritative_receipt ::
  "operation_ledger \<Rightarrow> string \<Rightarrow> string \<Rightarrow> string \<Rightarrow> string \<Rightarrow> string \<Rightarrow> pyval res" where
  "authoritative_receipt l k receipt_id issued actor now =
     bindR (issued_operation l k) (\<lambda>o'.
     bindR (recorded_receipt l k) (\<lambda>r.
       case contract_operation (op_kind o') of
         None \<Rightarrow> operation_refused (''ledger: '' @ operation_kind_value (op_kind o')
                   @ '' has no declared contract operation; a read-only operation produces no contract receipt'')
       | Some operation \<Rightarrow>
           build_receipt receipt_id
             (PDict [(''kind'', PStr (subject_kind_value (sb_kind (op_subject o')))),
                     (''id'', PStr (sb_subject_id (op_subject o')))])
             operation (receipt_outcome_value (rt_outcome r))
             (PDict [(''kind'', PStr ''host_agent''), (''id'', PStr actor)])
             (map_option operation_evidence_document (rt_evidence r)) (rt_detail r) (Some issued) now))"

section \<open>What validation decides\<close>

lemma schemas_ok: "schema_ok 4 capacity_request_schema" "schema_ok 4 capacity_decision_schema"
    "schema_ok 4 operation_receipt_schema"
  by code_simp+

lemma contract_error_simps [simp]: "contract_error m \<noteq> Inr a" "Inr a \<noteq> contract_error m"
    "bindR (contract_error m) f = contract_error m" "answer_of (contract_error m) = None"
  by (simp_all add: contract_error_def)

lemma load_schema_ok: "load_schema kind = Inr s \<Longrightarrow> schema_ok 4 s"
  using schemas_ok by (auto simp: load_schema_def unknown_kind_def split: if_splits)

lemma unsupported_version_Inr [simp]: "unsupported_version v \<noteq> Inr i"
  by (simp add: unsupported_version_def bindR_Inr_iff)

lemma check_version_ok: "check_version doc = Inr i \<longleftrightarrow>
    i = 1 \<and> (\<exists>d. doc = PDict d \<and> py_get d ''contract_version'' = PInt 1)"
  by (cases doc) (auto simp: check_version_def Let_def contract_version_def split: pyval.splits if_splits)

text \<open>The value that a document is checked to be printable for is the whole document.\<close>

definition document_printable :: "pyval \<Rightarrow> bool" where
  "document_printable doc \<longleftrightarrow> printable (stack_depth - 1) doc"

lemma unsupported_version_class:
  "unsupported_version v = Inl e \<Longrightarrow> of_class ContractError e \<or> (unprintable e \<and> \<not> printable stack_depth v)"
  using repr_unprintable [of stack_depth v]
  by (auto simp: unsupported_version_def contract_error_def raise_def of_class_def printable_iff bindR_def split: if_splits sum.splits)

lemma check_version_class:
  assumes "check_version doc = Inl e"
  shows "of_class ContractError e \<or> (unprintable e \<and> \<not> document_printable doc)"
proof -
  let ?v = "case doc of PDict d \<Rightarrow> py_get d ''contract_version'' | _ \<Rightarrow> PNone"
  have "unsupported_version ?v = (Inl e :: int res)"
    using assms by (auto simp: check_version_def Let_def split: pyval.splits if_splits)
  then consider "of_class ContractError e" | "unprintable e" "\<not> printable stack_depth ?v"
    using unsupported_version_class by blast
  then show ?thesis
  proof cases
    case 2
    have "printable stack_depth ?v" if printed: "document_printable doc"
    proof (cases "\<exists>d v. doc = PDict d \<and> map_of d ''contract_version'' = Some v")
      case True
      then obtain d v where v: "doc = PDict d" "map_of d ''contract_version'' = Some v" by blast
      then obtain m where "stack_depth - 1 = Suc m" "printable m v"
        using printable_entry [of "stack_depth - 1" d] printed by (auto simp: document_printable_def)
      then show ?thesis using v printable_deeper [of m v stack_depth] by (simp add: py_get_def)
    next
      case False
      then have "?v = PNone" by (auto simp: py_get_def split: pyval.split option.split)
      then show ?thesis by simp
    qed
    then show ?thesis using 2 by blast
  qed simp
qed

lemma known_kind: "kind \<in> fst ` set schema_files \<longleftrightarrow> (\<exists>s. load_schema kind = Inr s)"
  by (auto simp: schema_files_def load_schema_def unknown_kind_def)

text \<open>The violations, in full: of the version alone, or of the schema and the rules; or a value that is not printed.\<close>

lemma contract_validate_cases:
  assumes "load_schema kind = Inr s"
  obtains (version) m where "contract_validate kind doc = Inr [m]" and "\<forall>i. check_version doc \<noteq> Inr i"
  | (checked) d es where "doc = PDict d" and "py_get d ''contract_version'' = PInt 1"
      and "contract_validate kind doc = Inr (es @ semantic_errors kind d)" and "es = [] \<longleftrightarrow> conforms 4 doc s"
  | (unprinted) e where "contract_validate kind doc = Inl e" and "unprintable e" and "\<not> document_printable doc"
      and "(\<forall>i. check_version doc \<noteq> Inr i) \<or> \<not> conforms 4 doc s"
proof (cases "check_version doc")
  case (Inl e)
  have k: "kind \<in> fst ` set schema_files" using assms known_kind by blast
  show thesis
  proof (cases "of_class ContractError e")
    case True
    then have "contract_validate kind doc = Inr [''$.contract_version: '' @ exn_text e]"
      using k Inl by (simp add: contract_validate_def)
    then show thesis using version Inl by simp
  next
    case False
    then have "contract_validate kind doc = Inl e" using k Inl by (simp add: contract_validate_def)
    then show thesis using unprinted check_version_class [OF Inl] False Inl by simp
  qed
next
  case (Inr i)
  then obtain d where d: "doc = PDict d" "py_get d ''contract_version'' = PInt 1" by (auto simp: check_version_ok)
  have k: "kind \<in> fst ` set schema_files" using assms known_kind by blast
  have depth: "stack_depth = Suc (stack_depth - 1)" by (simp add: stack_depth_def)
  have "schema_ok stack_depth s" using schema_ok_deeper [OF load_schema_ok [OF assms], of stack_depth] by (simp add: stack_depth_def)
  then have dec: "decides (document_printable doc) (sc_validate stack_depth doc s s ''$'') (conforms stack_depth doc s)"
    unfolding document_printable_def using checker_decides [of "stack_depth - 1" s doc s "''$''"] depth by simp
  have same: "conforms stack_depth doc s = conforms 4 doc s"
    by (rule conforms_depth [OF load_schema_ok [OF assms]]) (simp add: stack_depth_def)
  show thesis
  proof (cases "sc_validate stack_depth doc s s ''$''")
    case (Inl e)
    then have "contract_validate kind doc = Inl e" using k Inr assms by (simp add: contract_validate_def)
    then show thesis using unprinted dec Inl same by (simp add: decides_def)
  next
    case (Inr es)
    then have "contract_validate kind doc = Inr (es @ semantic_errors kind d)"
      using k \<open>check_version doc = Inr i\<close> assms by (simp add: contract_validate_def d(1))
    moreover have "(es = []) = conforms 4 doc s" using dec Inr same by (simp add: decides_def)
    ultimately show thesis using checked [OF d] by simp
  qed
qed

lemma contract_validate_ok:
  assumes "load_schema kind = Inr s"
  shows "contract_validate kind doc = Inr [] \<longleftrightarrow>
    (\<exists>d. doc = PDict d \<and> py_get d ''contract_version'' = PInt 1 \<and> conforms 4 doc s \<and> semantic_errors kind d = [])"
  by (cases rule: contract_validate_cases [OF assms, of doc]) (auto simp: check_version_ok)

lemma contract_parse_ok: "contract_parse kind doc = Inr v \<longleftrightarrow> v = doc \<and> contract_validate kind doc = Inr []"
  by (auto simp: contract_parse_def bindR_Inr_iff)

section \<open>The receipt contract\<close>

text \<open>The two objects of a kind and an id.\<close>

definition named_entity :: "string set \<Rightarrow> pyval \<Rightarrow> bool" where
  "named_entity kinds v \<longleftrightarrow>
     (\<exists>d k i. v = PDict d \<and> fst ` set d \<subseteq> {''kind'', ''id''} \<and> map_of d ''kind'' = Some (PStr k) \<and> k \<in> kinds
        \<and> map_of d ''id'' = Some (PStr i) \<and> 1 \<le> length i \<and> length i \<le> 128)"

definition evidence_entry :: "pyval \<Rightarrow> bool" where
  "evidence_entry v \<longleftrightarrow>
     (\<exists>d g l. v = PDict d \<and> fst ` set d \<subseteq> {''digest'', ''location''} \<and> map_of d ''digest'' = Some (PStr g)
        \<and> digest_body g \<and> map_of d ''location'' = Some (PStr l) \<and> 1 \<le> length l \<and> length l \<le> 512)"

lemma fullmatch_request: "fullmatch ''^[A-Za-z0-9][A-Za-z0-9._:-]{0,127}$'' s = Inr True \<longleftrightarrow> request_body s"
proof -
  have "read_pattern ''^[A-Za-z0-9][A-Za-z0-9._:-]{0,127}$'' =
      Some [Item [(CHR ''A'', CHR ''Z''), (CHR ''a'', CHR ''z''), (CHR ''0'', CHR ''9'')] 1 (Some 1),
            Item [(CHR ''A'', CHR ''Z''), (CHR ''a'', CHR ''z''), (CHR ''0'', CHR ''9''), (CHR ''.'', CHR ''.''),
                  (CHR ''_'', CHR ''_''), (CHR '':'', CHR '':''), (CHR ''-'', CHR ''-'')] 0 (Some 127)]"
    by code_simp
  moreover have "in_class [(CHR ''A'', CHR ''Z''), (CHR ''a'', CHR ''z''), (CHR ''0'', CHR ''9'')] c \<longleftrightarrow> is_alnum c" for c
    unfolding in_class_simps by (auto simp: is_alnum_def is_upper_def is_lower_def is_digit_def code_def)
  moreover have "in_class [(CHR ''A'', CHR ''Z''), (CHR ''a'', CHR ''z''), (CHR ''0'', CHR ''9''), (CHR ''.'', CHR ''.''),
      (CHR ''_'', CHR ''_''), (CHR '':'', CHR '':''), (CHR ''-'', CHR ''-'')] = request_char"
    unfolding fun_eq_iff in_class_simps request_char_def is_alnum_def is_upper_def is_lower_def is_digit_def
    by (simp add: code_def) blast
  ultimately show ?thesis
    unfolding fullmatch_def request_body_def
    by (cases s) (simp_all only: option.case matches_one matches_last, auto)
qed

lemma fullmatch_digest: "fullmatch ''^sha256:[0-9a-f]{64}$'' s = Inr True \<longleftrightarrow> digest_body s"
proof -
  have "read_pattern ''^sha256:[0-9a-f]{64}$'' =
      Some (map (\<lambda>c. Item [(c, c)] 1 (Some 1)) ''sha256:'' @ [Item [(CHR ''0'', CHR ''9''), (CHR ''a'', CHR ''f'')] 64 (Some 64)])"
    by code_simp
  moreover have "in_class [(CHR ''0'', CHR ''9''), (CHR ''a'', CHR ''f'')] = is_hex"
    unfolding fun_eq_iff in_class_simps is_hex_def is_digit_def by (simp add: code_def)
  moreover have seven: "length ''sha256:'' = 7" by simp
  ultimately have "fullmatch ''^sha256:[0-9a-f]{64}$'' s = Inr True \<longleftrightarrow>
      starts_with ''sha256:'' s \<and> 64 = length (drop 7 s) \<and> list_all is_hex (drop 7 s)"
    by (simp only: fullmatch_def option.case matches_literal matches_last sum.inject seven eq_True) linarith
  then show ?thesis by (auto simp: digest_body_def)
qed

lemma conforms_entity:
  "conforms (Suc (Suc n)) v (PDict [(''type'', PStr ''object''), (''additionalProperties'', PBool False),
       (''required'', PList [PStr ''kind'', PStr ''id'']),
       (''properties'', PDict [(''kind'', PDict [(''enum'', PList ks)]),
          (''id'', PDict [(''type'', PStr ''string''), (''minLength'', PInt 1), (''maxLength'', PInt 128)])])])
   \<longleftrightarrow> named_entity {k. PStr k \<in> set ks} v"
  if "\<forall>k \<in> set ks. \<exists>s. k = PStr s"
proof -
  have "list_ex (py_same k) ks \<longleftrightarrow> (\<exists>s. k = PStr s \<and> PStr s \<in> set ks)" for k
    using that by (force simp: list_ex_iff)
  then show ?thesis
    unfolding conforms_object named_entity_def
    by (auto simp: conforms_enum conforms_text simp del: conforms.simps split: option.splits)
qed

lemma conforms_evidence:
  "conforms (Suc (Suc n)) v (PDict [(''type'', PStr ''object''), (''additionalProperties'', PBool False),
       (''required'', PList [PStr ''digest'', PStr ''location'']),
       (''properties'', PDict [(''digest'', PDict [(''type'', PStr ''string''), (''pattern'', PStr ''^sha256:[0-9a-f]{64}$'')]),
          (''location'', PDict [(''type'', PStr ''string''), (''minLength'', PInt 1), (''maxLength'', PInt 512)])])])
   \<longleftrightarrow> evidence_entry v"
  unfolding conforms_object evidence_entry_def
  by (auto simp: conforms_pattern fullmatch_digest conforms_text simp del: conforms.simps split: option.splits)

text \<open>The receipt contract, field by field.\<close>

definition receipt_meaning :: "(string \<times> pyval) list \<Rightarrow> bool" where
  "receipt_meaning d \<longleftrightarrow>
     fst ` set d \<subseteq> {''contract_version'', ''receipt_id'', ''issued_at'', ''subject'', ''operation'', ''outcome'',
          ''actor'', ''evidence'', ''detail''}
     \<and> map_of d ''contract_version'' = Some (PInt 1)
     \<and> (\<exists>s. map_of d ''receipt_id'' = Some (PStr s) \<and> request_body s)
     \<and> (\<exists>s. map_of d ''issued_at'' = Some (PStr s) \<and> valid_date_time s)
     \<and> (\<exists>v. map_of d ''subject'' = Some v
          \<and> named_entity {''host'', ''runner'', ''pool'', ''assignment'', ''desired_state''} v)
     \<and> (\<exists>s. map_of d ''operation'' = Some (PStr s)
          \<and> s \<in> {''enroll'', ''assign'', ''release'', ''drain'', ''apply'', ''revoke''})
     \<and> (\<exists>s. map_of d ''outcome'' = Some (PStr s) \<and> s \<in> {''completed'', ''failed'', ''rejected''})
     \<and> (\<exists>v. map_of d ''actor'' = Some v \<and> named_entity {''system'', ''operator'', ''host_agent''} v)
     \<and> (\<forall>v. map_of d ''evidence'' = Some v \<longrightarrow> evidence_entry v)
     \<and> (\<forall>v. map_of d ''detail'' = Some v \<longrightarrow> (\<exists>s. v = PStr s \<and> length s \<le> 512))
     \<and> (map_of d ''outcome'' = Some (PStr ''completed'') \<longrightarrow> map_of d ''evidence'' \<noteq> None)"

lemma receipt_contract:
  "contract_validate ''operation_receipt'' doc = Inr [] \<longleftrightarrow> (\<exists>d. doc = PDict d \<and> receipt_meaning d)"
proof -
  have version: "py_get d k = PInt i \<longleftrightarrow> map_of d k = Some (PInt i)" for d k i
    by (simp add: py_get_def split: option.split)
  have outcome: "py_get d k = PStr i \<longleftrightarrow> map_of d k = Some (PStr i)" for d k i
    by (simp add: py_get_def split: option.split)
  have rules: "semantic_errors ''operation_receipt'' d = [] \<longleftrightarrow>
      (map_of d ''outcome'' = Some (PStr ''completed'') \<longrightarrow> map_of d ''evidence'' \<noteq> None)" for d
    by (simp add: semantic_errors_def outcome has_key)
  have load: "load_schema ''operation_receipt'' = Inr operation_receipt_schema" by (simp add: load_schema_def)
  have entities: "{k. k = ''host'' \<or> k = ''runner'' \<or> k = ''pool'' \<or> k = ''assignment'' \<or> k = ''desired_state''}
        = {''host'', ''runner'', ''pool'', ''assignment'', ''desired_state''}"
      "{k. k = ''system'' \<or> k = ''operator'' \<or> k = ''host_agent''} = {''system'', ''operator'', ''host_agent''}"
    by auto
  have four: "(4::nat) = Suc (Suc (Suc (Suc 0)))" by simp
  have entry: "(case map_of d k of None \<Rightarrow> True | Some v \<Rightarrow> p v) \<longleftrightarrow> (\<forall>v. map_of d k = Some v \<longrightarrow> p v)" for d k and p :: "pyval \<Rightarrow> bool"
    by (simp split: option.split)
  define fields where "fields d \<longleftrightarrow> list_all (\<lambda>k. map_of d k \<noteq> None)
          [''contract_version'', ''receipt_id'', ''issued_at'', ''subject'', ''operation'', ''outcome'', ''actor'']
      \<and> fst ` set d \<subseteq> {''contract_version'', ''receipt_id'', ''issued_at'', ''subject'', ''operation'', ''outcome'',
             ''actor'', ''evidence'', ''detail''}
      \<and> (\<forall>v. map_of d ''contract_version'' = Some v \<longrightarrow> py_eq v (PInt 1))
      \<and> (\<forall>v. map_of d ''receipt_id'' = Some v \<longrightarrow> (\<exists>s. v = PStr s \<and> request_body s))
      \<and> (\<forall>v. map_of d ''issued_at'' = Some v \<longrightarrow> (\<exists>s. v = PStr s \<and> valid_date_time s))
      \<and> (\<forall>v. map_of d ''subject'' = Some v
           \<longrightarrow> named_entity {''host'', ''runner'', ''pool'', ''assignment'', ''desired_state''} v)
      \<and> (\<forall>v. map_of d ''operation'' = Some v
           \<longrightarrow> v \<in> PStr ` {''enroll'', ''assign'', ''release'', ''drain'', ''apply'', ''revoke''})
      \<and> (\<forall>v. map_of d ''outcome'' = Some v \<longrightarrow> v \<in> PStr ` {''completed'', ''failed'', ''rejected''})
      \<and> (\<forall>v. map_of d ''actor'' = Some v \<longrightarrow> named_entity {''system'', ''operator'', ''host_agent''} v)
      \<and> (\<forall>v. map_of d ''evidence'' = Some v \<longrightarrow> evidence_entry v)
      \<and> (\<forall>v. map_of d ''detail'' = Some v \<longrightarrow> (\<exists>s. v = PStr s \<and> length s \<le> 512))" for d
  have schema: "conforms 4 doc operation_receipt_schema \<longleftrightarrow> (\<exists>d. doc = PDict d \<and> fields d)"
    unfolding four operation_receipt_schema_def fields_def
    by (subst conforms_object)
      (simp add: entry conforms_const conforms_pattern fullmatch_request conforms_date conforms_entity entities
        conforms_evidence conforms_enum conforms_short del: conforms.simps)
  have words: "(\<forall>v. x = Some v \<longrightarrow> v \<in> PStr ` A) \<longleftrightarrow> x = None \<or> (\<exists>s. x = Some (PStr s) \<and> s \<in> A)" for x and A
    by (cases x) auto
  have meaning: "map_of d ''contract_version'' = Some (PInt 1) \<and> fields d
        \<and> (map_of d ''outcome'' = Some (PStr ''completed'') \<longrightarrow> map_of d ''evidence'' \<noteq> None) \<longleftrightarrow> receipt_meaning d" for d
  proof (cases "list_all (\<lambda>k. \<exists>v. map_of d k = Some v)
          [''contract_version'', ''receipt_id'', ''issued_at'', ''subject'', ''operation'', ''outcome'', ''actor'']")
    case True
    then obtain v i t sb o' r a where given: "map_of d ''contract_version'' = Some v" "map_of d ''receipt_id'' = Some i"
        "map_of d ''issued_at'' = Some t" "map_of d ''subject'' = Some sb" "map_of d ''operation'' = Some o'"
        "map_of d ''outcome'' = Some r" "map_of d ''actor'' = Some a"
      unfolding list.pred_inject by (elim conjE exE)
    have one: "py_eq (PInt 1) (PInt 1)" by (simp add: same_number_def)
    show ?thesis
      unfolding fields_def words receipt_meaning_def
      by (simp only: given list.pred_inject option.inject option.distinct not_False_eq_True simp_thms)
        (rule iffI; elim conjE; intro conjI; (assumption | hypsubst, rule one))
  next
    case False
    have "\<not> receipt_meaning d"
    proof
      assume "receipt_meaning d"
      then have "list_all (\<lambda>k. \<exists>v. map_of d k = Some v)
          [''contract_version'', ''receipt_id'', ''issued_at'', ''subject'', ''operation'', ''outcome'', ''actor'']"
        unfolding receipt_meaning_def list.pred_inject
        by (elim conjE exE) (intro conjI; (rule list.pred_inject(1) | rule exI, assumption))
      with False show False by (rule notE)
    qed
    moreover have "\<not> fields d"
    proof
      assume "fields d"
      then have "list_all (\<lambda>k. map_of d k \<noteq> None)
          [''contract_version'', ''receipt_id'', ''issued_at'', ''subject'', ''operation'', ''outcome'', ''actor'']"
        unfolding fields_def by (rule conjunct1)
      with False show False unfolding not_None_eq by (rule notE)
    qed
    ultimately show ?thesis by (simp only: simp_thms)
  qed
  have one: "(\<exists>e. PDict d = PDict e \<and> P e) \<longleftrightarrow> P d" for d P by simp
  show ?thesis
    unfolding contract_validate_ok [OF load] version rules schema
    by (cases doc) (simp_all only: one meaning pyval.distinct simp_thms ex_simps)
qed

text \<open>
  What the receipt contract means. A document has no violation if and only if it is an object of
  version 1 with no key beyond the nine of the contract, a receipt id, a time with an offset, a subject
  and an actor of the listed kinds with an id of 1 to 128 characters, an operation and an outcome of the
  listed ones, a detail of at most 512 characters and a digest with its location where they are given,
  and the evidence is there when the outcome is a completion.
\<close>

theorem receipt_contract_iff:
  "contract_parse ''operation_receipt'' doc = Inr v \<longleftrightarrow> v = doc \<and> (\<exists>d. doc = PDict d \<and> receipt_meaning d)"
  unfolding contract_parse_ok receipt_contract ..

text \<open>What a contract asks of a document: its version, its schema and the rules beside it.\<close>

definition contract_valid :: "string \<Rightarrow> pyval \<Rightarrow> bool" where
  "contract_valid kind doc \<longleftrightarrow>
     (\<exists>d s. doc = PDict d \<and> load_schema kind = Inr s \<and> py_get d ''contract_version'' = PInt 1
        \<and> conforms 4 doc s \<and> semantic_errors kind d = [])"

text \<open>
  C19: What validation decides. For a contract of a known kind, validating any value returns its list of
  violations, which is empty exactly when the value meets the contract; the one other outcome is a
  \<open>ValueError\<close> or a \<open>RecursionError\<close> from printing what is refused, and only for a value that does not meet
  the contract and has in it an integer of more than 4300 digits or nests deeper than the stack. An unknown
  kind is always refused with a \<open>ContractError\<close>. So the stack is deep enough for the checker itself, and
  every pattern and keyword of the three schemas is one that it knows.
\<close>

theorem contract_validate_decides:
  "case contract_validate kind doc of
     Inr es \<Rightarrow> kind \<in> fst ` set schema_files \<and> (es = [] \<longleftrightarrow> contract_valid kind doc)
   | Inl e \<Rightarrow> \<not> contract_valid kind doc
       \<and> (if kind \<in> fst ` set schema_files then unprintable e \<and> \<not> document_printable doc
          else of_class ContractError e)"
proof (cases "kind \<in> fst ` set schema_files")
  case True
  then obtain s where s: "load_schema kind = Inr s" using known_kind by blast
  have valid: "contract_valid kind doc \<longleftrightarrow> contract_validate kind doc = Inr []"
    by (simp add: contract_valid_def contract_validate_ok [OF s] s)
  show ?thesis
  proof (cases "contract_validate kind doc")
    case (Inl e)
    then have "unprintable e \<and> \<not> document_printable doc"
      by (cases rule: contract_validate_cases [OF s, of doc]) simp_all
    then show ?thesis by (simp add: Inl True valid)
  qed (simp add: True valid)
next
  case False
  then have "\<not> contract_valid kind doc" using known_kind by (auto simp: contract_valid_def)
  then show ?thesis
    using False by (simp add: contract_validate_def unknown_kind_def contract_error_def raise_def of_class_def)
qed

section \<open>The receipt the manager gives\<close>

lemma subject_kinds: "subject_kind_value k \<in> {''host'', ''runner'', ''pool'', ''assignment'', ''desired_state''}"
  by (cases k) simp_all

lemma contract_operations: "contract_operation k = Some c \<Longrightarrow> c \<in> {''enroll'', ''assign'', ''release'', ''drain'', ''apply'', ''revoke''}"
  by (cases k) auto

lemma contract_operation_read_only: "contract_operation k = None \<longleftrightarrow> k \<in> read_only_kinds"
  by (cases k) (simp_all add: read_only_kinds_def)

lemma receipt_outcomes: "receipt_outcome_value k \<in> {''completed'', ''failed'', ''rejected''}"
    "receipt_outcome_value k = ''completed'' \<longleftrightarrow> k = O_COMPLETED"
  by (cases k; simp)+

lemma is_identifier_length:
  assumes "is_identifier s"
  shows "1 \<le> length s" and "length s \<le> 65"
  using assms by (auto simp: is_identifier_def dollar_def identifier_body_def Suc_le_eq)

lemma named_entity_pair: "named_entity ks (PDict [(''kind'', PStr k), (''id'', PStr i)]) \<longleftrightarrow>
    k \<in> ks \<and> 1 \<le> length i \<and> length i \<le> 128"
  by (auto simp: named_entity_def)

lemma evidence_entry_document: "evidence_entry (operation_evidence_document e) \<longleftrightarrow>
    digest_body (ev_digest e) \<and> 1 \<le> length (ev_location e) \<and> length (ev_location e) \<le> 512"
  by (auto simp: evidence_entry_def operation_evidence_document_def)

text \<open>The document, entry by entry, for an operation and its receipt.\<close>

definition receipt_entries ::
  "operation \<Rightarrow> agent_receipt \<Rightarrow> string \<Rightarrow> string \<Rightarrow> string \<Rightarrow> string \<Rightarrow> (string \<times> pyval) list" where
  "receipt_entries o' r c receipt_id at actor =
     [(''contract_version'', PInt 1), (''receipt_id'', PStr receipt_id), (''issued_at'', PStr at),
      (''subject'', PDict [(''kind'', PStr (subject_kind_value (sb_kind (op_subject o')))),
         (''id'', PStr (sb_subject_id (op_subject o')))]),
      (''operation'', PStr c), (''outcome'', PStr (receipt_outcome_value (rt_outcome r))),
      (''actor'', PDict [(''kind'', PStr ''host_agent''), (''id'', PStr actor)])]
     @ optional_field ''evidence'' (map_option operation_evidence_document (rt_evidence r))
     @ optional_field ''detail'' (map_option PStr (rt_detail r))"

lemma map_of_optional: "map_of (optional_field k v) j = (if j = k then v else None)"
    "fst ` set (optional_field k v) \<subseteq> {k}"
  by (auto simp: optional_field_def split: option.split)

lemma receipt_entries_meaning:
  assumes "contract_operation (op_kind o') = Some c" and "is_identifier (sb_subject_id (op_subject o'))" and "receipt_ok r"
    and "\<And>e. rt_evidence r = Some e \<Longrightarrow> ev_location e \<noteq> [] \<and> length (ev_location e) \<le> max_value"
  shows "receipt_meaning (receipt_entries o' r c i at actor) \<longleftrightarrow>
    request_body i \<and> valid_date_time at \<and> 1 \<le> length actor \<and> length actor \<le> 128
    \<and> (\<forall>e. rt_evidence r = Some e \<longrightarrow> digest_body (ev_digest e))"
proof -
  let ?d = "receipt_entries o' r c i at actor"
  have entries: "map_of ?d ''contract_version'' = Some (PInt 1)" "map_of ?d ''receipt_id'' = Some (PStr i)"
      "map_of ?d ''issued_at'' = Some (PStr at)"
      "map_of ?d ''subject'' = Some (PDict [(''kind'', PStr (subject_kind_value (sb_kind (op_subject o')))),
         (''id'', PStr (sb_subject_id (op_subject o')))])"
      "map_of ?d ''operation'' = Some (PStr c)" "map_of ?d ''outcome'' = Some (PStr (receipt_outcome_value (rt_outcome r)))"
      "map_of ?d ''actor'' = Some (PDict [(''kind'', PStr ''host_agent''), (''id'', PStr actor)])"
      "map_of ?d ''evidence'' = map_option operation_evidence_document (rt_evidence r)"
      "map_of ?d ''detail'' = map_option PStr (rt_detail r)"
    by (simp_all add: receipt_entries_def map_add_def map_of_optional split: option.split)
  have keys: "fst ` set ?d \<subseteq> {''contract_version'', ''receipt_id'', ''issued_at'', ''subject'', ''operation'', ''outcome'',
          ''actor'', ''evidence'', ''detail''}"
    using map_of_optional(2) unfolding receipt_entries_def set_append image_Un by (intro Un_least) (simp, blast+)
  have subject: "1 \<le> length (sb_subject_id (op_subject o'))" "length (sb_subject_id (op_subject o')) \<le> 128"
    using is_identifier_length [OF assms(2)] by auto
  have evidence: "(\<forall>v. map_option operation_evidence_document (rt_evidence r) = Some v \<longrightarrow> evidence_entry v)
      \<longleftrightarrow> (\<forall>e. rt_evidence r = Some e \<longrightarrow> digest_body (ev_digest e))"
    using assms(4) by (cases "rt_evidence r") (simp_all add: evidence_entry_document max_value_def Suc_le_eq)
  have detail: "\<forall>v. map_option PStr (rt_detail r) = Some v \<longrightarrow> (\<exists>s. v = PStr s \<and> length s \<le> 512)"
    using assms(3) by (auto simp: receipt_ok_def max_value_def)
  have completed: "rt_outcome r = O_COMPLETED \<longrightarrow> rt_evidence r \<noteq> None" using assms(3) by (simp add: receipt_ok_def)
  show ?thesis
    unfolding receipt_meaning_def entries evidence option.inject pyval.inject
    using keys subject detail completed subject_kinds [of "sb_kind (op_subject o')"] contract_operations [OF assms(1)]
      receipt_outcomes [of "rt_outcome r"]
    by (simp add: named_entity_pair)
qed

lemma authoritative_receipt_unfold:
  "authoritative_receipt l k i at actor now = Inr doc \<longleftrightarrow>
    (\<exists>o' r c. ol_issued l k = Some o' \<and> ol_receipts l k = Some r \<and> contract_operation (op_kind o') = Some c
      \<and> receipt_meaning (receipt_entries o' r c i (stamp_or_now (Some at) now) actor)
      \<and> doc = PDict (receipt_entries o' r c i (stamp_or_now (Some at) now) actor))"
  by (auto simp: authoritative_receipt_def issued_operation_def recorded_receipt_def bindR_Inr_iff build_receipt_def
      receipt_entries_def contract_version_def contract_parse_ok receipt_contract split: option.splits)

text \<open>
  C18: what the evidence plane gets. For an operation whose parts could be constructed, the manager's
  receipt exists if and only if the agent's receipt was recorded and the receipt id, the stamp, the name
  of the actor and the digest of the evidence have the form of the contract; the operation was then a
  mutation, and the document says exactly what the operation and the agent's receipt say, with the
  contract's word for the kind of the operation.
\<close>

theorem authoritative_receipt_iff:
  assumes "operation_ledger_ok l" and "at \<noteq> []"
    and "\<And>o'. ol_issued l k = Some o' \<Longrightarrow> subject_make (sb_kind (op_subject o')) (sb_subject_id (op_subject o')) = Inr (op_subject o')"
    and "\<And>r e. ol_receipts l k = Some r \<Longrightarrow> rt_evidence r = Some e \<Longrightarrow> evidence_make (ev_digest e) (ev_location e) = Inr e"
  shows "authoritative_receipt l k i at actor now = Inr doc \<longleftrightarrow>
    (\<exists>o' r c. ol_issued l k = Some o' \<and> ol_receipts l k = Some r \<and> contract_operation (op_kind o') = Some c
      \<and> op_kind o' \<notin> read_only_kinds
      \<and> doc = PDict (receipt_entries o' r c i at actor)
      \<and> request_body i \<and> valid_date_time at \<and> 1 \<le> length actor \<and> length actor \<le> 128
      \<and> (\<forall>e. rt_evidence r = Some e \<longrightarrow> digest_body (ev_digest e)))"
proof -
  have stamp: "stamp_or_now (Some at) now = at" using assms(2) by (simp add: stamp_or_now_def)
  have meaning: "receipt_meaning (receipt_entries o' r c i at actor) \<longleftrightarrow>
      request_body i \<and> valid_date_time at \<and> 1 \<le> length actor \<and> length actor \<le> 128
      \<and> (\<forall>e. rt_evidence r = Some e \<longrightarrow> digest_body (ev_digest e))"
    if "ol_issued l k = Some o'" "ol_receipts l k = Some r" "contract_operation (op_kind o') = Some c" for o' r c
  proof (rule receipt_entries_meaning [OF that(3)])
    show "is_identifier (sb_subject_id (op_subject o'))"
      using assms(3) [OF that(1)] by (auto simp: subject_make_def bindR_Inr_iff scalar_ok)
    show "receipt_ok r" using assms(1) that(2) unfolding operation_ledger_ok_def by blast
    show "ev_location e \<noteq> [] \<and> length (ev_location e) \<le> max_value" if "rt_evidence r = Some e" for e
      using assms(4) [OF \<open>ol_receipts l k = Some r\<close> that] by (auto simp: evidence_make_def split: if_splits)
  qed
  show ?thesis
    unfolding authoritative_receipt_unfold stamp
    using meaning contract_operation_read_only by (metis option.distinct(1))
qed

end
