(* ===== verification/Operations_Example.thy ===== *)
theory Operations_Example
  imports Channel_Example Fleet_Contracts
begin

text \<open>One operation, the agent's answer to it, and the instances of the ledger's and the contracts' properties.\<close>

definition retire_r1 :: operation where
  "retire_r1 = \<lparr>op_operation_key = ''k1'', op_host_id = ''h1'', op_kind = DESTROY_RUNNER,
     op_subject = \<lparr>sb_kind = S_RUNNER, sb_subject_id = ''p1''\<rparr>, op_issued_at = zulu noon, op_parameters = []\<rparr>"

definition able :: capabilities where
  "able = \<lparr>ca_adapters = {DOCKER}, ca_operations = {DESTROY_RUNNER}, ca_allow_cancel_or_timeout = False\<rparr>"

definition proof_of_r1 :: evidence where
  "proof_of_r1 = \<lparr>ev_digest = hex_a, ev_location = ''log''\<rparr>"

definition answer_r1 :: agent_receipt where
  "answer_r1 = \<lparr>rt_operation_key = ''k1'', rt_host_id = ''h1'', rt_outcome = O_COMPLETED, rt_finished_at = zulu noon,
     rt_evidence = Some proof_of_r1, rt_detail = None\<rparr>"

definition other_answer :: agent_receipt where
  "other_answer = answer_r1\<lparr>rt_outcome := O_FAILED\<rparr>"

definition told :: operation_ledger where
  "told = \<lparr>ol_issued = [''k1'' \<mapsto> retire_r1], ol_receipts = Map.empty\<rparr>"

definition answered :: operation_ledger where
  "answered = told\<lparr>ol_receipts := [''k1'' \<mapsto> answer_r1]\<rparr>"

lemma demo_work: "operation_ok retire_r1" "receipt_ok answer_r1" "answers_to answer_r1 retire_r1"
    "evidence_make (ev_digest proof_of_r1) (ev_location proof_of_r1) = Inr proof_of_r1"
    "subject_make (sb_kind (op_subject retire_r1)) (sb_subject_id (op_subject retire_r1)) = Inr (op_subject retire_r1)"
  by (simp_all add: operation_ok_def receipt_ok_def retire_r1_def answer_r1_def answers_to_def op_read_only_def
      read_only_kinds_def evidence_make_def proof_of_r1_def max_value_def subject_make_def bindR_Inr_iff scalar_ok)

lemma demo_told: "ol_issue ledger_init retire_r1 able = Inr (told, retire_r1)" "ol_record told answer_r1 = Inr (answered, answer_r1)"
  using demo_work(3)
  by (simp_all add: ol_issue_ok ol_record_ok permitted_def able_def retire_r1_def ledger_init_def told_def answered_def
      answer_r1_def)

lemma demo_ledgers: "operation_ledger_ok told" "operation_ledger_ok answered"
proof -
  have "operation_ledger_ok ledger_init" by (simp add: operation_ledger_ok_def ledger_init_def)
  then show "operation_ledger_ok told"
    using ol_step_ok [OF ol_step.issued [OF demo_work(1) demo_told(1)]] by blast
  then show "operation_ledger_ok answered"
    using ol_step_ok [OF ol_step.recorded [OF demo_work(2) demo_told(2)]] by blast
qed

theorem ledger_refines_board_witness:
  "answer_of (ol_record answered other_answer) = None \<and> settle (board answered) other_answer = None
   \<and> map_option (board \<circ> fst) (answer_of (ol_issue answered retire_r1 able)) = Some (board answered)"
proof -
  have put: "put_up (board answered) retire_r1 = Some (board answered)"
    by (simp add: put_up_def board_def answered_def told_def retire_r1_def)
  have settled: "settle (board answered) other_answer = None"
    by (simp add: settle_def board_def answered_def told_def other_answer_def answer_r1_def)
  show ?thesis
    using ledger_refines_board [OF demo_ledgers(2), of retire_r1 able other_answer] settled put
    by (simp add: able_def retire_r1_def)
qed

theorem first_receipt_stands_witness:
  "recorded_receipt answered ''k1'' = Inr answer_r1 \<and> (\<exists>e. ol_record answered other_answer = Inl e)"
proof -
  have "rt_operation_key answer_r1 = ''k1''" "rt_operation_key other_answer = ''k1''" "other_answer \<noteq> answer_r1"
    by (simp_all add: other_answer_def answer_r1_def)
  then show ?thesis
    using first_receipt_stands [OF demo_ledgers(1) demo_work(2) demo_told(2) rtranclp.rtrancl_refl] by metis
qed

theorem authoritative_receipt_iff_witness:
  "authoritative_receipt answered ''k1'' ''receipt-1'' (stamp noon) ''fleet-manager'' [] =
     Inr (PDict (receipt_entries retire_r1 answer_r1 ''release'' ''receipt-1'' (stamp noon) ''fleet-manager''))"
proof -
  have issued: "ol_issued answered ''k1'' = Some retire_r1" "ol_receipts answered ''k1'' = Some answer_r1"
    by (simp_all add: answered_def told_def)
  have forms: "valid_date_time (stamp noon)"
    using stamp_noon unfolding stamp_us_def valid_date_time_def by (auto split: option.splits if_splits)
  have id: "request_body ''receipt-1''" by (simp add: request_body_def request_char_def char_simps)
  have evidence: "\<forall>e. rt_evidence answer_r1 = Some e \<longrightarrow> digest_body (ev_digest e)"
    by (simp add: answer_r1_def proof_of_r1_def digest_body_def starts_with_def hex_a_def char_simps)
  have kind: "contract_operation (op_kind retire_r1) = Some ''release''" "op_kind retire_r1 \<notin> read_only_kinds"
    by (simp_all add: retire_r1_def read_only_kinds_def)
  have subject: "subject_make (sb_kind (op_subject o')) (sb_subject_id (op_subject o')) = Inr (op_subject o')"
    if "ol_issued answered ''k1'' = Some o'" for o' using that issued(1) demo_work(5) by simp
  have made: "evidence_make (ev_digest e) (ev_location e) = Inr e"
    if "ol_receipts answered ''k1'' = Some r" "rt_evidence r = Some e" for r e
    using that issued(2) demo_work(4) by (auto simp: answer_r1_def)
  have stamped: "stamp noon \<noteq> []" by (simp add: stamp_def isoformat_utc_def)
  show ?thesis
    by (rule authoritative_receipt_iff [OF demo_ledgers(2) stamped, THEN iffD2], erule subject, erule (1) made,
        intro exI conjI) ((rule issued kind refl forms id evidence | simp)+)
qed

end
