(* ===== verification/Fleet_Documents.thy ===== *)
theory Fleet_Documents
  imports Py_Roundtrip Fleet_Model "HOL-Library.Multiset"
begin

text \<open>
  Desired state as a document, \<open>fleet_manager/documents.py\<close>: for every value type a function that writes it
  and one that reads it back, closed in both directions, and the refusal of keys shaped like a secret.
  A document is a \<^typ>\<open>pyval\<close>; the writers are the \<open>*_to_document\<close> functions of the code, and the readers
  its \<open>*_from_document\<close> functions with the path they report.
\<close>

section \<open>Shapes\<close>

definition document_schema :: string where
  "document_schema = ''fleet-manager-desired-state/1''"

text \<open>
  The pattern of a secret-shaped key, on the lower-case text: a word after the start, a dash or an
  underscore, an optional plural, and then the end, a dash or an underscore.
\<close>

definition secret_words :: "string list" where
  "secret_words =
     [''token'', ''password'', ''passwd'', ''secret'', ''apikey'', ''api_key'', ''api-key'', ''privatekey'',
      ''private_key'', ''private-key'', ''credential'']"

definition separator :: "char \<Rightarrow> bool" where
  "separator c \<longleftrightarrow> c = CHR ''_'' \<or> c = CHR ''-''"

definition word_ends :: "string \<Rightarrow> bool" where
  "word_ends s \<longleftrightarrow> s = [] \<or> s = [newline] \<or> separator (hd s)"

definition secret_word_at :: "string \<Rightarrow> bool" where
  "secret_word_at s \<longleftrightarrow>
     list_ex (\<lambda>w. starts_with w s
       \<and> (let r = drop (length w) s in word_ends r \<or> (r \<noteq> [] \<and> hd r = CHR ''s'' \<and> word_ends (tl r))))
       secret_words"

fun secret_word_after :: "string \<Rightarrow> bool" where
  "secret_word_after [] \<longleftrightarrow> False"
| "secret_word_after (c # s) \<longleftrightarrow> separator c \<and> secret_word_at s \<or> secret_word_after s"

definition secret_key :: "string \<Rightarrow> bool" where
  "secret_key k \<longleftrightarrow> (let s = map to_lower k in secret_word_at s \<or> secret_word_after s)"

definition reference_keys :: "string list" where
  "reference_keys = [''secret_profile'']"

lemma eachR_cong [fundef_cong]:
  "n = m \<Longrightarrow> xs = ys \<Longrightarrow> (\<And>i x. x \<in> set ys \<Longrightarrow> f i x = g i x) \<Longrightarrow> eachR f n xs = eachR g m ys"
  by (induction xs arbitrary: ys n m) auto

lemma mapR_cong [fundef_cong]: "xs = ys \<Longrightarrow> (\<And>x. x \<in> set ys \<Longrightarrow> f x = g x) \<Longrightarrow> mapR f xs = mapR g ys"
  unfolding mapR_def by (rule eachR_cong) auto

fun reject_secret_values :: "pyval \<Rightarrow> string \<Rightarrow> unit res" where
  "reject_secret_values (PDict kvs) path =
     bindR (mapR (\<lambda>(k, v).
         if secret_key k \<and> k \<notin> set reference_keys
         then model_error (path @ ''.'' @ k @ '': secret-shaped fields are not representable in ''
                @ ''desired state -- reference a secret profile instead'')
         else reject_secret_values v (path @ ''.'' @ k)) kvs) (\<lambda>_. Inr ())"
| "reject_secret_values (PList vs) path =
     bindR (eachR (\<lambda>i v. reject_secret_values v (index_str path i)) 0 vs) (\<lambda>_. Inr ())"
| "reject_secret_values v path = Inr ()"

definition as_list :: "pyval \<Rightarrow> string \<Rightarrow> pyval list res" where
  "as_list v w = (case v of PList vs \<Rightarrow> Inr vs | _ \<Rightarrow> model_error (w @ '': must be a list''))"

definition as_object :: "pyval \<Rightarrow> string \<Rightarrow> (string \<times> pyval) list res" where
  "as_object v w = (case v of PDict d \<Rightarrow> Inr d | _ \<Rightarrow> model_error (w @ '': must be an object''))"

definition pairs_of :: "pyval \<Rightarrow> string \<Rightarrow> (string \<times> string) list res" where
  "pairs_of v w =
     bindR (as_object v w) (\<lambda>d.
     bindR (mapR (\<lambda>(k, x). case x of
         PStr s \<Rightarrow> Inr (k, s)
       | _ \<Rightarrow> model_error (w @ '': label names and values must both be strings'')) d) (\<lambda>ps. Inr (sort ps)))"

text \<open>An enum read by value: the members in the order the class declares them.\<close>

definition enum_of :: "('m \<Rightarrow> string) \<Rightarrow> 'm list \<Rightarrow> pyval \<Rightarrow> string \<Rightarrow> 'm res" where
  "enum_of val members v w =
     (let refusal = model_error (w @ '': must be one of '' @ join '', '' (map val members)) in
      case v of
        PStr s \<Rightarrow> (case find (\<lambda>m. val m = s) members of Some m \<Rightarrow> Inr m | None \<Rightarrow> refusal)
      | _ \<Rightarrow> refusal)"

definition shape_of :: "(string \<times> pyval) list \<Rightarrow> string \<Rightarrow> string list \<Rightarrow> string list \<Rightarrow> unit res" where
  "shape_of d w required others =
     (let missing = filter (\<lambda>k. k \<notin> fst ` set d) required;
          unknown = sort (filter (\<lambda>k. k \<notin> set required \<and> k \<notin> set others) (map fst d)) in
      if missing \<noteq> [] then model_error (w @ '': missing required field(s): '' @ join '', '' (sort missing))
      else if unknown \<noteq> [] then model_error (w @ '': unknown field(s): '' @ join '', '' unknown)
      else Inr ())"

definition build_at :: "string \<Rightarrow> 'a res \<Rightarrow> 'a res" where
  "build_at w m = mapErr (of_class ModelError) (\<lambda>e. Exn ModelError (w @ '': '' @ exn_text e)) m"

definition get_or :: "(string \<times> pyval) list \<Rightarrow> string \<Rightarrow> pyval \<Rightarrow> pyval" where
  "get_or d k dflt = (case map_of d k of None \<Rightarrow> dflt | Some v \<Rightarrow> v)"

text \<open>The common start of every reader: an object, without secrets, of the closed shape.\<close>

definition open_document :: "pyval \<Rightarrow> string \<Rightarrow> string list \<Rightarrow> string list \<Rightarrow> (string \<times> pyval) list res" where
  "open_document doc w required others =
     bindR (as_object doc w) (\<lambda>d.
     bindR (reject_secret_values doc w) (\<lambda>_.
     bindR (shape_of d w required others) (\<lambda>_. Inr d)))"

section \<open>Values\<close>

definition repository_required :: "string list" where
  "repository_required = [''name'', ''trust_class'']"

definition repository_to_document :: "repository \<Rightarrow> pyval" where
  "repository_to_document r = PDict
     [(''name'', PStr (r_name r)), (''trust_class'', PStr (trust_value (r_trust_class r))),
      (''runner_group'', opt_str (r_runner_group r))]"

definition repository_from_document :: "pyval \<Rightarrow> string \<Rightarrow> repository res" where
  "repository_from_document doc w =
     bindR (open_document doc w repository_required [''runner_group'']) (\<lambda>d.
       build_at w (
         bindR (enum_of trust_value [PUBLIC, PRIVATE, ISOLATED] (py_get d ''trust_class'') (w @ ''.trust_class''))
           (\<lambda>t. repository_make (py_get d ''name'') t (py_get d ''runner_group''))))"

definition pool_required :: "string list" where
  "pool_required =
     [''pool_id'', ''revision'', ''trust_class'', ''required_labels'', ''runtime'', ''image_digest'', ''architectures'',
      ''warm_min'', ''warm_max'', ''scale_ceiling'', ''idle_timeout_seconds'', ''job_timeout_seconds'',
      ''cleanup_timeout_seconds'', ''network_profile'', ''filesystem_profile'', ''secret_profile'', ''update_channel'',
      ''rollback_image_digest'', ''maintenance_window'', ''disruption_budget'', ''owner'', ''escalation'']"

definition pool_others :: "string list" where
  "pool_others = [''allowed_repositories'', ''runner_group'', ''ephemeral'']"

text \<open>\<open>dict(labels)\<close>.\<close>

definition labels_document :: "(string \<times> string) list \<Rightarrow> pyval" where
  "labels_document ls = PDict (dict_of (map (\<lambda>(k, v). (k, PStr v)) ls))"

definition pool_to_document :: "pool \<Rightarrow> pyval" where
  "pool_to_document p = PDict
     [(''pool_id'', PStr (p_pool_id p)), (''revision'', PInt (p_revision p)),
      (''trust_class'', PStr (trust_value (p_trust_class p))),
      (''allowed_repositories'', PList (map PStr (p_allowed_repositories p))),
      (''runner_group'', opt_str (p_runner_group p)), (''required_labels'', labels_document (p_required_labels p)),
      (''runtime'', PStr (runtime_value (p_runtime p))), (''image_digest'', PStr (p_image_digest p)),
      (''architectures'', PList (map PStr (p_architectures p))), (''ephemeral'', PBool True),
      (''warm_min'', PInt (p_warm_min p)), (''warm_max'', PInt (p_warm_max p)),
      (''scale_ceiling'', PInt (p_scale_ceiling p)),
      (''idle_timeout_seconds'', PInt (p_idle_timeout_seconds p)),
      (''job_timeout_seconds'', PInt (p_job_timeout_seconds p)),
      (''cleanup_timeout_seconds'', PInt (p_cleanup_timeout_seconds p)),
      (''network_profile'', PStr (p_network_profile p)), (''filesystem_profile'', PStr (p_filesystem_profile p)),
      (''secret_profile'', PStr (p_secret_profile p)), (''update_channel'', PStr (p_update_channel p)),
      (''rollback_image_digest'', PStr (p_rollback_image_digest p)),
      (''maintenance_window'', PStr (p_maintenance_window p)),
      (''disruption_budget'', PDict [(''max_parallel'', PInt (max_parallel (p_disruption_budget p)))]),
      (''owner'', PStr (p_owner p)), (''escalation'', PStr (p_escalation p))]"

definition pool_from_document :: "pyval \<Rightarrow> string \<Rightarrow> pool res" where
  "pool_from_document doc w =
     bindR (open_document doc w pool_required pool_others) (\<lambda>d.
     bindR (as_object (py_get d ''disruption_budget'') (w @ ''.disruption_budget'')) (\<lambda>b.
     bindR (shape_of b (w @ ''.disruption_budget'') [''max_parallel''] []) (\<lambda>_.
       build_at w (
         bindR (enum_of trust_value [PUBLIC, PRIVATE, ISOLATED] (py_get d ''trust_class'') (w @ ''.trust_class'')) (\<lambda>trust.
         bindR (as_list (get_or d ''allowed_repositories'' (PList [])) (w @ ''.allowed_repositories'')) (\<lambda>repos.
         bindR (pairs_of (py_get d ''required_labels'') (w @ ''.required_labels'')) (\<lambda>labels.
         bindR (enum_of runtime_value [DOCKER, PODMAN] (py_get d ''runtime'') (w @ ''.runtime'')) (\<lambda>rt.
         bindR (as_list (py_get d ''architectures'') (w @ ''.architectures'')) (\<lambda>archs.
         bindR (disruption_budget_make (py_get b ''max_parallel'')) (\<lambda>budget.
           pool_make
             \<lparr>rp_pool_id = py_get d ''pool_id'', rp_revision = py_get d ''revision'', rp_trust_class = trust,
              rp_required_labels = labels, rp_runtime = rt, rp_image_digest = py_get d ''image_digest'',
              rp_architectures = archs, rp_warm_min = py_get d ''warm_min'', rp_warm_max = py_get d ''warm_max'',
              rp_scale_ceiling = py_get d ''scale_ceiling'',
              rp_idle_timeout_seconds = py_get d ''idle_timeout_seconds'',
              rp_job_timeout_seconds = py_get d ''job_timeout_seconds'',
              rp_cleanup_timeout_seconds = py_get d ''cleanup_timeout_seconds'',
              rp_network_profile = py_get d ''network_profile'',
              rp_filesystem_profile = py_get d ''filesystem_profile'',
              rp_secret_profile = py_get d ''secret_profile'', rp_update_channel = py_get d ''update_channel'',
              rp_rollback_image_digest = py_get d ''rollback_image_digest'',
              rp_maintenance_window = py_get d ''maintenance_window'', rp_disruption_budget = budget,
              rp_owner = py_get d ''owner'', rp_escalation = py_get d ''escalation'',
              rp_allowed_repositories = repos, rp_runner_group = py_get d ''runner_group'',
              rp_ephemeral = get_or d ''ephemeral'' (PBool True)\<rparr>))))))))))"

definition host_required :: "string list" where
  "host_required = [''host_id'', ''architectures'', ''runtimes'', ''labels'', ''allowed_pools'', ''slots'']"

definition host_to_document :: "host \<Rightarrow> pyval" where
  "host_to_document h = PDict
     [(''host_id'', PStr (h_host_id h)), (''architectures'', PList (map PStr (h_architectures h))),
      (''runtimes'', PList (map (\<lambda>r. PStr (runtime_value r)) (h_runtimes h))),
      (''labels'', labels_document (h_labels h)), (''allowed_pools'', PList (map PStr (h_allowed_pools h))),
      (''slots'', PInt (h_slots h)), (''state'', PStr (host_state_value (h_state h)))]"

definition host_from_document :: "pyval \<Rightarrow> string \<Rightarrow> host res" where
  "host_from_document doc w =
     bindR (open_document doc w host_required [''state'']) (\<lambda>d.
       build_at w (
         bindR (as_list (py_get d ''architectures'') (w @ ''.architectures'')) (\<lambda>archs.
         bindR (as_list (py_get d ''runtimes'') (w @ ''.runtimes'')) (\<lambda>rs.
         bindR (eachR (\<lambda>i r. enum_of runtime_value [DOCKER, PODMAN] r (index_str (w @ ''.runtimes'') i)) 0 rs) (\<lambda>runtimes.
         bindR (pairs_of (py_get d ''labels'') (w @ ''.labels'')) (\<lambda>labels.
         bindR (as_list (py_get d ''allowed_pools'') (w @ ''.allowed_pools'')) (\<lambda>pools.
         bindR (enum_of host_state_value [H_ACTIVE, H_DRAINING, H_DRAINED, H_MAINTENANCE]
             (get_or d ''state'' (PStr (host_state_value H_ACTIVE))) (w @ ''.state'')) (\<lambda>st.
           host_make (py_get d ''host_id'') archs runtimes labels pools (py_get d ''slots'') st))))))))"

definition assignment_required :: "string list" where
  "assignment_required = [''assignment_id'', ''request_id'', ''pool_id'', ''host_id'', ''issued_at'']"

definition assignment_to_document :: "assignment \<Rightarrow> pyval" where
  "assignment_to_document a = PDict
     [(''assignment_id'', PStr (a_assignment_id a)), (''request_id'', PStr (a_request_id a)),
      (''pool_id'', PStr (a_pool_id a)), (''host_id'', PStr (a_host_id a)), (''issued_at'', PStr (a_issued_at a)),
      (''released_at'', opt_str (a_released_at a))]"

definition assignment_from_document :: "pyval \<Rightarrow> string \<Rightarrow> assignment res" where
  "assignment_from_document doc w =
     bindR (open_document doc w assignment_required [''released_at'']) (\<lambda>d.
       build_at w (assignment_make (py_get d ''assignment_id'') (py_get d ''request_id'') (py_get d ''pool_id'')
         (py_get d ''host_id'') (py_get d ''issued_at'') (py_get d ''released_at'')))"

definition drain_required :: "string list" where
  "drain_required = [''host_id'', ''reason'', ''requested_at'']"

definition drain_to_document :: "drain \<Rightarrow> pyval" where
  "drain_to_document d = PDict
     [(''host_id'', PStr (d_host_id d)), (''reason'', PStr (d_reason d)), (''requested_at'', PStr (d_requested_at d)),
      (''state'', PStr (drain_state_value (d_state d))), (''completed_at'', d_completed_at d),
      (''ended_at'', d_ended_at d)]"

definition drain_from_document :: "pyval \<Rightarrow> string \<Rightarrow> drain res" where
  "drain_from_document doc w =
     bindR (open_document doc w drain_required [''state'', ''completed_at'', ''ended_at'']) (\<lambda>d.
       build_at w (
         bindR (enum_of drain_state_value [D_DRAINING, D_DRAINED, D_ENDED]
             (get_or d ''state'' (PStr (drain_state_value D_DRAINING))) (w @ ''.state'')) (\<lambda>st.
           drain_make (py_get d ''host_id'') (py_get d ''reason'') (py_get d ''requested_at'') st
             (py_get d ''completed_at'') (py_get d ''ended_at''))))"

definition rollout_required :: "string list" where
  "rollout_required = [''rollout_id'', ''pool_id'', ''from_image_digest'', ''to_image_digest'', ''started_at'']"

definition rollout_to_document :: "rollout \<Rightarrow> pyval" where
  "rollout_to_document r = PDict
     [(''rollout_id'', PStr (ro_rollout_id r)), (''pool_id'', PStr (ro_pool_id r)),
      (''from_image_digest'', PStr (ro_from_image_digest r)), (''to_image_digest'', PStr (ro_to_image_digest r)),
      (''started_at'', PStr (ro_started_at r)), (''state'', PStr (rollout_state_value (ro_state r)))]"

definition rollout_from_document :: "pyval \<Rightarrow> string \<Rightarrow> rollout res" where
  "rollout_from_document doc w =
     bindR (open_document doc w rollout_required [''state'']) (\<lambda>d.
       build_at w (
         bindR (enum_of rollout_state_value [R_IN_PROGRESS, R_COMPLETED, R_ROLLED_BACK]
             (get_or d ''state'' (PStr (rollout_state_value R_IN_PROGRESS))) (w @ ''.state'')) (\<lambda>st.
           rollout_make (py_get d ''rollout_id'') (py_get d ''pool_id'') (py_get d ''from_image_digest'')
             (py_get d ''to_image_digest'') (py_get d ''started_at'') st)))"

section \<open>The aggregate\<close>

definition state_others :: "string list" where
  "state_others = [''repositories'', ''pools'', ''hosts'', ''assignments'', ''drains'', ''rollouts'']"

definition to_document :: "desired_state \<Rightarrow> pyval" where
  "to_document s = PDict
     [(''schema'', PStr document_schema), (''revision'', PInt (ds_revision s)),
      (''repositories'', PList (map repository_to_document (ds_repositories s))),
      (''pools'', PList (map pool_to_document (ds_pools s))),
      (''hosts'', PList (map host_to_document (ds_hosts s))),
      (''assignments'', PList (map assignment_to_document (ds_assignments s))),
      (''drains'', PList (map drain_to_document (ds_drains s))),
      (''rollouts'', PList (map rollout_to_document (ds_rollouts s)))]"

definition document_items ::
  "(string \<times> pyval) list \<Rightarrow> string \<Rightarrow> (pyval \<Rightarrow> string \<Rightarrow> 'a res) \<Rightarrow> 'a list res" where
  "document_items d k parse =
     (let w = ''desired_state.'' @ k in
      bindR (as_list (get_or d k (PList [])) w) (\<lambda>raw. eachR (\<lambda>i v. parse v (index_str w i)) 0 raw))"

definition from_document :: "pyval \<Rightarrow> desired_state res" where
  "from_document doc =
     bindR (open_document doc ''desired_state'' [''schema'', ''revision''] state_others) (\<lambda>d.
       if py_get d ''schema'' \<noteq> PStr document_schema
       then model_error (''desired_state.schema: must be '' @ py_repr document_schema)
       else build_at ''desired_state'' (
         bindR (document_items d ''repositories'' repository_from_document) (\<lambda>repos.
         bindR (document_items d ''pools'' pool_from_document) (\<lambda>ps.
         bindR (document_items d ''hosts'' host_from_document) (\<lambda>hs.
         bindR (document_items d ''assignments'' assignment_from_document) (\<lambda>as.
         bindR (document_items d ''drains'' drain_from_document) (\<lambda>ds.
         bindR (document_items d ''rollouts'' rollout_from_document) (\<lambda>rs.
           desired_state_make (py_get d ''revision'')
             \<lparr>ds_revision = 0, ds_repositories = repos, ds_pools = ps, ds_hosts = hs, ds_assignments = as,
              ds_drains = ds, ds_rollouts = rs\<rparr>))))))))"

section \<open>What the shapes accept\<close>

fun secret_free :: "pyval \<Rightarrow> bool" where
  "secret_free (PDict kvs) \<longleftrightarrow> list_all (\<lambda>(k, v). (secret_key k \<longrightarrow> k \<in> set reference_keys) \<and> secret_free v) kvs"
| "secret_free (PList vs) \<longleftrightarrow> list_all secret_free vs"
| "secret_free v \<longleftrightarrow> True"

lemma eachR_all_ok:
  assumes "\<And>i x. x \<in> set xs \<Longrightarrow> (\<exists>u. f i x = Inr u) \<longleftrightarrow> P x"
  shows "(\<exists>us. eachR f n xs = Inr us) \<longleftrightarrow> list_all P xs"
  using assms
proof (induction xs arbitrary: n)
  case (Cons x xs)
  have "(\<exists>us. eachR f n (x # xs) = Inr us) \<longleftrightarrow> (\<exists>u. f n x = Inr u) \<and> (\<exists>us. eachR f (Suc n) xs = Inr us)"
    by (auto simp: bindR_Inr_iff)
  then show ?case using Cons by simp
qed simp

lemma reject_secret_values_ok: "reject_secret_values v path = Inr () \<longleftrightarrow> secret_free v"
proof (induction v arbitrary: path rule: secret_free.induct)
  case (1 kvs)
  let ?one = "\<lambda>(k, v). if secret_key k \<and> k \<notin> set reference_keys
         then model_error (path @ ''.'' @ k @ '': secret-shaped fields are not representable in ''
                @ ''desired state -- reference a secret profile instead'')
         else reject_secret_values v (path @ ''.'' @ k)"
  have "(\<exists>u. ?one kv = Inr u) \<longleftrightarrow>
      (case kv of (k, v) \<Rightarrow> (secret_key k \<longrightarrow> k \<in> set reference_keys) \<and> secret_free v)" if "kv \<in> set kvs" for kv
    using 1 [OF that] by (cases kv) auto
  then show ?case unfolding reject_secret_values.simps secret_free.simps mapR_def bindR_Inr_iff
    by (subst eachR_all_ok [symmetric, where f = "\<lambda>_. ?one" and n = 0]) auto
next
  case (2 vs)
  then show ?case unfolding reject_secret_values.simps secret_free.simps bindR_Inr_iff
    by (subst eachR_all_ok [symmetric, where f = "\<lambda>i v. reject_secret_values v (index_str path i)" and n = 0]) auto
qed simp_all

lemma as_object_ok: "as_object v w = Inr d \<longleftrightarrow> v = PDict d"
  by (cases v) (auto simp: as_object_def)

lemma as_list_ok: "as_list v w = Inr vs \<longleftrightarrow> v = PList vs"
  by (cases v) (auto simp: as_list_def)

lemma two_guards: "(if b \<noteq> [] then model_error m else if c \<noteq> [] then model_error n else Inr ()) = Inr u \<longleftrightarrow> b = [] \<and> c = []"
  by simp

lemma shape_of_ok: "shape_of d w required others = Inr u \<longleftrightarrow>
    set required \<subseteq> fst ` set d \<and> fst ` set d \<subseteq> set required \<union> set others"
proof -
  have one: "sort (filter p xs) = [] \<longleftrightarrow> (\<forall>x \<in> set xs. \<not> p x)" for p and xs :: "string list"
    by (metis filter_empty_conv set_empty set_sort)
  have "shape_of d w required others = Inr u \<longleftrightarrow> filter (\<lambda>k. k \<notin> fst ` set d) required = []
      \<and> sort (filter (\<lambda>k. k \<notin> set required \<and> k \<notin> set others) (map fst d)) = []"
    unfolding shape_of_def Let_def by (rule two_guards)
  then show ?thesis unfolding one filter_empty_conv subset_eq set_map Un_iff by blast
qed

lemma build_at_ok: "build_at w m = Inr x \<longleftrightarrow> m = Inr x"
  by (simp add: build_at_def mapErr_Inr_iff)

lemma open_document_ok: "open_document doc w required others = Inr d \<longleftrightarrow>
    doc = PDict d \<and> secret_free doc \<and> set required \<subseteq> fst ` set d \<and> fst ` set d \<subseteq> set required \<union> set others"
  by (auto simp: open_document_def bindR_Inr_iff as_object_ok shape_of_ok reject_secret_values_ok)

text \<open>An enum with distinct values is read exactly from the value of a member.\<close>

lemma enum_of_ok:
  assumes "inj val" and "\<And>m. m \<in> set members"
  shows "enum_of val members v w = Inr m \<longleftrightarrow> v = PStr (val m)"
proof (cases "\<exists>s. v = PStr s")
  case True
  then obtain s where v: "v = PStr s" by blast
  have "find (\<lambda>m. val m = s) members = Some m \<longleftrightarrow> s = val m"
  proof
    assume "find (\<lambda>m. val m = s) members = Some m"
    then show "s = val m" by (auto simp: find_Some_iff)
  next
    assume s: "s = val m"
    then obtain k where "find (\<lambda>m. val m = s) members = Some k"
      using assms(2) [of m] by (cases "find (\<lambda>m. val m = s) members") (auto simp: find_None_iff)
    moreover from this have "val k = val m" using s by (auto simp: find_Some_iff)
    ultimately show "find (\<lambda>m. val m = s) members = Some m" using assms(1) by (simp add: inj_eq)
  qed
  then show ?thesis unfolding v enum_of_def by (auto split: option.split)
next
  case False
  then show ?thesis by (cases v) (auto simp: enum_of_def)
qed

lemma enums_ok:
  "enum_of trust_value [PUBLIC, PRIVATE, ISOLATED] v w = Inr t \<longleftrightarrow> v = PStr (trust_value t)"
  "enum_of runtime_value [DOCKER, PODMAN] v w = Inr r \<longleftrightarrow> v = PStr (runtime_value r)"
  "enum_of host_state_value [H_ACTIVE, H_DRAINING, H_DRAINED, H_MAINTENANCE] v w = Inr h \<longleftrightarrow> v = PStr (host_state_value h)"
  "enum_of drain_state_value [D_DRAINING, D_DRAINED, D_ENDED] v w = Inr d \<longleftrightarrow> v = PStr (drain_state_value d)"
  "enum_of rollout_state_value [R_IN_PROGRESS, R_COMPLETED, R_ROLLED_BACK] v w = Inr x \<longleftrightarrow> v = PStr (rollout_state_value x)"
proof -
  have inj: "inj trust_value" "inj runtime_value" "inj host_state_value" "inj drain_state_value" "inj rollout_state_value"
    unfolding inj_def by (intro allI, rename_tac a b, case_tac a; case_tac b; simp)+
  have all: "m \<in> set [PUBLIC, PRIVATE, ISOLATED]" "n \<in> set [DOCKER, PODMAN]"
      "k \<in> set [H_ACTIVE, H_DRAINING, H_DRAINED, H_MAINTENANCE]" "i \<in> set [D_DRAINING, D_DRAINED, D_ENDED]"
      "j \<in> set [R_IN_PROGRESS, R_COMPLETED, R_ROLLED_BACK]" for m n k i j
    using trust_class.exhaust [of m] runtime.exhaust [of n] host_state.exhaust [of k] drain_state.exhaust [of i]
      rollout_state.exhaust [of j] by auto
  show "enum_of trust_value [PUBLIC, PRIVATE, ISOLATED] v w = Inr t \<longleftrightarrow> v = PStr (trust_value t)"
    by (rule enum_of_ok [OF inj(1) all(1)])
  show "enum_of runtime_value [DOCKER, PODMAN] v w = Inr r \<longleftrightarrow> v = PStr (runtime_value r)"
    by (rule enum_of_ok [OF inj(2) all(2)])
  show "enum_of host_state_value [H_ACTIVE, H_DRAINING, H_DRAINED, H_MAINTENANCE] v w = Inr h \<longleftrightarrow> v = PStr (host_state_value h)"
    by (rule enum_of_ok [OF inj(3) all(3)])
  show "enum_of drain_state_value [D_DRAINING, D_DRAINED, D_ENDED] v w = Inr d \<longleftrightarrow> v = PStr (drain_state_value d)"
    by (rule enum_of_ok [OF inj(4) all(4)])
  show "enum_of rollout_state_value [R_IN_PROGRESS, R_COMPLETED, R_ROLLED_BACK] v w = Inr x \<longleftrightarrow> v = PStr (rollout_state_value x)"
    by (rule enum_of_ok [OF inj(5) all(5)])
qed

section \<open>Reading and writing\<close>

lemma eachR_image_ok:
  assumes "\<And>i x y. f i x = Inr y \<longleftrightarrow> x = g y"
  shows "eachR f n xs = Inr ys \<longleftrightarrow> xs = map g ys"
proof (induction xs arbitrary: n ys)
  case (Cons x xs)
  then show ?case by (cases ys) (auto simp: bindR_Inr_iff assms)
qed auto

lemma eachR_mem: "eachR f n xs = Inr ys \<Longrightarrow> y \<in> set ys \<Longrightarrow> \<exists>i. \<exists>x \<in> set xs. f i x = Inr y"
proof (induction xs arbitrary: n ys)
  case (Cons x xs)
  then obtain z zs where "f n x = Inr z" "eachR f (Suc n) xs = Inr zs" "y = z \<or> y \<in> set zs"
    by (auto simp: bindR_Inr_iff)
  then show ?case using Cons.IH [of "Suc n" zs] by auto
qed simp

lemma eachR_back:
  "(\<And>i y. y \<in> set ys \<Longrightarrow> f i (g y) = Inr y) \<Longrightarrow> eachR f n (map g ys) = Inr ys"
  by (induction ys arbitrary: n) auto

text \<open>A \<open>dict\<close> has a key once.\<close>

fun unique_keys :: "pyval \<Rightarrow> bool" where
  "unique_keys (PDict kvs) \<longleftrightarrow> distinct (map fst kvs) \<and> list_all (\<lambda>(k, v). unique_keys v) kvs"
| "unique_keys (PList vs) \<longleftrightarrow> list_all unique_keys vs"
| "unique_keys v \<longleftrightarrow> True"

lemma entry_plain:
  "secret_free (PDict d) \<Longrightarrow> secret_free (get_or d k v) \<or> map_of d k = None"
  "unique_keys (PDict d) \<Longrightarrow> unique_keys (get_or d k v) \<or> map_of d k = None"
  by (auto simp: get_or_def list_all_iff dest!: map_of_SomeD split: option.split)

lemma py_get_or: "py_get d k = get_or d k PNone"
  by (simp add: py_get_def get_or_def)

lemma entry_ok:
  "secret_free (PDict d) \<Longrightarrow> secret_free v \<Longrightarrow> secret_free (get_or d k v)"
  "unique_keys (PDict d) \<Longrightarrow> unique_keys v \<Longrightarrow> unique_keys (get_or d k v)"
  using entry_plain [of d k v] by (auto simp: get_or_def)

definition plain_key :: "string \<Rightarrow> bool" where
  "plain_key k \<longleftrightarrow> (secret_key k \<longrightarrow> k \<in> set reference_keys)"

definition normal_labels :: "(string \<times> string) list \<Rightarrow> bool" where
  "normal_labels ls \<longleftrightarrow> sorted ls \<and> distinct (map fst ls) \<and> list_all (\<lambda>l. plain_key (fst l)) ls"

lemma pairs_of_ok: "pairs_of v w = Inr ls \<longleftrightarrow>
    (\<exists>ps. v = PDict (map (\<lambda>(k, s). (k, PStr s)) ps) \<and> ls = sort ps)"
proof -
  have "(case kx of (k, x) \<Rightarrow> case x of PStr s \<Rightarrow> Inr (k, s) | _ \<Rightarrow> model_error m) = Inr y
      \<longleftrightarrow> kx = (case y of (k, s) \<Rightarrow> (k, PStr s))" for kx m and y :: "string \<times> string"
    by (cases kx; cases y) (auto split: pyval.split)
  then have "mapR (\<lambda>(k, x). case x of PStr s \<Rightarrow> Inr (k, s) | _ \<Rightarrow> model_error m) d = Inr ps
      \<longleftrightarrow> d = map (\<lambda>(k, s). (k, PStr s)) ps" for m d and ps :: "(string \<times> string) list"
    unfolding mapR_def by (intro eachR_image_ok) simp
  then show ?thesis by (auto simp: pairs_of_def bindR_Inr_iff as_object_ok)
qed

lemma labels_plain: "secret_free (PDict (map (\<lambda>(k, s). (k, PStr s)) ps)) \<longleftrightarrow> list_all (\<lambda>l. plain_key (fst l)) ps"
  by (auto simp: list_all_iff plain_key_def)

lemma pairs_normal:
  assumes "pairs_of v w = Inr ls" and "unique_keys v" and "secret_free v"
  shows "normal_labels ls"
proof -
  obtain ps where v: "v = PDict (map (\<lambda>(k, s). (k, PStr s)) ps)" and ls: "ls = sort ps"
    using assms(1) by (auto simp: pairs_of_ok)
  have "distinct (map fst ps)" using assms(2) unfolding v by (simp add: case_prod_beta comp_def)
  moreover have "mset (map fst (sort ps)) = mset (map fst ps)" by simp
  ultimately have "distinct (map fst ls)" unfolding ls by (metis mset_eq_imp_distinct_iff)
  then show ?thesis using assms(3) unfolding normal_labels_def ls v labels_plain by (simp add: list_all_iff)
qed

lemma labels_document_eq:
  assumes "distinct (map fst ls)"
  shows "labels_document ls = PDict (map (\<lambda>(k, s). (k, PStr s)) ls)"
proof -
  have "distinct (map fst (map (\<lambda>(k, s). (k, PStr s)) ls))" using assms by (simp add: case_prod_beta comp_def)
  then show ?thesis by (simp add: labels_document_def dict_of_distinct)
qed

lemma labels_round_trip:
  assumes "normal_labels ls"
  shows "pairs_of (labels_document ls) w = Inr ls" and "secret_free (labels_document ls)"
  using assms by (auto simp: normal_labels_def labels_document_eq pairs_of_ok labels_plain sorted_sort_id intro!: exI [of _ ls]
      simp del: secret_free.simps)

text \<open>What a value read from a document satisfies, beyond the constructor's checks.\<close>

definition pool_ready :: "pool \<Rightarrow> bool" where
  "pool_ready p \<longleftrightarrow> pool_ok p \<and> normal_labels (p_required_labels p) \<and> 1 \<le> max_parallel (p_disruption_budget p)"

definition host_ready :: "host \<Rightarrow> bool" where
  "host_ready h \<longleftrightarrow> host_ok h \<and> normal_labels (h_labels h)"

definition drain_ready :: "drain \<Rightarrow> bool" where
  "drain_ready d \<longleftrightarrow> drain_ok d \<and> secret_free (d_completed_at d) \<and> secret_free (d_ended_at d)"

lemmas reader_ok = open_document_ok build_at_ok enums_ok as_list_ok as_object_ok shape_of_ok bindR_Inr_iff py_get_or

lemma repository_read: "repository_from_document doc w = Inr r \<Longrightarrow> repository_ok r"
  by (auto simp: repository_from_document_def reader_ok repository_make_ok)

lemma assignment_read: "assignment_from_document doc w = Inr a \<Longrightarrow> assignment_ok a"
  by (auto simp: assignment_from_document_def reader_ok assignment_make_ok)

lemma rollout_read: "rollout_from_document doc w = Inr r \<Longrightarrow> rollout_ok r"
  by (auto simp: rollout_from_document_def reader_ok rollout_make_ok)

lemma drain_read: "drain_from_document doc w = Inr d \<Longrightarrow> drain_ready d"
proof -
  assume "drain_from_document doc w = Inr d"
  then obtain e where "secret_free (PDict e)" and ok: "drain_ok d"
      and "get_or e ''completed_at'' PNone = d_completed_at d" "get_or e ''ended_at'' PNone = d_ended_at d"
    by (auto simp: drain_from_document_def reader_ok drain_make_ok simp del: secret_free.simps)
  then show ?thesis
    using entry_ok(1) [of e PNone "''completed_at''"] entry_ok(1) [of e PNone "''ended_at''"]
    by (simp add: drain_ready_def)
qed

lemma host_read: "host_from_document doc w = Inr h \<Longrightarrow> unique_keys doc \<Longrightarrow> host_ready h"
proof -
  assume "host_from_document doc w = Inr h" and unique: "unique_keys doc"
  then obtain d where d: "doc = PDict d" "secret_free (PDict d)" and ok: "host_ok h"
      and labels: "pairs_of (get_or d ''labels'' PNone) (w @ ''.labels'') = Inr (h_labels h)"
    by (auto simp: host_from_document_def reader_ok host_make_ok simp del: secret_free.simps)
  have "normal_labels (h_labels h)"
    by (rule pairs_normal [OF labels]) (use unique d entry_ok in \<open>simp_all del: secret_free.simps(1) unique_keys.simps(1)\<close>)
  then show ?thesis using ok by (simp add: host_ready_def)
qed

lemma pool_make_fields: "pool_make r = Inr p \<Longrightarrow> p_required_labels p = rp_required_labels r
    \<and> p_disruption_budget p = rp_disruption_budget r"
  by (auto simp: pool_make_def pool_parts_ok)

lemma pool_read: "pool_from_document doc w = Inr p \<Longrightarrow> unique_keys doc \<Longrightarrow> pool_ready p"
proof -
  assume read: "pool_from_document doc w = Inr p" and unique: "unique_keys doc"
  obtain d ls b r where d: "doc = PDict d" "secret_free (PDict d)"
      and labels: "pairs_of (get_or d ''required_labels'' PNone) (w @ ''.required_labels'') = Inr ls"
      and budget: "1 \<le> max_parallel b" and made: "pool_make r = Inr p" "rp_required_labels r = ls" "rp_disruption_budget r = b"
    using read unfolding pool_from_document_def reader_ok disruption_budget_make_ok by (elim exE conjE) auto
  have "normal_labels ls"
    by (rule pairs_normal [OF labels]) (use unique d entry_ok in \<open>simp_all del: secret_free.simps(1) unique_keys.simps(1)\<close>)
  then show ?thesis using budget pool_make_fields [OF made(1)] pool_make_ok [OF made(1)] made by (simp add: pool_ready_def)
qed

text \<open>The writers' output has the closed shape, and reads back as the value.\<close>

lemma plain_fields [simp]:
    "plain_key ''schema''" "plain_key ''revision''" "plain_key ''repositories''" "plain_key ''pools''"
    "plain_key ''hosts''" "plain_key ''assignments''" "plain_key ''drains''" "plain_key ''rollouts''"
    "plain_key ''name''" "plain_key ''trust_class''" "plain_key ''runner_group''" "plain_key ''pool_id''"
    "plain_key ''allowed_repositories''" "plain_key ''required_labels''" "plain_key ''runtime''"
    "plain_key ''image_digest''" "plain_key ''architectures''" "plain_key ''ephemeral''" "plain_key ''warm_min''"
    "plain_key ''warm_max''" "plain_key ''scale_ceiling''" "plain_key ''idle_timeout_seconds''"
    "plain_key ''job_timeout_seconds''" "plain_key ''cleanup_timeout_seconds''" "plain_key ''network_profile''"
    "plain_key ''filesystem_profile''" "plain_key ''secret_profile''" "plain_key ''update_channel''"
    "plain_key ''rollback_image_digest''" "plain_key ''maintenance_window''" "plain_key ''disruption_budget''"
    "plain_key ''max_parallel''" "plain_key ''owner''" "plain_key ''escalation''" "plain_key ''host_id''"
    "plain_key ''runtimes''" "plain_key ''labels''" "plain_key ''allowed_pools''" "plain_key ''slots''"
    "plain_key ''state''" "plain_key ''assignment_id''" "plain_key ''request_id''" "plain_key ''issued_at''"
    "plain_key ''released_at''" "plain_key ''reason''" "plain_key ''requested_at''" "plain_key ''completed_at''"
    "plain_key ''ended_at''" "plain_key ''rollout_id''" "plain_key ''from_image_digest''"
    "plain_key ''to_image_digest''" "plain_key ''started_at''"
  by code_simp+

lemma secret_free_dict: "secret_free (PDict kvs) \<longleftrightarrow> list_all (\<lambda>(k, v). plain_key k \<and> secret_free v) kvs"
  by (simp add: plain_key_def)

lemma secret_free_strings: "secret_free (PList (map PStr ss))" "secret_free (opt_str x)"
    "secret_free (PList (map (\<lambda>x. PStr (f x)) xs))"
  by (cases x; simp add: list_all_iff)+

lemma opened: "secret_free (PDict d) \<Longrightarrow> set required \<subseteq> fst ` set d \<Longrightarrow> fst ` set d \<subseteq> set required \<union> set others
    \<Longrightarrow> open_document (PDict d) w required others = Inr d"
  by (simp only: open_document_ok)

lemma enum_back:
  "enum_of trust_value [PUBLIC, PRIVATE, ISOLATED] (PStr (trust_value t)) w = Inr t"
  "enum_of runtime_value [DOCKER, PODMAN] (PStr (runtime_value r)) w = Inr r"
  "enum_of host_state_value [H_ACTIVE, H_DRAINING, H_DRAINED, H_MAINTENANCE] (PStr (host_state_value h)) w = Inr h"
  "enum_of drain_state_value [D_DRAINING, D_DRAINED, D_ENDED] (PStr (drain_state_value d)) w = Inr d"
  "enum_of rollout_state_value [R_IN_PROGRESS, R_COMPLETED, R_ROLLED_BACK] (PStr (rollout_state_value x)) w = Inr x"
  by (simp_all only: enums_ok)

lemma built: "m = Inr x \<Longrightarrow> build_at w m = Inr x"
  by (simp only: build_at_ok)

lemmas written = opened enum_back built as_list_def as_object_def get_or_def py_get_def secret_free_dict secret_free_strings

lemma repository_written: "repository_ok r \<Longrightarrow> repository_from_document (repository_to_document r) w = Inr r"
  by (simp add: repository_from_document_def repository_to_document_def repository_required_def written
      repository_make_ok del: secret_free.simps(1,2))

lemma assignment_written: "assignment_ok a \<Longrightarrow> assignment_from_document (assignment_to_document a) w = Inr a"
  by (simp add: assignment_from_document_def assignment_to_document_def assignment_required_def written
      assignment_make_ok del: secret_free.simps(1,2))

lemma rollout_written: "rollout_ok r \<Longrightarrow> rollout_from_document (rollout_to_document r) w = Inr r"
  by (simp add: rollout_from_document_def rollout_to_document_def rollout_required_def written
      rollout_make_ok del: secret_free.simps(1,2))

lemma drain_written: "drain_ready d \<Longrightarrow> drain_from_document (drain_to_document d) w = Inr d"
  by (simp add: drain_from_document_def drain_to_document_def drain_required_def written drain_ready_def
      drain_make_ok del: secret_free.simps(1,2))

lemma host_written: "host_ready h \<Longrightarrow> host_from_document (host_to_document h) w = Inr h"
proof -
  assume ready: "host_ready h"
  have "eachR (\<lambda>i r. enum_of runtime_value [DOCKER, PODMAN] r (index_str (w @ ''.runtimes'') i)) 0
      (map (\<lambda>r. PStr (runtime_value r)) (h_runtimes h)) = Inr (h_runtimes h)"
    by (rule eachR_back) (rule enum_back)
  then show ?thesis using ready labels_round_trip [of "h_labels h"]
    by (simp add: host_from_document_def host_to_document_def host_required_def written host_ready_def
        host_make_ok del: secret_free.simps(1,2))
qed

lemma pool_written: "pool_ready p \<Longrightarrow> pool_from_document (pool_to_document p) w = Inr p"
proof -
  assume ready: "pool_ready p"
  have "pool_make (raw_of_pool p) = Inr p"
    using pool_replace_self [of p] ready by (simp add: pool_replace_def pool_ready_def)
  moreover have "disruption_budget_make (PInt (max_parallel (p_disruption_budget p))) = Inr (p_disruption_budget p)"
    using ready by (simp add: disruption_budget_make_ok pool_ready_def)
  ultimately show ?thesis using ready labels_round_trip [of "p_required_labels p"]
    by (simp add: pool_from_document_def pool_to_document_def pool_required_def pool_others_def written shape_of_def
        pool_ready_def raw_of_pool_def del: secret_free.simps(1,2))
qed

section \<open>States and documents\<close>

text \<open>What a document must be able to carry, beyond a valid state.\<close>

definition storable :: "desired_state \<Rightarrow> bool" where
  "storable s \<longleftrightarrow>
     (\<forall>p \<in> set (ds_pools s). normal_labels (p_required_labels p) \<and> 1 \<le> max_parallel (p_disruption_budget p))
     \<and> (\<forall>h \<in> set (ds_hosts s). normal_labels (h_labels h))
     \<and> (\<forall>d \<in> set (ds_drains s). secret_free (d_completed_at d) \<and> secret_free (d_ended_at d))"

lemma document_items_mem:
  assumes "document_items d k parse = Inr ys" and "y \<in> set ys" and "unique_keys (PDict d)"
  obtains v w where "parse v w = Inr y" and "unique_keys v"
proof -
  obtain raw where raw: "get_or d k (PList []) = PList raw"
      and each: "eachR (\<lambda>i v. parse v (index_str (''desired_state.'' @ k) i)) 0 raw = Inr ys"
    using assms(1) by (auto simp: document_items_def Let_def bindR_Inr_iff as_list_ok)
  have "unique_keys (PList raw)" using entry_ok(2) [OF assms(3), of "PList []" k] raw by simp
  then show thesis using eachR_mem [OF each assms(2)] that by (auto simp: list_all_iff)
qed

lemma document_items_written:
  assumes "get_or d k (PList []) = PList (map g ys)" and "\<And>w y. y \<in> set ys \<Longrightarrow> parse (g y) w = Inr y"
  shows "document_items d k parse = Inr ys"
  using assms(2) by (simp add: document_items_def Let_def assms(1) as_list_def) (rule eachR_back)

lemma from_document_state:
  assumes "from_document doc = Inr s" and "unique_keys doc"
  shows "ds_ok s" and "storable s" and "secret_free doc"
proof -
  obtain d n where doc: "doc = PDict d" "secret_free doc" and n: "py_get d ''revision'' = PInt n" "ds_revision s = n" "1 \<le> n"
      and keys: "keys_ok s" "refs_ok s"
      and items: "document_items d ''repositories'' repository_from_document = Inr (ds_repositories s)"
        "document_items d ''pools'' pool_from_document = Inr (ds_pools s)"
        "document_items d ''hosts'' host_from_document = Inr (ds_hosts s)"
        "document_items d ''assignments'' assignment_from_document = Inr (ds_assignments s)"
        "document_items d ''drains'' drain_from_document = Inr (ds_drains s)"
        "document_items d ''rollouts'' rollout_from_document = Inr (ds_rollouts s)"
    using assms(1)
    by (auto simp: from_document_def open_document_ok build_at_ok bindR_Inr_iff desired_state_make_ok keys_ok_def refs_ok_def
        simp del: secret_free.simps split: if_splits)
  show "secret_free doc" by (rule doc(2))
  have u: "unique_keys (PDict d)" using assms(2) doc(1) by simp
  have "repository_ok r" if "r \<in> set (ds_repositories s)" for r
    using document_items_mem [OF items(1) that u] repository_read by metis
  moreover have pools: "pool_ready p" if "p \<in> set (ds_pools s)" for p
    using document_items_mem [OF items(2) that u] pool_read by metis
  moreover have hosts: "host_ready h" if "h \<in> set (ds_hosts s)" for h
    using document_items_mem [OF items(3) that u] host_read by metis
  moreover have "assignment_ok a" if "a \<in> set (ds_assignments s)" for a
    using document_items_mem [OF items(4) that u] assignment_read by metis
  moreover have drains: "drain_ready x" if "x \<in> set (ds_drains s)" for x
    using document_items_mem [OF items(5) that u] drain_read by metis
  moreover have "rollout_ok r" if "r \<in> set (ds_rollouts s)" for r
    using document_items_mem [OF items(6) that u] rollout_read by metis
  ultimately show "ds_ok s"
    using n keys by (simp add: ds_ok_def list_all_iff pool_ready_def host_ready_def drain_ready_def)
  show "storable s" using pools hosts drains by (simp add: storable_def pool_ready_def host_ready_def drain_ready_def)
qed

lemma document_plain:
  assumes "ds_ok s" and "storable s"
  shows "secret_free (to_document s)"
proof -
  have reads: "repository_from_document v w = Inr r \<Longrightarrow> secret_free v" "pool_from_document v w = Inr p \<Longrightarrow> secret_free v"
      "host_from_document v w = Inr h \<Longrightarrow> secret_free v" "assignment_from_document v w = Inr a \<Longrightarrow> secret_free v"
      "drain_from_document v w = Inr d \<Longrightarrow> secret_free v" "rollout_from_document v w = Inr x \<Longrightarrow> secret_free v" for v w r p h a d x
    by (auto simp: repository_from_document_def pool_from_document_def host_from_document_def
        assignment_from_document_def drain_from_document_def rollout_from_document_def bindR_Inr_iff open_document_ok
        simp del: secret_free.simps)
  have "secret_free (repository_to_document r)" if "r \<in> set (ds_repositories s)" for r
    using that assms reads(1) [OF repository_written] by (simp add: ds_ok_def list_all_iff)
  moreover have "secret_free (pool_to_document p)" if "p \<in> set (ds_pools s)" for p
    using that assms reads(2) [OF pool_written] by (simp add: ds_ok_def list_all_iff storable_def pool_ready_def)
  moreover have "secret_free (host_to_document h)" if "h \<in> set (ds_hosts s)" for h
    using that assms reads(3) [OF host_written] by (simp add: ds_ok_def list_all_iff storable_def host_ready_def)
  moreover have "secret_free (assignment_to_document a)" if "a \<in> set (ds_assignments s)" for a
    using that assms reads(4) [OF assignment_written] by (simp add: ds_ok_def list_all_iff)
  moreover have "secret_free (drain_to_document d)" if "d \<in> set (ds_drains s)" for d
    using that assms reads(5) [OF drain_written] by (simp add: ds_ok_def list_all_iff storable_def drain_ready_def)
  moreover have "secret_free (rollout_to_document r)" if "r \<in> set (ds_rollouts s)" for r
    using that assms reads(6) [OF rollout_written] by (simp add: ds_ok_def list_all_iff)
  ultimately show ?thesis
    unfolding to_document_def secret_free_dict by (simp add: list_all_iff)
qed

lemma state_written:
  assumes "ds_ok s" and "storable s"
  shows "from_document (to_document s) = Inr s"
proof -
  obtain d where d: "to_document s = PDict d"
      "d = [(''schema'', PStr document_schema), (''revision'', PInt (ds_revision s)),
        (''repositories'', PList (map repository_to_document (ds_repositories s))),
        (''pools'', PList (map pool_to_document (ds_pools s))), (''hosts'', PList (map host_to_document (ds_hosts s))),
        (''assignments'', PList (map assignment_to_document (ds_assignments s))),
        (''drains'', PList (map drain_to_document (ds_drains s))),
        (''rollouts'', PList (map rollout_to_document (ds_rollouts s)))]"
    by (simp add: to_document_def)
  have opens: "open_document (PDict d) ''desired_state'' [''schema'', ''revision''] state_others = Inr d"
    using document_plain [OF assms] unfolding d(1) by (rule opened) (simp_all add: d(2) state_others_def)
  have items: "document_items d ''repositories'' repository_from_document = Inr (ds_repositories s)"
      "document_items d ''pools'' pool_from_document = Inr (ds_pools s)"
      "document_items d ''hosts'' host_from_document = Inr (ds_hosts s)"
      "document_items d ''assignments'' assignment_from_document = Inr (ds_assignments s)"
      "document_items d ''drains'' drain_from_document = Inr (ds_drains s)"
      "document_items d ''rollouts'' rollout_from_document = Inr (ds_rollouts s)"
    using assms
    by (auto intro!: document_items_written repository_written pool_written host_written assignment_written drain_written
        rollout_written simp: d(2) get_or_def ds_ok_def list_all_iff storable_def pool_ready_def host_ready_def drain_ready_def)
  have "desired_state_make (PInt (ds_revision s)) (s\<lparr>ds_revision := 0\<rparr>) = Inr s"
    using assms(1) by (simp add: desired_state_make_ok ds_ok_def keys_ok_def refs_ok_def)
  moreover have "s\<lparr>ds_revision := 0\<rparr> = \<lparr>ds_revision = 0, ds_repositories = ds_repositories s, ds_pools = ds_pools s,
      ds_hosts = ds_hosts s, ds_assignments = ds_assignments s, ds_drains = ds_drains s, ds_rollouts = ds_rollouts s\<rparr>"
    by (cases s) simp
  ultimately show ?thesis
    unfolding from_document_def d(1) opens bindR_Inr
    by (simp add: items build_at_ok) (simp add: d(2) py_get_def)
qed

lemma storable_step:
  assumes "ds_step s t" and "ds_inv s" and "storable s"
  shows "storable t"
  using assms
proof (induction rule: ds_step.induct)
  case (assign s aid rid pid hid at t)
  then show ?case by (elim with_assignmentD) (simp add: storable_def)
next
  case (release s aid at t)
  then show ?case by (elim with_releaseD) (simp add: storable_def)
next
  case (drain s hid reason at t)
  then show ?case by (elim with_drainD) (auto simp: storable_def host_in_def new_drain_def)
next
  case (complete s hid at t)
  then show ?case by (elim with_drain_completeD) (auto simp: storable_def host_in_def drained_in_def)
next
  case (return s hid at t)
  then show ?case by (elim with_host_returnedD) (auto simp: storable_def host_in_def ended_in_def)
next
  case (rollout s rid pid to_image at t)
  have keys: "keys_ok s" using rollout(2) by (simp add: ds_inv_def ds_ok_def)
  show ?case
    by (rule with_rolloutD [OF rollout(1) keys]) (use rollout(3) in \<open>auto simp: storable_def image_in_def rolled_def\<close>)
qed

interpretation stored: invariant_system ds_step "\<lambda>s. ds_inv s \<and> storable s"
  by unfold_locales (use ds_step_inv storable_step in blast)

text \<open>
  C23: what a document denotes. Reading a document that the store may hold either refuses it or gives a
  valid desired state; the document then had no key shaped like a secret anywhere, and writing the state
  gives a document without one that reads back as exactly the same state.
\<close>

theorem document_round_trip:
  assumes "from_document doc = Inr s" and "unique_keys doc"
  shows "ds_ok s \<and> secret_free doc \<and> secret_free (to_document s) \<and> from_document (to_document s) = Inr s"
  using from_document_state [OF assms] document_plain state_written by blast

text \<open>
  C24: the store can always keep the fleet. Whatever sequence of transitions follows a state that was read
  from a document and satisfies the fleet's invariant, the state it ends in can be written, and reading
  its document gives that state back.
\<close>

theorem reachable_states_storable:
  assumes "from_document doc = Inr s" and "unique_keys doc" and "ds_inv s" and "ds_step\<^sup>*\<^sup>* s t"
  shows "from_document (to_document t) = Inr t"
proof -
  have "ds_inv t \<and> storable t"
    using stored.reachable_keeps [OF assms(4)] from_document_state(2) [OF assms(1,2)] assms(3) by blast
  then show ?thesis using state_written by (simp add: ds_inv_def)
qed

end
