(* ===== verification/Documents_Canonical.thy ===== *)
theory Documents_Canonical
  imports Fleet_Documents Fleet_Channel
begin

text \<open>
  A document that was written as canonical JSON and read again has its keys sorted at every level. The
  readers of \<open>documents.py\<close> look fields up by name, so they read the same state from it.
\<close>

lemma set_canon: "set (sort_key fst (map (\<lambda>(k, v). (k, canon v)) d)) = (\<lambda>(k, v). (k, canon v)) ` set d"
  by simp

lemma map_of_canon:
  assumes "distinct (map fst d)"
  shows "map_of (sort_key fst (map (\<lambda>(k, v). (k, canon v)) d)) k = map_option canon (map_of d k)"
proof -
  have keys: "map fst (map (\<lambda>(k, v). (k, canon v)) d) = map fst d" by (simp add: case_prod_beta comp_def)
  have "map_of (sort_key fst (map (\<lambda>(k, v). (k, canon v)) d)) = map_of (map (\<lambda>(k, v). (k, canon v)) d)"
    by (intro map_of_inject_set [THEN iffD2]) (use assms keys in \<open>simp_all only: distinct_sort_keys set_sort\<close>)
  moreover have "map_of (map (\<lambda>(k, v). (k, canon v)) d) k = map_option canon (map_of d k)" by (induction d) auto
  ultimately show ?thesis by simp
qed

lemma get_or_canon:
  assumes "distinct (map fst d)" and "canon v = v"
  shows "get_or (sort_key fst (map (\<lambda>(k, v). (k, canon v)) d)) k v = canon (get_or d k v)"
  using assms by (simp add: get_or_def map_of_canon split: option.split)

lemma canon_keys: "fst ` set (sort_key fst (map (\<lambda>(k, v). (k, canon v)) d)) = fst ` set d"
  by (simp add: case_prod_beta image_image)

lemma canon_secret_free: "secret_free (canon v) \<longleftrightarrow> secret_free v"
  by (induction v rule: canon.induct) (auto simp: list_all_iff)

lemma canon_unique: "unique_keys v \<Longrightarrow> unique_keys (canon v)"
proof (induction v rule: canon.induct)
  case (2 kvs)
  have "distinct (map fst (sort_key fst (map (\<lambda>(k, v). (k, canon v)) kvs)))"
    using 2(2) by (simp add: distinct_sort_keys comp_def case_prod_beta)
  then show ?case using 2 by (fastforce simp: list_all_iff)
qed (auto simp: list_all_iff)

lemma canon_PStr [simp]: "map (canon \<circ> PStr) xs = map PStr xs" "canon (opt_str x) = opt_str x"
  by (simp_all add: opt_str_def split: option.split)

lemma canon_scalar: "v = PStr s \<Longrightarrow> canon v = PStr s" "v = PInt i \<Longrightarrow> canon v = PInt i" "v = opt_str x \<Longrightarrow> canon v = opt_str x"
  by simp_all

text \<open>Opening: the same document, with its fields in canonical form.\<close>

definition canon_fields :: "(string \<times> pyval) list \<Rightarrow> (string \<times> pyval) list" where
  "canon_fields d = sort_key fst (map (\<lambda>(k, v). (k, canon v)) d)"

lemma canon_PDict: "canon (PDict d) = PDict (canon_fields d)"
  by (simp add: canon_fields_def)

lemma open_canon:
  assumes "open_document doc w required others = Inr d" and "unique_keys doc"
  shows "open_document (canon doc) w2 required others = Inr (canon_fields d)" and "distinct (map fst d)" and "unique_keys (PDict d)"
proof -
  have d: "doc = PDict d" "secret_free doc" and keys: "set required \<subseteq> fst ` set d" "fst ` set d \<subseteq> set required \<union> set others"
    using open_document_ok [THEN iffD1, OF assms(1)] by blast+
  show u: "unique_keys (PDict d)" using assms(2) d(1) by simp
  then show "distinct (map fst d)" by simp
  show "open_document (canon doc) w2 required others = Inr (canon_fields d)"
    using canon_secret_free [of doc] d keys by (simp only: open_document_ok canon_PDict) (simp only: canon_fields_def canon_keys simp_thms)
qed

lemma field_canon: "distinct (map fst d) \<Longrightarrow> get_or (canon_fields d) k PNone = canon (get_or d k PNone)"
    "distinct (map fst d) \<Longrightarrow> get_or (canon_fields d) k (PList []) = canon (get_or d k (PList []))"
    "distinct (map fst d) \<Longrightarrow> get_or (canon_fields d) k (PStr s) = canon (get_or d k (PStr s))"
    "distinct (map fst d) \<Longrightarrow> get_or (canon_fields d) k (PBool b) = canon (get_or d k (PBool b))"
  by (simp_all add: canon_fields_def get_or_canon)

lemma pairs_canon:
  assumes "pairs_of v w = Inr ls" and "unique_keys v"
  shows "pairs_of (canon v) w2 = Inr ls"
proof -
  obtain ps where v: "v = PDict (map (\<lambda>(k, s). (k, PStr s)) ps)" and ls: "ls = sort ps"
    using assms(1) by (auto simp: pairs_of_ok)
  have d: "distinct (map fst ps)" using assms(2) unfolding v by (simp add: case_prod_beta comp_def)
  have "canon v = PDict (map (\<lambda>(k, s). (k, PStr s)) (sort_key fst ps))"
    unfolding v by (simp add: comp_def case_prod_beta sort_key_map)
  moreover have "sort (sort_key fst ps) = sort ps" by (rule properties_for_sort) simp_all
  ultimately show ?thesis unfolding pairs_of_ok ls by (intro exI [of _ "sort_key fst ps"]) simp
qed

text \<open>The readers.\<close>

lemma repository_canon:
  "repository_from_document doc w = Inr r \<Longrightarrow> unique_keys doc \<Longrightarrow> repository_from_document (canon doc) w2 = Inr r"
proof -
  assume read: "repository_from_document doc w = Inr r" and u: "unique_keys doc"
  then obtain d where d: "open_document doc w repository_required [''runner_group''] = Inr d"
    by (auto simp: repository_from_document_def bindR_Inr_iff)
  note c = open_canon [OF d u]
  show ?thesis using read
    unfolding repository_from_document_def d c(1) bindR_Inr build_at_ok bindR_Inr_iff enums_ok repository_make_ok py_get_or
      field_canon [OF c(2)] by (metis canon_scalar(1,3))
qed

lemma assignment_canon:
  "assignment_from_document doc w = Inr a \<Longrightarrow> unique_keys doc \<Longrightarrow> assignment_from_document (canon doc) w2 = Inr a"
proof -
  assume read: "assignment_from_document doc w = Inr a" and u: "unique_keys doc"
  then obtain d where d: "open_document doc w assignment_required [''released_at''] = Inr d"
    by (auto simp: assignment_from_document_def bindR_Inr_iff)
  note c = open_canon [OF d u]
  show ?thesis using read
    unfolding assignment_from_document_def d c(1) bindR_Inr build_at_ok assignment_make_ok py_get_or field_canon [OF c(2)]
    by (metis canon_scalar(1,3))
qed

lemma rollout_canon:
  "rollout_from_document doc w = Inr r \<Longrightarrow> unique_keys doc \<Longrightarrow> rollout_from_document (canon doc) w2 = Inr r"
proof -
  assume read: "rollout_from_document doc w = Inr r" and u: "unique_keys doc"
  then obtain d where d: "open_document doc w rollout_required [''state''] = Inr d"
    by (auto simp: rollout_from_document_def bindR_Inr_iff)
  note c = open_canon [OF d u]
  show ?thesis using read
    unfolding rollout_from_document_def d c(1) bindR_Inr build_at_ok bindR_Inr_iff enums_ok rollout_make_ok py_get_or
      field_canon [OF c(2)] by (metis canon_scalar(1))
qed

lemma drain_canon:
  "drain_from_document doc w = Inr r \<Longrightarrow> unique_keys doc \<Longrightarrow> canon (d_completed_at r) = d_completed_at r
    \<Longrightarrow> canon (d_ended_at r) = d_ended_at r \<Longrightarrow> drain_from_document (canon doc) w2 = Inr r"
proof -
  assume read: "drain_from_document doc w = Inr r" and u: "unique_keys doc"
    and plain: "canon (d_completed_at r) = d_completed_at r" "canon (d_ended_at r) = d_ended_at r"
  then obtain d where d: "open_document doc w drain_required [''state'', ''completed_at'', ''ended_at''] = Inr d"
    by (auto simp: drain_from_document_def bindR_Inr_iff)
  note c = open_canon [OF d u]
  show ?thesis using read plain
    unfolding drain_from_document_def d c(1) bindR_Inr build_at_ok bindR_Inr_iff enums_ok drain_make_ok py_get_or
      field_canon [OF c(2)] by (metis canon_scalar(1))
qed

lemma host_canon:
  "host_from_document doc w = Inr h \<Longrightarrow> unique_keys doc \<Longrightarrow> host_from_document (canon doc) w2 = Inr h"
proof -
  assume read: "host_from_document doc w = Inr h" and u: "unique_keys doc"
  then obtain d where d: "open_document doc w host_required [''state''] = Inr d"
    by (auto simp: host_from_document_def bindR_Inr_iff)
  note c = open_canon [OF d u]
  obtain rs where f: "get_or d ''architectures'' PNone = PList (map PStr (h_architectures h))"
      "get_or d ''runtimes'' PNone = PList rs"
      "eachR (\<lambda>i r. enum_of runtime_value [DOCKER, PODMAN] r (index_str (w @ ''.runtimes'') i)) 0 rs = Inr (h_runtimes h)"
      "pairs_of (get_or d ''labels'' PNone) (w @ ''.labels'') = Inr (h_labels h)"
      "get_or d ''allowed_pools'' PNone = PList (map PStr (h_allowed_pools h))"
      "get_or d ''state'' (PStr (host_state_value H_ACTIVE)) = PStr (host_state_value (h_state h))"
      "get_or d ''host_id'' PNone = PStr (h_host_id h)" "get_or d ''slots'' PNone = PInt (h_slots h)" "host_ok h"
    using read unfolding host_from_document_def d bindR_Inr build_at_ok bindR_Inr_iff enums_ok as_list_ok host_make_ok py_get_or
    by (elim exE conjE) simp
  have rs: "rs = map (\<lambda>r. PStr (runtime_value r)) (h_runtimes h)"
    using f(3) by (subst (asm) eachR_image_ok [where g = "\<lambda>r. PStr (runtime_value r)"]) (simp_all only: enums_ok)
  have labels: "unique_keys (get_or d ''labels'' PNone)" by (rule entry_ok(2) [OF c(3)]) simp
  have runtimes: "map (canon \<circ> (\<lambda>r. PStr (runtime_value r))) (h_runtimes h) = map (\<lambda>r. PStr (runtime_value r)) (h_runtimes h)"
    by simp
  have reread: "eachR (\<lambda>i r. enum_of runtime_value [DOCKER, PODMAN] r (index_str (w2 @ ''.runtimes'') i)) 0
      (map (\<lambda>r. PStr (runtime_value r)) (h_runtimes h)) = Inr (h_runtimes h)"
    by (rule eachR_back) (rule enum_back)
  show ?thesis
    unfolding host_from_document_def c(1) bindR_Inr build_at_ok py_get_or field_canon [OF c(2)] f(1,2,5-8) rs canon.simps
      map_map canon_PStr runtimes as_list_def pyval.case pairs_canon [OF f(4) labels] reread enum_back
    by (simp only: host_make_ok f(9) simp_thms)
qed

lemma pool_make_raw: "pool_make r = Inr p \<Longrightarrow> r = raw_of_pool p"
  by (cases r; cases p) (auto simp: pool_make_def pool_parts_ok raw_of_pool_def)

lemma pool_canon:
  "pool_from_document doc w = Inr p \<Longrightarrow> unique_keys doc \<Longrightarrow> pool_from_document (canon doc) w2 = Inr p"
proof -
  assume read: "pool_from_document doc w = Inr p" and u: "unique_keys doc"
  then obtain d where d: "open_document doc w pool_required pool_others = Inr d"
    by (auto simp: pool_from_document_def bindR_Inr_iff)
  note c = open_canon [OF d u]
  obtain b where b: "get_or d ''disruption_budget'' PNone = PDict b" "shape_of b (w @ ''.disruption_budget'') [''max_parallel''] [] = Inr ()"
      "get_or b ''max_parallel'' PNone = PInt (max_parallel (p_disruption_budget p))" "1 \<le> max_parallel (p_disruption_budget p)"
    and labels: "pairs_of (get_or d ''required_labels'' PNone) (w @ ''.required_labels'') = Inr (p_required_labels p)"
    and f: "get_or d ''trust_class'' PNone = PStr (trust_value (p_trust_class p))"
      "get_or d ''allowed_repositories'' (PList []) = PList (map PStr (p_allowed_repositories p))"
      "get_or d ''runtime'' PNone = PStr (runtime_value (p_runtime p))"
      "get_or d ''architectures'' PNone = PList (map PStr (p_architectures p))"
    and made: "pool_make (raw_of_pool p) = Inr p"
    and g: "get_or d ''pool_id'' PNone = PStr (p_pool_id p)" "get_or d ''revision'' PNone = PInt (p_revision p)"
      "get_or d ''image_digest'' PNone = PStr (p_image_digest p)" "get_or d ''warm_min'' PNone = PInt (p_warm_min p)"
      "get_or d ''warm_max'' PNone = PInt (p_warm_max p)" "get_or d ''scale_ceiling'' PNone = PInt (p_scale_ceiling p)"
      "get_or d ''idle_timeout_seconds'' PNone = PInt (p_idle_timeout_seconds p)"
      "get_or d ''job_timeout_seconds'' PNone = PInt (p_job_timeout_seconds p)"
      "get_or d ''cleanup_timeout_seconds'' PNone = PInt (p_cleanup_timeout_seconds p)"
      "get_or d ''network_profile'' PNone = PStr (p_network_profile p)"
      "get_or d ''filesystem_profile'' PNone = PStr (p_filesystem_profile p)"
      "get_or d ''secret_profile'' PNone = PStr (p_secret_profile p)"
      "get_or d ''update_channel'' PNone = PStr (p_update_channel p)"
      "get_or d ''rollback_image_digest'' PNone = PStr (p_rollback_image_digest p)"
      "get_or d ''maintenance_window'' PNone = PStr (p_maintenance_window p)"
      "get_or d ''owner'' PNone = PStr (p_owner p)" "get_or d ''escalation'' PNone = PStr (p_escalation p)"
      "get_or d ''runner_group'' PNone = opt_str (p_runner_group p)" "get_or d ''ephemeral'' (PBool True) = PBool True"
  proof -
    obtain b t rs ls rt as bu where b: "get_or d ''disruption_budget'' PNone = PDict b" "shape_of b (w @ ''.disruption_budget'') [''max_parallel''] [] = Inr ()"
        and parts: "get_or d ''trust_class'' PNone = PStr (trust_value t)" "get_or d ''allowed_repositories'' (PList []) = PList rs"
          "pairs_of (get_or d ''required_labels'' PNone) (w @ ''.required_labels'') = Inr ls"
          "get_or d ''runtime'' PNone = PStr (runtime_value rt)" "get_or d ''architectures'' PNone = PList as"
          "get_or b ''max_parallel'' PNone = PInt (max_parallel bu)" "1 \<le> max_parallel bu"
        and made: "pool_make \<lparr>rp_pool_id = get_or d ''pool_id'' PNone, rp_revision = get_or d ''revision'' PNone, rp_trust_class = t,
              rp_required_labels = ls, rp_runtime = rt, rp_image_digest = get_or d ''image_digest'' PNone,
              rp_architectures = as, rp_warm_min = get_or d ''warm_min'' PNone, rp_warm_max = get_or d ''warm_max'' PNone,
              rp_scale_ceiling = get_or d ''scale_ceiling'' PNone,
              rp_idle_timeout_seconds = get_or d ''idle_timeout_seconds'' PNone,
              rp_job_timeout_seconds = get_or d ''job_timeout_seconds'' PNone,
              rp_cleanup_timeout_seconds = get_or d ''cleanup_timeout_seconds'' PNone,
              rp_network_profile = get_or d ''network_profile'' PNone,
              rp_filesystem_profile = get_or d ''filesystem_profile'' PNone,
              rp_secret_profile = get_or d ''secret_profile'' PNone, rp_update_channel = get_or d ''update_channel'' PNone,
              rp_rollback_image_digest = get_or d ''rollback_image_digest'' PNone,
              rp_maintenance_window = get_or d ''maintenance_window'' PNone, rp_disruption_budget = bu,
              rp_owner = get_or d ''owner'' PNone, rp_escalation = get_or d ''escalation'' PNone,
              rp_allowed_repositories = rs, rp_runner_group = get_or d ''runner_group'' PNone,
              rp_ephemeral = get_or d ''ephemeral'' (PBool True)\<rparr> = Inr p"
      using read unfolding pool_from_document_def d bindR_Inr build_at_ok bindR_Inr_iff enums_ok as_list_ok as_object_ok
        disruption_budget_make_ok py_get_or by (elim exE conjE) simp
    note raw = pool_make_raw [OF made, unfolded raw_of_pool_def raw_pool.simps]
    have "pool_make (raw_of_pool p) = Inr p" using made pool_make_raw [OF made] by simp
    then show thesis using that b parts raw by simp
  qed
  have budget: "unique_keys (PDict b)" using entry_ok(2) [OF c(3), of PNone "''disruption_budget''"] b(1) by simp
  have labels_ok: "unique_keys (get_or d ''required_labels'' PNone)" by (rule entry_ok(2) [OF c(3)]) simp
  have shaped: "shape_of (canon_fields b) (w2 @ ''.disruption_budget'') [''max_parallel''] [] = Inr ()"
    using b(2) by (simp only: shape_of_ok canon_fields_def canon_keys)
  have parallel: "get_or (canon_fields b) ''max_parallel'' PNone = PInt (max_parallel (p_disruption_budget p))"
    using budget b(3) by (simp add: field_canon)
  have made_budget: "disruption_budget_make (PInt (max_parallel (p_disruption_budget p))) = Inr (p_disruption_budget p)"
    using b(4) by (simp only: disruption_budget_make_ok simp_thms)
  show ?thesis
    unfolding pool_from_document_def c(1) bindR_Inr build_at_ok py_get_or field_canon [OF c(2)] b(1) f g canon_PDict canon.simps
      map_map canon_PStr as_list_def as_object_def pyval.case shaped parallel pairs_canon [OF labels labels_ok] enum_back made_budget
    using made by (simp only: raw_of_pool_def)
qed

section \<open>The aggregate\<close>

lemma eachR_canon:
  assumes "eachR (\<lambda>i v. parse v (f i)) n raw = Inr ys"
    and "\<And>v w y. v \<in> set raw \<Longrightarrow> y \<in> set ys \<Longrightarrow> parse v w = Inr y \<Longrightarrow> parse (canon v) w = Inr y"
  shows "eachR (\<lambda>i v. parse v (f i)) n (map canon raw) = Inr ys"
  using assms
proof (induction raw arbitrary: n ys)
  case (Cons v raw)
  then obtain z zs where z: "parse v (f n) = Inr z" "eachR (\<lambda>i v. parse v (f i)) (Suc n) raw = Inr zs" "ys = z # zs"
    by (auto simp: bindR_Inr_iff)
  have "parse (canon v) (f n) = Inr z" using Cons.prems(2) z by simp
  moreover have "eachR (\<lambda>i v. parse v (f i)) (Suc n) (map canon raw) = Inr zs"
    by (rule Cons.IH [OF z(2)]) (use Cons.prems(2) z(3) in simp)
  ultimately show ?case using z(3) by simp
qed simp

lemma document_items_canon:
  assumes "document_items d k parse = Inr ys" and "unique_keys (PDict d)"
    and "\<And>v w y. y \<in> set ys \<Longrightarrow> parse v w = Inr y \<Longrightarrow> unique_keys v \<Longrightarrow> parse (canon v) w = Inr y"
  shows "document_items (canon_fields d) k parse = Inr ys"
proof -
  obtain raw where raw: "get_or d k (PList []) = PList raw"
      and each: "eachR (\<lambda>i v. parse v (index_str (''desired_state.'' @ k) i)) 0 raw = Inr ys"
    using assms(1) by (auto simp: document_items_def Let_def bindR_Inr_iff as_list_ok)
  have u: "unique_keys (PList raw)" using entry_ok(2) [OF assms(2), of "PList []" k] raw by simp
  have "eachR (\<lambda>i v. parse v (index_str (''desired_state.'' @ k) i)) 0 (map canon raw) = Inr ys"
    by (rule eachR_canon [where f = "index_str (''desired_state.'' @ k)", OF each]) (use u assms(3) in \<open>auto simp: list_all_iff\<close>)
  moreover have "get_or (canon_fields d) k (PList []) = PList (map canon raw)"
    using assms(2) raw by (simp add: field_canon)
  ultimately show ?thesis by (simp add: document_items_def as_list_def)
qed

text \<open>The times of a drain as the transitions write them: absent, or a text.\<close>

definition plain_drains :: "desired_state \<Rightarrow> bool" where
  "plain_drains s \<longleftrightarrow> (\<forall>d \<in> set (ds_drains s).
     (\<exists>x. d_completed_at d = opt_str x) \<and> (\<exists>x. d_ended_at d = opt_str x))"

lemma from_document_canon:
  assumes "from_document doc = Inr s" and "unique_keys doc" and "plain_drains s"
  shows "from_document (canon doc) = Inr s"
proof -
  obtain d where d: "open_document doc ''desired_state'' [''schema'', ''revision''] state_others = Inr d"
    using assms(1) by (auto simp: from_document_def bindR_Inr_iff)
  note c = open_canon [OF d assms(2)]
  have schema: "py_get d ''schema'' = PStr document_schema"
    using assms(1) unfolding from_document_def d bindR_Inr by (simp split: if_splits)
  obtain items: "document_items d ''repositories'' repository_from_document = Inr (ds_repositories s)"
        "document_items d ''pools'' pool_from_document = Inr (ds_pools s)"
        "document_items d ''hosts'' host_from_document = Inr (ds_hosts s)"
        "document_items d ''assignments'' assignment_from_document = Inr (ds_assignments s)"
        "document_items d ''drains'' drain_from_document = Inr (ds_drains s)"
        "document_items d ''rollouts'' rollout_from_document = Inr (ds_rollouts s)"
      and made: "desired_state_make (py_get d ''revision'')
         \<lparr>ds_revision = 0, ds_repositories = ds_repositories s, ds_pools = ds_pools s, ds_hosts = ds_hosts s,
          ds_assignments = ds_assignments s, ds_drains = ds_drains s, ds_rollouts = ds_rollouts s\<rparr> = Inr s"
    using assms(1) schema unfolding from_document_def d bindR_Inr
    by (auto simp: build_at_ok bindR_Inr_iff desired_state_make_ok keys_ok_def refs_ok_def)
  have drains: "canon (d_completed_at x) = d_completed_at x" "canon (d_ended_at x) = d_ended_at x" if "x \<in> set (ds_drains s)" for x
    using assms(3) that unfolding plain_drains_def by (metis canon_PStr(2))+
  note again = document_items_canon [OF items(1) c(3) repository_canon] document_items_canon [OF items(2) c(3) pool_canon]
    document_items_canon [OF items(3) c(3) host_canon] document_items_canon [OF items(4) c(3) assignment_canon]
    document_items_canon [OF items(5) c(3) drain_canon] document_items_canon [OF items(6) c(3) rollout_canon]
  have "py_get (canon_fields d) ''schema'' = PStr document_schema"
    using schema c(2) by (simp only: py_get_or field_canon canon.simps)
  moreover have "py_get (canon_fields d) ''revision'' = py_get d ''revision''"
    using made c(2) by (auto simp: py_get_or field_canon desired_state_make_ok)
  ultimately show ?thesis
    unfolding from_document_def c(1) bindR_Inr using again drains made
    by (simp add: build_at_ok)
qed

section \<open>What JSON can carry of a state\<close>

fun float_free :: "pyval \<Rightarrow> bool" where
  "float_free (PFloat r) \<longleftrightarrow> False"
| "float_free (PList vs) \<longleftrightarrow> list_all float_free vs"
| "float_free (PDict kvs) \<longleftrightarrow> list_all (\<lambda>(k, v). float_free v) kvs"
| "float_free v \<longleftrightarrow> True"

lemma encodable_value_ok: "encodable v \<Longrightarrow> unique_keys v \<Longrightarrow> float_free v \<Longrightarrow> value_ok v"
proof (induction v rule: canon.induct)
  case (2 kvs)
  then show ?case by (fastforce simp: list_all_iff)
qed (auto simp: list_all_iff)

lemma plain_values: "unique_keys (opt_str x)" "float_free (opt_str x)" "unique_keys (PList (map PStr ss))"
    "float_free (PList (map PStr ss))"
  by (cases x; simp add: list_all_iff)+

lemma labels_values:
  assumes "normal_labels ls"
  shows "unique_keys (labels_document ls)" and "float_free (labels_document ls)"
  using assms by (auto simp: normal_labels_def labels_document_eq list_all_iff comp_def case_prod_beta)

lemma document_values:
  assumes "storable s" and "plain_drains s"
  shows "unique_keys (to_document s)" and "float_free (to_document s)"
proof -
  have pools: "unique_keys (pool_to_document p) \<and> float_free (pool_to_document p)" if "p \<in> set (ds_pools s)" for p
    using labels_values [of "p_required_labels p"] plain_values that assms(1)
    by (simp add: pool_to_document_def storable_def del: unique_keys.simps(2) float_free.simps(2))
  have runtimes: "unique_keys (PList (map (\<lambda>r. PStr (runtime_value r)) rs))" "float_free (PList (map (\<lambda>r. PStr (runtime_value r)) rs))" for rs
    by (simp_all add: list_all_iff)
  have hosts: "unique_keys (host_to_document h) \<and> float_free (host_to_document h)" if "h \<in> set (ds_hosts s)" for h
    using labels_values [of "h_labels h"] plain_values that assms(1) runtimes
    by (simp add: host_to_document_def storable_def del: unique_keys.simps(2) float_free.simps(2))
  have drains: "unique_keys (drain_to_document d) \<and> float_free (drain_to_document d)" if "d \<in> set (ds_drains s)" for d
  proof -
    obtain x y where "d_completed_at d = opt_str x" "d_ended_at d = opt_str y"
      using \<open>d \<in> set (ds_drains s)\<close> assms(2) unfolding plain_drains_def by blast
    then show ?thesis by (simp add: drain_to_document_def plain_values)
  qed
  show "unique_keys (to_document s)"
    using pools hosts drains
    by (simp add: to_document_def list_all_iff repository_to_document_def assignment_to_document_def rollout_to_document_def plain_values)
  show "float_free (to_document s)"
    using pools hosts drains
    by (simp add: to_document_def list_all_iff repository_to_document_def assignment_to_document_def rollout_to_document_def plain_values)
qed

end
