(* ===== verification/Fleet_State.thy ===== *)
theory Fleet_State
  imports Channel_Reports Documents_Canonical
begin

text \<open>
  Signed desired state, \<open>fleet_manager/state.py\<close>: the envelope a manager signs and a host checks, its
  document, \<open>StateIssuer\<close> as a record that \<open>issue\<close> takes and returns, and \<open>accept_state\<close>. The signer and
  the verifier are arguments that answer or raise; nothing is assumed of them.
\<close>

section \<open>Constants\<close>

definition state_schema :: string where
  "state_schema = ''fleet-manager-signed-state/1''"

definition max_state_lifetime :: timedelta where
  "max_state_lifetime = seconds 3600"

definition max_state_clock_skew :: timedelta where
  "max_state_clock_skew = seconds 60"

definition max_state_body_bytes :: nat where
  "max_state_body_bytes = 262144"

definition state_error :: "string \<Rightarrow> 'a res" where
  "state_error m = raise StateError m"

text \<open>\<open>except ValueError as exc: raise StateError(str(exc))\<close>, and the same with a prefix and a suffix.\<close>

definition as_state_error :: "string \<Rightarrow> string \<Rightarrow> 'a res \<Rightarrow> 'a res" where
  "as_state_error before after m = mapErr is_value_error (\<lambda>e. Exn StateError (before @ exn_text e @ after)) m"

section \<open>Envelopes\<close>

definition state_body_json :: "pyval \<Rightarrow> string \<Rightarrow> string res" where
  "state_body_json v w = canonical_body StateError max_state_body_bytes v w"

definition document_body :: "string \<Rightarrow> string \<Rightarrow> string res" where
  "document_body body w =
     (if body = [] then state_error (w @ '': must be canonical JSON text'')
      else case loads body of
        None \<Rightarrow> state_error (w @ '': is not JSON text'')
      | Some v \<Rightarrow>
          bindR (state_body_json v w) (\<lambda>canonical.
            if canonical \<noteq> body then state_error (w @ '': is not the canonical form of its document'')
            else bindR (as_state_error (w @ '': is not a desired-state document ('') '')'' (from_document v)) (\<lambda>_.
              Inr body)))"

record signed_state =
  ss_audience :: string
  ss_revision :: int
  ss_sequence :: int
  ss_issued_at :: string
  ss_expires_at :: string
  ss_body_json :: string
  ss_signature :: string

definition state_number :: "pyval \<Rightarrow> string \<Rightarrow> int res" where
  "state_number v name =
     (case v of
        PInt i \<Rightarrow>
          if i < 1 then state_error (''signed_state.'' @ name @ '': must be 1 or greater'')
          else if i > max_sequence then state_error (''signed_state.'' @ name @ '': is out of range'')
          else Inr i
      | _ \<Rightarrow> state_error (''signed_state.'' @ name @ '': must be an integer''))"

definition state_signature :: "pyval \<Rightarrow> string res" where
  "state_signature v =
     (let refusal = state_error ''signed_state.signature: must be lowercase hex'' in
      case v of
        PStr s \<Rightarrow>
          if \<not> is_hex_text s then refusal
          else if length s \<noteq> 128 then state_error ''signed_state.signature: must be 64 bytes of hex''
          else Inr s
      | _ \<Rightarrow> refusal)"

definition signed_state_make ::
  "pyval \<Rightarrow> pyval \<Rightarrow> pyval \<Rightarrow> pyval \<Rightarrow> pyval \<Rightarrow> string \<Rightarrow> pyval \<Rightarrow> signed_state res" where
  "signed_state_make audience revision seq issued expires body sig =
     bindR (as_state_error [] [] (channel_identifier audience ''signed_state.audience'')) (\<lambda>a.
     bindR (state_number revision ''revision'') (\<lambda>r.
     bindR (state_number seq ''sequence'') (\<lambda>n.
     bindR (as_state_error [] [] (channel_timestamp issued ''signed_state.issued_at'')) (\<lambda>i.
     bindR (as_state_error [] [] (channel_timestamp expires ''signed_state.expires_at'')) (\<lambda>e.
     bindR (run_checks
       [(dt_instant i < dt_instant e, Exn StateError ''signed_state.expires_at: must be after issued_at''),
        (dt_instant e - dt_instant i \<le> max_state_lifetime,
           Exn StateError ''signed_state.expires_at: lifetime exceeds 3600s'')]) (\<lambda>_.
     bindR (document_body body ''signed_state.body_json'') (\<lambda>b.
     bindR (state_signature sig) (\<lambda>s.
       Inr \<lparr>ss_audience = a, ss_revision = r, ss_sequence = n, ss_issued_at = string_value issued,
            ss_expires_at = string_value expires, ss_body_json = b, ss_signature = s\<rparr>))))))))"

definition state_expired :: "signed_state \<Rightarrow> datetime \<Rightarrow> bool res" where
  "state_expired s at =
     bindR (channel_timestamp (PStr (ss_expires_at s)) ''signed_state.expires_at'') (\<lambda>e.
       Inr (dt_instant at > dt_instant e))"

record accepted_state =
  ac_audience :: string
  ac_revision :: int
  ac_sequence :: int
  ac_body_json :: string

definition state_of_accepted :: "accepted_state \<Rightarrow> desired_state res" where
  "state_of_accepted a = from_document (body_value (ac_body_json a))"

definition state_signed_document :: "signed_state \<Rightarrow> pyval" where
  "state_signed_document s = PDict
     [(''audience'', PStr (ss_audience s)), (''body'', body_value (ss_body_json s)),
      (''expires_at'', PStr (ss_expires_at s)), (''issued_at'', PStr (ss_issued_at s)),
      (''revision'', PInt (ss_revision s)), (''schema'', PStr state_schema), (''sequence'', PInt (ss_sequence s))]"

definition state_signed_bytes :: "signed_state \<Rightarrow> bytes" where
  "state_signed_bytes s = utf8 (json_text False (state_signed_document s))"

definition state_to_document :: "signed_state \<Rightarrow> pyval" where
  "state_to_document s = PDict
     [(''schema'', PStr state_schema), (''audience'', PStr (ss_audience s)), (''revision'', PInt (ss_revision s)),
      (''sequence'', PInt (ss_sequence s)), (''issued_at'', PStr (ss_issued_at s)),
      (''expires_at'', PStr (ss_expires_at s)), (''body'', body_value (ss_body_json s)),
      (''signature'', PStr (ss_signature s))]"

definition state_fields :: "string list" where
  "state_fields =
     [''schema'', ''audience'', ''revision'', ''sequence'', ''issued_at'', ''expires_at'', ''body'', ''signature'']"

definition state_from_document :: "pyval \<Rightarrow> string \<Rightarrow> signed_state res" where
  "state_from_document doc w =
     (case doc of
        PDict d \<Rightarrow>
          let missing = sort (filter (\<lambda>k. k \<notin> fst ` set d) state_fields);
              unknown = sort (filter (\<lambda>k. k \<notin> set state_fields) (map fst d)) in
          if missing \<noteq> [] then state_error (w @ '': missing '' @ join '', '' missing)
          else if unknown \<noteq> [] then state_error (w @ '': unknown '' @ join '', '' unknown)
          else if py_get d ''schema'' \<noteq> PStr state_schema
          then state_error (w @ ''.schema: must be '' @ py_repr state_schema)
          else mapErr (\<lambda>e. \<not> of_class StateError e \<and> (is_value_error e \<or> of_class PyTypeError e))
            (\<lambda>e. Exn StateError (w @ '': '' @ exn_text e))
            (bindR (state_body_json (py_get d ''body'') (w @ ''.body'')) (\<lambda>body.
               signed_state_make (py_get d ''audience'') (py_get d ''revision'') (py_get d ''sequence'')
                 (py_get d ''issued_at'') (py_get d ''expires_at'') body (py_get d ''signature'')))
      | _ \<Rightarrow> state_error (w @ '': must be an object''))"

section \<open>The manager's side\<close>

record state_issuer =
  si_sequences :: "string \<rightharpoonup> int"

definition issuer_init :: state_issuer where
  "issuer_init = \<lparr>si_sequences = Map.empty\<rparr>"

definition issued_sequence :: "state_issuer \<Rightarrow> string \<Rightarrow> int option" where
  "issued_sequence i audience = si_sequences i audience"

text \<open>What the signer does: it returns bytes, or something else, or it raises an exception of a type.\<close>

datatype signing = Signed bytes | NotBytes | SignerRaised string

type_synonym signer = "bytes \<Rightarrow> signing"

definition check_ttl :: "timedelta \<Rightarrow> unit res" where
  "check_ttl ttl =
     (if ttl \<le> 0 then state_error ''state_issuer.ttl: must be a positive timedelta''
      else if ttl > max_state_lifetime then state_error ''state_issuer.ttl: lifetime exceeds 3600s''
      else Inr ())"

definition zero_signature :: string where
  "zero_signature = replicate 128 (CHR ''0'')"

definition sign_state :: "signed_state \<Rightarrow> signer \<Rightarrow> bytes res" where
  "sign_state s sign =
     (case sign (state_signed_bytes s) of
        SignerRaised t \<Rightarrow> state_error (''state_issuer.signer: the signature provider refused the state ('' @ t
          @ ''); the issuer does not fall back'')
      | NotBytes \<Rightarrow> state_error ''state_issuer.signer: must return bytes''
      | Signed bs \<Rightarrow> Inr bs)"

definition issue_state ::
  "state_issuer \<Rightarrow> pyval \<Rightarrow> string \<Rightarrow> datetime \<Rightarrow> signer \<Rightarrow> timedelta \<Rightarrow> pyval \<Rightarrow> (state_issuer \<times> signed_state) res" where
  "issue_state iss body audience issued sign ttl revision =
     bindR (as_state_error [] []
       (bindR (channel_identifier (PStr audience) ''state_issuer.audience'') (\<lambda>_.
          channel_instant issued ''state_issuer.issued_at''))) (\<lambda>_.
     bindR (check_ttl ttl) (\<lambda>_.
     bindR (state_body_json body ''state_issuer.body'') (\<lambda>txt'.
     bindR (if revision = PNone
            then bindR (as_state_error ''state_issuer.body: '' [] (from_document body)) (\<lambda>s. Inr (PInt (ds_revision s)))
            else Inr revision) (\<lambda>rev'.
     let seq = (case si_sequences iss audience of None \<Rightarrow> 0 | Some n \<Rightarrow> n) + 1 in
     bindR (bindR (dt_add issued ttl) channel_stamp) (\<lambda>expires_at.
     bindR (channel_stamp issued) (\<lambda>issued_at.
     bindR (signed_state_make (PStr audience) rev' (PInt seq) (PStr issued_at) (PStr expires_at) txt'
              (PStr zero_signature)) (\<lambda>unsigned.
     bindR (sign_state unsigned sign) (\<lambda>signature.
     bindR (signed_state_make (PStr (ss_audience unsigned)) (PInt (ss_revision unsigned)) (PInt (ss_sequence unsigned))
              (PStr (ss_issued_at unsigned)) (PStr (ss_expires_at unsigned)) (ss_body_json unsigned)
              (PStr (hex_of signature))) (\<lambda>s.
       Inr (iss\<lparr>si_sequences := (si_sequences iss)(audience \<mapsto> seq)\<rparr>, s))))))))))"

section \<open>The host's side\<close>

definition verify_state :: "signed_state \<Rightarrow> verifier \<Rightarrow> bytes \<Rightarrow> unit res" where
  "verify_state s verify key =
     (let refused = (\<lambda>t. state_error (''accept_state: the signature provider refused the state ('' @ t
            @ ''); the host does not fall back'')) in
      case fromhex (ss_signature s) of
        Inl e \<Rightarrow> refused ''ValueError''
      | Inr signature \<Rightarrow>
          (case verify key (state_signed_bytes s) signature of
             Raised t \<Rightarrow> refused t
           | Returned b \<Rightarrow>
               if b then Inr () else state_error (''accept_state: the state'' @ [CHR 0x27] @ ''s signature did not verify'')))"

definition check_newer :: "int \<Rightarrow> pyval \<Rightarrow> unit res" where
  "check_newer seq last' =
     (case last' of
        PNone \<Rightarrow> Inr ()
      | PInt n \<Rightarrow>
          if seq \<le> n
          then state_error (''accept_state: this state'' @ [CHR 0x27] @ ''s sequence is not newer than the last ''
                 @ ''accepted one; a replayed state is refused'')
          else Inr ()
      | _ \<Rightarrow> state_error ''accept_state.last_sequence: must be an integer'')"

definition accept_state ::
  "signed_state \<Rightarrow> datetime \<Rightarrow> verifier \<Rightarrow> bytes \<Rightarrow> string \<Rightarrow> pyval \<Rightarrow> accepted_state res" where
  "accept_state s at verify key audience last' =
     bindR (as_state_error [] []
       (bindR (channel_instant at ''accept_state.at'') (\<lambda>_.
          channel_identifier (PStr audience) ''accept_state.audience''))) (\<lambda>_.
     bindR (if ss_audience s \<noteq> audience
            then state_error (''accept_state: this state is for a different audience; a document ''
                   @ ''that can be redirected at another host is not configuration'')
            else Inr ()) (\<lambda>_.
     bindR (state_expired s at) (\<lambda>expired.
     bindR (if expired then state_error ''accept_state: the state has expired'' else Inr ()) (\<lambda>_.
     bindR (channel_timestamp (PStr (ss_issued_at s)) ''signed_state.issued_at'') (\<lambda>issued.
     bindR (dt_add issued (- max_state_clock_skew)) (\<lambda>earliest.
     bindR (if dt_instant at < dt_instant earliest
            then state_error (''accept_state: the state is issued beyond the clock skew; its ''
                   @ ''freshness cannot be judged against this instant'')
            else Inr ()) (\<lambda>_.
     bindR (verify_state s verify key) (\<lambda>_.
     bindR (check_newer (ss_sequence s) last') (\<lambda>_.
       Inr \<lparr>ac_audience = ss_audience s, ac_revision = ss_revision s, ac_sequence = ss_sequence s,
            ac_body_json = ss_body_json s\<rparr>)))))))))"

section \<open>What the checks accept\<close>

lemma state_error_Inr [simp]: "state_error m \<noteq> Inr a" "Inr a \<noteq> state_error m" "bindR (state_error m) f = state_error m"
  by (simp_all add: state_error_def)

lemma as_state_error_ok [simp]: "as_state_error b a m = Inr x \<longleftrightarrow> m = Inr x"
  by (simp add: as_state_error_def mapErr_Inr_iff)

lemma state_body_json_ok: "state_body_json v w = Inr t \<longleftrightarrow>
    (\<exists>d. v = PDict d) \<and> encodable v \<and> length (utf8 (json_text False v)) \<le> max_state_body_bytes \<and> t = json_text False v"
  by (simp add: state_body_json_def canonical_body_ok)

definition state_body_ok :: "string \<Rightarrow> bool" where
  "state_body_ok b \<longleftrightarrow>
     b \<noteq> [] \<and> (\<exists>v. loads b = Some v \<and> (\<forall>w. state_body_json v w = Inr b) \<and> (\<exists>d. from_document v = Inr d))"

lemma document_body_ok: "document_body b w = Inr u \<longleftrightarrow> u = b \<and> state_body_ok b"
  by (auto simp: document_body_def state_body_ok_def bindR_Inr_iff state_body_json_ok split: option.splits)

lemma state_number_ok: "state_number v name = Inr n \<longleftrightarrow> v = PInt n \<and> 1 \<le> n \<and> n \<le> max_sequence"
  by (cases v) (auto simp: state_number_def)

definition signature_text :: "string \<Rightarrow> bool" where
  "signature_text s \<longleftrightarrow> is_hex_text s \<and> length s = 128"

lemma state_signature_ok: "state_signature v = Inr s \<longleftrightarrow> v = PStr s \<and> signature_text s"
  by (cases v) (auto simp: state_signature_def signature_text_def)

definition signed_state_ok :: "signed_state \<Rightarrow> bool" where
  "signed_state_ok s \<longleftrightarrow>
     is_identifier (ss_audience s) \<and> 1 \<le> ss_revision s \<and> ss_revision s \<le> max_sequence
     \<and> 1 \<le> ss_sequence s \<and> ss_sequence s \<le> max_sequence
     \<and> (\<exists>i x. chan_us (ss_issued_at s) = Some i \<and> chan_us (ss_expires_at s) = Some x
          \<and> i < x \<and> x - i \<le> max_state_lifetime)
     \<and> state_body_ok (ss_body_json s) \<and> signature_text (ss_signature s)"

lemma signed_state_make_ok:
  "signed_state_make (PStr a) (PInt r) (PInt n) (PStr i) (PStr x) b (PStr g) = Inr s \<longleftrightarrow>
     s = \<lparr>ss_audience = a, ss_revision = r, ss_sequence = n, ss_issued_at = i, ss_expires_at = x,
          ss_body_json = b, ss_signature = g\<rparr> \<and> signed_state_ok s"
  using stamps_iff [of i "''signed_state.issued_at''" x "''signed_state.expires_at''" "\<lambda>a b. a < b \<and> b - a \<le> max_state_lifetime"]
  by (auto simp: signed_state_make_def signed_state_ok_def bindR_Inr_iff channel_identifier_ok state_number_ok
      document_body_ok state_signature_ok run_checks_ok string_value_def)

lemma signed_state_makeD: "signed_state_make a r n i x b g = Inr s \<Longrightarrow> signed_state_ok s"
proof -
  assume made: "signed_state_make a r n i x b g = Inr s"
  then obtain a' r' n' i' x' g' where "a = PStr a'" "r = PInt r'" "n = PInt n'" "i = PStr i'" "x = PStr x'" "g = PStr g'"
    by (auto simp: signed_state_make_def bindR_Inr_iff channel_identifier_ok state_number_ok channel_timestamp_ok
        state_signature_ok)
  then show ?thesis using made signed_state_make_ok by blast
qed

lemma check_newer_ok: "check_newer n v = Inr u \<longleftrightarrow> v = PNone \<or> (\<exists>k. v = PInt k \<and> k < n)"
  by (cases v) (auto simp: check_newer_def)

lemma verify_state_ok: "verify_state s verify key = Inr u \<longleftrightarrow>
    (\<exists>bs. fromhex (ss_signature s) = Inr bs \<and> verify key (state_signed_bytes s) bs = Returned True)"
  by (cases "fromhex (ss_signature s)") (auto simp: verify_state_def Let_def split: verdict.splits)

lemma state_expired_ok:
  assumes "chan_us (ss_expires_at s) = Some x"
  shows "state_expired s at = Inr (x < dt_instant at)"
proof -
  obtain e where "channel_timestamp (PStr (ss_expires_at s)) ''signed_state.expires_at'' = Inr e" "dt_instant e = x"
    using channel_timestamp_us [OF assms] by blast
  then show ?thesis by (simp add: state_expired_def)
qed

lemma accepted_iff:
  assumes "signed_state_ok s" and "dt_offset at \<noteq> None" and "is_identifier audience"
    and "fromisoformat (ss_issued_at s) = Some i" and "in_calendar (dt_local i - max_state_clock_skew)"
    and "chan_us (ss_expires_at s) = Some x"
  shows "accept_state s at verify key audience last' = Inr a \<longleftrightarrow>
      ss_audience s = audience \<and> dt_instant i - max_state_clock_skew \<le> dt_instant at \<and> dt_instant at \<le> x
      \<and> (\<exists>bs. fromhex (ss_signature s) = Inr bs \<and> verify key (state_signed_bytes s) bs = Returned True)
      \<and> (last' = PNone \<or> (\<exists>n. last' = PInt n \<and> n < ss_sequence s))
      \<and> a = \<lparr>ac_audience = audience, ac_revision = ss_revision s, ac_sequence = ss_sequence s,
             ac_body_json = ss_body_json s\<rparr>"
proof -
  have offset: "dt_offset i \<noteq> None" using assms(1,4) by (auto simp: signed_state_ok_def chan_us_iff)
  have issued: "channel_timestamp (PStr (ss_issued_at s)) ''signed_state.issued_at'' = Inr i"
    using assms(4) offset by (simp add: channel_timestamp_ok)
  have earliest: "dt_add i (- max_state_clock_skew) = Inr (i\<lparr>dt_local := dt_local i - max_state_clock_skew\<rparr>)"
    using assms(5) by (simp add: dt_add_def)
  have moved: "dt_instant (i\<lparr>dt_local := dt_local i - max_state_clock_skew\<rparr>) = dt_instant i - max_state_clock_skew"
    using offset by (auto simp: dt_instant_def)
  have start: "bindR (channel_instant at ''accept_state.at'') (\<lambda>_.
      channel_identifier (PStr audience) ''accept_state.audience'') = Inr audience"
    using assms(2,3) by (simp add: channel_instant_def channel_identifier_def)
  show ?thesis
    unfolding accept_state_def bindR_Inr_iff as_state_error_ok start state_expired_ok [OF assms(6)] issued earliest
      verify_state_ok check_newer_ok sum.inject
    by (auto simp: earliest moved not_less)
qed

section \<open>What the issuer issues\<close>

lemma sign_state_ok: "sign_state s sign = Inr bs \<longleftrightarrow> sign (state_signed_bytes s) = Signed bs"
  by (auto simp: sign_state_def split: signing.splits)

lemma check_ttl_ok: "check_ttl ttl = Inr u \<longleftrightarrow> 0 < ttl \<and> ttl \<le> max_state_lifetime"
  by (auto simp: check_ttl_def)

definition next_sequence :: "state_issuer \<Rightarrow> string \<Rightarrow> int" where
  "next_sequence i a = (case si_sequences i a of None \<Rightarrow> 0 | Some n \<Rightarrow> n) + 1"

lemma issue_stateD:
  assumes "issue_state iss body audience issued sign ttl revision = Inr (j, s)"
  obtains r bs where "signed_state_ok s" and "ss_audience s = audience" and "ss_revision s = r"
    and "revision = PInt r \<or> (revision = PNone \<and> (\<exists>d. from_document body = Inr d \<and> r = ds_revision d))"
    and "ss_sequence s = next_sequence iss audience"
    and "j = iss\<lparr>si_sequences := (si_sequences iss)(audience \<mapsto> next_sequence iss audience)\<rparr>"
    and "ss_issued_at s = zulu (dt_instant issued)" and "ss_expires_at s = zulu (dt_instant issued + ttl)"
    and "in_calendar (dt_instant issued)" and "in_calendar (dt_instant issued + ttl)"
    and "state_body_json body w = Inr (ss_body_json s)"
    and "sign (state_signed_bytes s) = Signed bs" and "ss_signature s = hex_of bs"
    and "0 < ttl" and "dt_offset issued \<noteq> None"
proof -
  obtain t rv x i u bs where ok: "dt_offset issued \<noteq> None" "check_ttl ttl = Inr ()"
      and body: "state_body_json body ''state_issuer.body'' = Inr t"
      and rv: "revision \<noteq> PNone \<and> rv = revision \<or> revision = PNone \<and> (\<exists>d. from_document body = Inr d \<and> rv = PInt (ds_revision d))"
      and x: "bindR (dt_add issued ttl) channel_stamp = Inr x" and i: "channel_stamp issued = Inr i"
      and unsigned: "signed_state_make (PStr audience) rv (PInt (next_sequence iss audience)) (PStr i) (PStr x) t (PStr zero_signature) = Inr u"
      and sig: "sign_state u sign = Inr bs"
      and s: "signed_state_make (PStr (ss_audience u)) (PInt (ss_revision u)) (PInt (ss_sequence u)) (PStr (ss_issued_at u))
          (PStr (ss_expires_at u)) (ss_body_json u) (PStr (hex_of bs)) = Inr s"
      and j: "j = iss\<lparr>si_sequences := (si_sequences iss)(audience \<mapsto> next_sequence iss audience)\<rparr>"
    using assms
    by (auto simp: issue_state_def Let_def bindR_Inr_iff channel_instant_ok next_sequence_def split: if_splits)
  obtain r where r: "rv = PInt r" using unsigned by (auto simp: signed_state_make_def bindR_Inr_iff state_number_ok)
  note made = unsigned [unfolded r signed_state_make_ok] and final = s [unfolded signed_state_make_ok]
  have u: "ss_audience u = audience" "ss_revision u = r" "ss_sequence u = next_sequence iss audience"
      "ss_issued_at u = i" "ss_expires_at u = x" "ss_body_json u = t"
    using made by auto
  have v: "ss_audience s = audience" "ss_revision s = r" "ss_sequence s = next_sequence iss audience" "ss_issued_at s = i"
      "ss_expires_at s = x" "ss_body_json s = t" "ss_signature s = hex_of bs" "signed_state_ok s"
    using final u by auto
  have "state_signed_bytes u = state_signed_bytes s"
    unfolding state_signed_bytes_def state_signed_document_def u v ..
  then have signed: "sign (state_signed_bytes s) = Signed bs" using sig by (simp only: sign_state_ok)
  obtain e where e: "dt_add issued ttl = Inr e" "channel_stamp e = Inr x" using x by (auto simp: bindR_Inr_iff)
  have "dt_instant e = dt_instant issued + ttl"
    using e(1) ok(1) by (auto simp: dt_add_def dt_instant_def overflow_def split: if_splits)
  then have stamps: "x = zulu (dt_instant issued + ttl)" "in_calendar (dt_instant issued + ttl)"
      "i = zulu (dt_instant issued)" "in_calendar (dt_instant issued)"
    using e(2) i by (auto simp: channel_stamp_ok)
  have "state_body_json body w = Inr t" using body by (simp add: state_body_json_ok)
  moreover have "revision = PInt r \<or> (revision = PNone \<and> (\<exists>d. from_document body = Inr d \<and> r = ds_revision d))"
    using rv r by auto
  moreover have "0 < ttl" using ok(2) by (simp only: check_ttl_ok)
  ultimately show thesis using that [of r bs] v signed stamps j ok(1) by simp
qed

text \<open>Every call that changes the issuer.\<close>

inductive issuer_step :: "state_issuer \<Rightarrow> state_issuer \<Rightarrow> bool" where
  "issue_state i body audience issued sign ttl revision = Inr (j, s) \<Longrightarrow> issuer_step i j"

lemma issuer_step_climbs: "issuer_step i j \<Longrightarrow> next_sequence i a \<le> next_sequence j a"
proof (induction rule: issuer_step.induct)
  case (1 i body audience issued sign ttl revision j s)
  from 1 show ?case by (rule issue_stateD) (simp add: next_sequence_def)
qed

interpretation issuer: monotone_system issuer_step "\<lambda>_. True" next_sequence
  by unfold_locales (simp_all add: le_fun_def issuer_step_climbs)

text \<open>
  C21: a state once superseded is superseded for good. Of two states that one issuer issues for the same
  host, with any calls in between, the later one has the larger sequence; a host that has accepted the
  later one refuses the earlier one, at every instant and under every key and verifier, and so it
  refuses the later one when it comes again.
\<close>

theorem superseded_state_refused:
  assumes "issue_state i body audience issued sign ttl revision = Inr (j, s)" and "issuer_step\<^sup>*\<^sup>* j k"
    and "issue_state k body2 audience issued2 sign2 ttl2 revision2 = Inr (l, s2)"
    and "accept_state s2 at verify key audience last' = Inr a"
  shows "ss_sequence s < ss_sequence s2
    \<and> (\<forall>x \<in> {s, s2}. \<forall>at2 verify2 key2 b. accept_state x at2 verify2 key2 audience (PInt (ac_sequence a)) \<noteq> Inr b)"
proof -
  have "ss_sequence s = next_sequence i audience" "next_sequence j audience = next_sequence i audience + 1"
    by (rule issue_stateD [OF assms(1)], simp) (rule issue_stateD [OF assms(1)], simp add: next_sequence_def)
  moreover have "next_sequence j audience \<le> next_sequence k audience"
    using issuer.reachable_mono [OF assms(2)] by (simp add: le_fun_def)
  moreover have "ss_sequence s2 = next_sequence k audience" by (rule issue_stateD [OF assms(3)])
  ultimately have less: "ss_sequence s < ss_sequence s2" by simp
  have seq: "ac_sequence a = ss_sequence s2" using assms(4) by (auto simp: accept_state_def bindR_Inr_iff)
  have "accept_state x at2 verify2 key2 audience (PInt (ac_sequence a)) \<noteq> Inr b" if "ss_sequence x \<le> ss_sequence s2" for x at2 verify2 key2 b
    using that seq by (auto simp: accept_state_def bindR_Inr_iff check_newer_ok)
  then show ?thesis using less by auto
qed

lemma value_encodable: "value_ok v \<Longrightarrow> encodable v"
proof (induction v rule: encodable.induct)
  case (4 kvs)
  then show ?case by (fastforce simp: list_all_iff)
qed (auto simp: list_all_iff)

text \<open>The text of a state that can be written and sent is a body that an envelope may carry.\<close>

lemma state_body_written:
  assumes "ds_ok d" and "storable d" and "plain_drains d" and "encodable (to_document d)"
    and "length (utf8 (json_text False (to_document d))) \<le> max_state_body_bytes"
  shows "state_body_json (to_document d) w = Inr (json_text False (to_document d))"
    and "state_body_ok (json_text False (to_document d))"
proof -
  let ?v = "to_document d"
  have shape: "\<exists>e. ?v = PDict e" by (simp add: to_document_def)
  then show "state_body_json ?v w = Inr (json_text False ?v)" using assms(4,5) by (simp add: state_body_json_ok)
  have v: "value_ok ?v" by (rule encodable_value_ok [OF assms(4) document_values [OF assms(2,3)]])
  have "from_document (canon ?v) = Inr d"
    by (rule from_document_canon [OF state_written [OF assms(1,2)] document_values(1) [OF assms(2,3)] assms(3)])
  moreover have "state_body_json (canon ?v) x = Inr (json_text False ?v)" for x
    using shape assms(5) value_encodable [OF canon_ok [OF v]] by (auto simp: state_body_json_ok text_canon)
  moreover have "json_text False ?v \<noteq> []" by (simp add: to_document_def)
  ultimately show "state_body_ok (json_text False ?v)" using loads_text [OF v, of False] by (auto simp: state_body_ok_def)
qed

section \<open>From the manager's state to the host's\<close>

lemma zulu_local: "in_calendar t \<Longrightarrow> fromisoformat (zulu t) = Some (utc t)"
  by (simp add: zulu_def fromisoformat_zulu)

text \<open>
  C20: a desired state arrives as it was. Let a manager issue a valid state with plain labels and drain
  times, and let the host's verifier answer True for what the manager's signer signs. Then at every
  instant from the clock skew before the issue to the expiry, a host that the state is addressed to and
  that has accepted no newer one accepts the envelope, and the desired state it reads from it -- through
  the canonical JSON, its reader and the document's reader -- is exactly the manager's.
\<close>

theorem state_delivered:
  assumes "ds_ok d" and "storable d" and "plain_drains d"
    and "issue_state iss (to_document d) audience issued sign ttl PNone = Inr (j, s)"
    and "\<And>m bs. sign m = Signed bs \<Longrightarrow> verify key m bs = Returned True"
    and "dt_offset at \<noteq> None" and "in_calendar (dt_instant issued - max_state_clock_skew)"
    and "dt_instant issued - max_state_clock_skew \<le> dt_instant at" and "dt_instant at \<le> dt_instant issued + ttl"
    and "last' = PNone \<or> (\<exists>n. last' = PInt n \<and> n \<le> next_sequence iss audience - 1)"
  shows "\<exists>a. accept_state s at verify key audience last' = Inr a \<and> state_of_accepted a = Inr d
    \<and> ac_revision a = ds_revision d \<and> ac_sequence a = next_sequence iss audience"
proof -
  have read: "from_document (to_document d) = Inr d" by (rule state_written [OF assms(1,2)])
  obtain r bs where ok: "signed_state_ok s" and aud: "ss_audience s = audience" and r: "ss_revision s = r"
      and rev: "PNone = PInt r \<or> (PNone = PNone \<and> (\<exists>e. from_document (to_document d) = Inr e \<and> r = ds_revision e))"
      and seq: "ss_sequence s = next_sequence iss audience"
      and stamps: "ss_issued_at s = zulu (dt_instant issued)" "ss_expires_at s = zulu (dt_instant issued + ttl)"
        "in_calendar (dt_instant issued)" "in_calendar (dt_instant issued + ttl)"
      and body: "state_body_json (to_document d) [] = Inr (ss_body_json s)"
      and signed: "sign (state_signed_bytes s) = Signed bs" "ss_signature s = hex_of bs"
    by (rule issue_stateD [OF assms(4), where w = "[]"]) blast
  have i: "fromisoformat (ss_issued_at s) = Some (utc (dt_instant issued))"
    using zulu_local [OF stamps(3)] stamps(1) by simp
  have x: "chan_us (ss_expires_at s) = Some (dt_instant issued + ttl)" using chan_us_zulu [OF stamps(4)] stamps(2) by simp
  have early: "in_calendar (dt_local (utc (dt_instant issued)) - max_state_clock_skew)"
    using assms(7) by (simp add: utc_def)
  have id: "is_identifier audience" using ok aud by (simp add: signed_state_ok_def)
  have sig: "fromhex (ss_signature s) = Inr bs" using signed(2) by (simp add: fromhex_def fromhex_hex)
  have newer: "last' = PNone \<or> (\<exists>n. last' = PInt n \<and> n < ss_sequence s)" using assms(10) seq by auto
  define a where "a = \<lparr>ac_audience = audience, ac_revision = ss_revision s, ac_sequence = ss_sequence s, ac_body_json = ss_body_json s\<rparr>"
  have accepted: "accept_state s at verify key audience last' = Inr a"
    unfolding accepted_iff [OF ok assms(6) id i early x] a_def
    using aud sig assms(5) [OF signed(1)] newer assms(8,9) by simp
  have written: "ss_body_json s = json_text False (to_document d)" "encodable (to_document d)" using body by (simp_all add: state_body_json_ok)
  have "value_ok (to_document d)"
    by (rule encodable_value_ok [OF written(2) document_values [OF assms(2,3)]])
  then have "body_value (ss_body_json s) = canon (to_document d)" unfolding written(1) by (simp add: body_value_def loads_text)
  then have "state_of_accepted a = Inr d"
    using from_document_canon [OF read document_values(1) [OF assms(2,3)] assms(3)] by (simp add: state_of_accepted_def a_def)
  moreover have "ac_revision a = ds_revision d" using rev read r by (simp add: a_def)
  ultimately show ?thesis using accepted seq by (auto simp: a_def)
qed

text \<open>
  C22: exactly which states a host accepts. For an envelope that could be constructed, at an instant with
  an offset, the host accepts it if and only if it is for this audience, not expired, issued no later
  than the clock skew allows, its signature text is the hex of a signature the verifier answers True
  for, and its sequence is newer than the last one where there is a last one; what the host then has is
  the envelope's audience, revision, sequence and body.
\<close>

theorem accept_state_iff:
  assumes "signed_state_ok s" and "dt_offset at \<noteq> None" and "is_identifier audience"
    and "fromisoformat (ss_issued_at s) = Some i" and "in_calendar (dt_local i - max_state_clock_skew)"
    and "chan_us (ss_expires_at s) = Some x"
  shows "accept_state s at verify key audience last' = Inr a \<longleftrightarrow>
      ss_audience s = audience \<and> dt_instant i - max_state_clock_skew \<le> dt_instant at \<and> dt_instant at \<le> x
      \<and> (\<exists>bs. fromhex (ss_signature s) = Inr bs \<and> verify key (state_signed_bytes s) bs = Returned True)
      \<and> (last' = PNone \<or> (\<exists>n. last' = PInt n \<and> n < ss_sequence s))
      \<and> a = \<lparr>ac_audience = audience, ac_revision = ss_revision s, ac_sequence = ss_sequence s,
             ac_body_json = ss_body_json s\<rparr>"
  by (rule accepted_iff [OF assms])

end
