(* ===== verification/State_Example.thy ===== *)
theory State_Example
  imports Operations_Example Fleet_State
begin

text \<open>Documents of the small fleet, one signed state for one of its hosts, and the instances of their properties.\<close>

section \<open>Documents\<close>

lemma demo_storable: "storable demo_state" "plain_drains demo_state" "ds_ok demo_state"
proof -
  have "plain_key ''os''" by code_simp
  then show "storable demo_state"
    by (simp add: storable_def demo_state_def demo_pool_def demo_host_def normal_labels_def)
  show "plain_drains demo_state" by (simp add: plain_drains_def demo_state_def)
  show "ds_ok demo_state" using demo_inv by (simp add: ds_inv_def)
qed

lemma demo_document: "from_document (to_document demo_state) = Inr demo_state" "unique_keys (to_document demo_state)"
  using state_written document_values demo_storable by blast+

theorem document_round_trip_witness:
  "ds_ok demo_state \<and> secret_free (to_document demo_state) \<and> from_document (to_document demo_state) = Inr demo_state"
  using document_round_trip [OF demo_document] by blast

theorem reachable_states_storable_witness: "from_document (to_document state1) = Inr state1"
  using reachable_states_storable [OF demo_document demo_inv] ds_step.assign [OF demo_assign] by blast

section \<open>A signed state\<close>

definition idle_state :: desired_state where
  "idle_state = demo_state\<lparr>ds_pools := [], ds_hosts := [demo_host ''h1'' 1]\<rparr>"

definition idle_text :: string where
  "idle_text = json_text False (to_document idle_state)"

definition sealed :: bytes where
  "sealed = replicate 64 0"

definition idle_signed :: "int \<Rightarrow> signed_state" where
  "idle_signed n = \<lparr>ss_audience = ''h1'', ss_revision = 1, ss_sequence = n, ss_issued_at = zulu noon,
     ss_expires_at = zulu (noon + seconds 60), ss_body_json = idle_text, ss_signature = hex_of sealed\<rparr>"

lemma idle_ok: "storable idle_state" "plain_drains idle_state" "ds_ok idle_state" "ds_revision idle_state = 1"
proof -
  have "demo_host ''h1'' 1 \<in> set (ds_hosts demo_state)" by (simp add: demo_state_def)
  then have "host_ok (demo_host ''h1'' 1)" using demo_storable(3) by (auto simp: ds_ok_def list_all_iff)
  then show "ds_ok idle_state"
    by (simp add: ds_ok_def idle_state_def demo_state_def keys_ok_def refs_ok_def)
qed (simp_all add: storable_def plain_drains_def idle_state_def demo_state_def demo_host_def normal_labels_def)

lemma idle_size: "length (utf8 idle_text) \<le> 1000"
  unfolding idle_text_def idle_state_def demo_state_def demo_host_def by code_simp

lemma idle_body: "state_body_json (to_document idle_state) w = Inr idle_text" "state_body_ok idle_text"
proof -
  have "encodable (to_document idle_state)"
    by (simp add: to_document_def idle_state_def demo_state_def demo_host_def host_to_document_def labels_document_def
        dict_of_def max_str_digits_def nat_str.simps)
  moreover have "length (utf8 (json_text False (to_document idle_state))) \<le> max_state_body_bytes"
    using idle_size by (simp add: idle_text_def max_state_body_bytes_def)
  ultimately show "state_body_json (to_document idle_state) w = Inr idle_text" "state_body_ok idle_text"
    using state_body_written [OF idle_ok(3,1,2)] by (simp_all add: idle_text_def)
qed

lemma hex_length: "length (hex_of bs) = 2 * length bs"
  by (induction bs) (simp_all add: hex_of_def)

lemma idle_signatures: "signature_text (hex_of sealed)" "signature_text zero_signature"
proof -
  show "signature_text (hex_of sealed)"
    using hex_of_text [of sealed] by (simp add: signature_text_def hex_length sealed_def)
  show "signature_text zero_signature"
    by (simp add: signature_text_def zero_signature_def is_hex_text_def dollar_def hex_body_def is_hex_def is_digit_def
        code_def list_all_iff)
qed

lemma idle_signed_ok: "1 \<le> n \<Longrightarrow> n \<le> 9 \<Longrightarrow> signed_state_ok (idle_signed n)"
  using idle_signatures idle_body(2)
  by (simp add: signed_state_ok_def idle_signed_def max_sequence_def)
    (simp add: seconds_def second_us_def max_state_lifetime_def)

definition demo_sign :: signer where
  "demo_sign m = Signed sealed"

definition demo_verify :: verifier where
  "demo_verify k m g = Returned True"

definition told_once :: state_issuer where
  "told_once = issuer_init\<lparr>si_sequences := [''h1'' \<mapsto> 1]\<rparr>"

definition told_twice :: state_issuer where
  "told_twice = issuer_init\<lparr>si_sequences := [''h1'' \<mapsto> 2]\<rparr>"

lemma idle_issue:
  assumes "next_sequence i ''h1'' = n" and "1 \<le> n" and "n \<le> 9"
  shows "issue_state i (to_document idle_state) ''h1'' (utc noon) demo_sign (seconds 60) PNone
    = Inr (i\<lparr>si_sequences := (si_sequences i)(''h1'' \<mapsto> n)\<rparr>, idle_signed n)"
proof -
  have made: "signed_state_make (PStr ''h1'') (PInt 1) (PInt n) (PStr (zulu noon)) (PStr (zulu (noon + seconds 60))) idle_text
      (PStr g) = Inr (idle_signed n\<lparr>ss_signature := g\<rparr>)" if "signature_text g" for g
    using idle_signed_ok [OF assms(2,3)] that
    by (simp only: signed_state_make_ok) (simp add: signed_state_ok_def idle_signed_def)
  have same: "idle_signed n\<lparr>ss_signature := hex_of sealed\<rparr> = idle_signed n" by (simp add: idle_signed_def)
  have read: "from_document (to_document idle_state) = Inr idle_state" by (rule state_written [OF idle_ok(3,1)])
  have ttl: "check_ttl (seconds 60) = Inr ()"
    by (simp add: check_ttl_def seconds_def second_us_def max_state_lifetime_def)
  have host: "channel_identifier (PStr ''h1'') w = Inr ''h1''" for w by (simp add: channel_identifier_def)
  have clock: "channel_instant (utc noon) w = Inr (utc noon)" for w by (simp add: channel_instant_def)
  have seq: "(case si_sequences i ''h1'' of None \<Rightarrow> 0 | Some k \<Rightarrow> k) + 1 = n" using assms(1) by (simp add: next_sequence_def)
  have fields: "ss_audience (idle_signed n\<lparr>ss_signature := g\<rparr>) = ''h1''" "ss_revision (idle_signed n\<lparr>ss_signature := g\<rparr>) = 1"
      "ss_sequence (idle_signed n\<lparr>ss_signature := g\<rparr>) = n" "ss_issued_at (idle_signed n\<lparr>ss_signature := g\<rparr>) = zulu noon"
      "ss_expires_at (idle_signed n\<lparr>ss_signature := g\<rparr>) = zulu (noon + seconds 60)"
      "ss_body_json (idle_signed n\<lparr>ss_signature := g\<rparr>) = idle_text" for g
    by (simp_all add: idle_signed_def)
  have plain: "as_state_error b a (Inr x) = Inr x" for b a and x :: 'x by (simp add: as_state_error_def)
  have sign: "sign_state x demo_sign = Inr sealed" for x by (simp add: sign_state_def demo_sign_def)
  have later: "bindR (dt_add (utc noon) (seconds 60)) channel_stamp = Inr (zulu (noon + seconds 60))"
    by (rule demo_later) simp
  have now: "channel_stamp (utc noon) = Inr (zulu noon)" by simp
  show ?thesis
    unfolding issue_state_def host clock bindR_Inr plain ttl idle_body(1) read idle_ok(4) simp_thms if_True seq Let_def
      later now made [OF idle_signatures(2)] sign fields made [OF idle_signatures(1)] same ..
qed

lemma demo_issues:
  "issue_state issuer_init (to_document idle_state) ''h1'' (utc noon) demo_sign (seconds 60) PNone = Inr (told_once, idle_signed 1)"
  "issue_state told_once (to_document idle_state) ''h1'' (utc noon) demo_sign (seconds 60) PNone = Inr (told_twice, idle_signed 2)"
  using idle_issue [of issuer_init 1] idle_issue [of told_once 2]
  by (simp_all add: next_sequence_def issuer_init_def told_once_def told_twice_def)

lemma demo_clock: "dt_offset (utc noon) \<noteq> None" "in_calendar (noon - max_state_clock_skew)" "noon - max_state_clock_skew \<le> noon"
    "noon \<le> noon + seconds 60"
  by (simp_all add: max_state_clock_skew_def seconds_def second_us_def in_calendar_def max_us_def noon_def max_ordinal_def day_us_def)

theorem state_delivered_witness:
  "\<exists>a. accept_state (idle_signed 1) (utc noon) demo_verify key0 ''h1'' PNone = Inr a \<and> state_of_accepted a = Inr idle_state"
  using state_delivered [OF idle_ok(3,1,2) demo_issues(1), of demo_verify key0 "utc noon" PNone] demo_clock
  by (auto simp: demo_verify_def)

lemma demo_accepted: "accept_state (idle_signed n) (utc noon) demo_verify key0 ''h1'' PNone = Inr
    \<lparr>ac_audience = ''h1'', ac_revision = 1, ac_sequence = n, ac_body_json = idle_text\<rparr>" if "1 \<le> n" "n \<le> 9"
proof -
  have i: "fromisoformat (ss_issued_at (idle_signed n)) = Some (utc noon)" by (simp add: idle_signed_def zulu_reads)
  have x: "chan_us (ss_expires_at (idle_signed n)) = Some (noon + seconds 60)" by (simp add: idle_signed_def)
  have "fromhex (hex_of sealed) = Inr sealed" by (simp add: fromhex_def fromhex_hex)
  then show ?thesis
    using accepted_iff [OF idle_signed_ok [OF that] demo_clock(1) enrolled_ids(3) i _ x] demo_clock
    by (simp add: idle_signed_def demo_verify_def)
qed

theorem accept_state_iff_witness:
  "accept_state (idle_signed 2) (utc noon) demo_verify key0 ''h1'' (PInt 1) = Inr
     \<lparr>ac_audience = ''h1'', ac_revision = 1, ac_sequence = 2, ac_body_json = idle_text\<rparr>"
proof -
  have ok: "signed_state_ok (idle_signed 2)" by (rule idle_signed_ok) simp_all
  have i: "fromisoformat (ss_issued_at (idle_signed 2)) = Some (utc noon)" by (simp add: idle_signed_def zulu_reads)
  have x: "chan_us (ss_expires_at (idle_signed 2)) = Some (noon + seconds 60)" by (simp add: idle_signed_def)
  have "fromhex (hex_of sealed) = Inr sealed" by (simp add: fromhex_def fromhex_hex)
  then show ?thesis
    using accept_state_iff [OF ok demo_clock(1) enrolled_ids(3) i _ x] demo_clock
    by (simp add: idle_signed_def demo_verify_def)
qed

theorem superseded_state_refused_witness:
  "\<exists>a. accept_state (idle_signed 2) (utc noon) demo_verify key0 ''h1'' PNone = Inr a \<and> ac_sequence a = 2
     \<and> (\<nexists>b. accept_state (idle_signed 1) (utc noon) demo_verify key0 ''h1'' (PInt (ac_sequence a)) = Inr b)"
proof -
  obtain a where a: "accept_state (idle_signed 2) (utc noon) demo_verify key0 ''h1'' PNone = Inr a" "ac_sequence a = 2"
    using demo_accepted [of 2] by auto
  then show ?thesis
    using superseded_state_refused [OF demo_issues(1) rtranclp.rtrancl_refl demo_issues(2) a(1)] by auto
qed

end
