(* ===== verification/Toolchain_Requests.thy ===== *)
theory Toolchain_Requests
  imports Py_Schema
begin

text \<open>
  The tool requests of the hub: the vocabulary and the profiles
  (\<open>hub/toolchain_requests.py\<close>), a request row with its history, the table of transitions and the
  operator's decision (\<open>hub/toolchain_transitions.py\<close>). The rows are the dictionaries that
  \<open>new_request_row\<close> makes, as records; a key that may be absent is an option. The fields a caller
  presents (\<open>actor\<close>, \<open>principal\<close>, \<open>nonce\<close>, \<open>expected_version\<close>) are any Python value, since the
  route hands them over unchecked. A function
  that mutates a row and may raise returns the row beside the result.
\<close>

section \<open>Vocabulary and profiles\<close>

definition vocabulary :: "string list" where
  "vocabulary = [''cargo'', ''cmake'', ''dotnet'', ''gcc'', ''g++'', ''gitleaks'', ''go'', ''gradle'', ''java'',
     ''make'', ''maven'', ''node'', ''npm'', ''pnpm'', ''pip'', ''python'', ''shellcheck'']"

definition profiles :: "(string \<times> string list) list" where
  "profiles =
     [(''none'', []), (''base'', [''gcc'', ''make'', ''python'', ''pip'']), (''rust'', [''cargo'', ''gcc'', ''make'']),
      (''node'', [''node'', ''npm'']), (''go'', [''go'']), (''jvm'', [''java'', ''maven'', ''gradle'']),
      (''dotnet'', [''dotnet'']), (''web-js'', [''node'', ''npm'', ''pnpm'']),
      (''ci-hygiene'', [''shellcheck'', ''gitleaks''])]"

definition required_tools :: "string option \<Rightarrow> string list option" where
  "required_tools pid = (case pid of None \<Rightarrow> None | Some i \<Rightarrow> map_option sort (map_of profiles i))"

definition missing_tools_max_entries :: nat where
  "missing_tools_max_entries = 32"

definition tool_request_suppression_days :: int where
  "tool_request_suppression_days = 14"

definition decision_note_max_chars :: nat where
  "decision_note_max_chars = 512"

definition is_known_profile :: "string option \<Rightarrow> bool" where
  "is_known_profile pid \<longleftrightarrow> (case pid of None \<Rightarrow> True | Some i \<Rightarrow> i \<in> fst ` set profiles)"

text \<open>The first entry that is refused decides the code.\<close>

fun check_entries_of :: "pyval list \<Rightarrow> string + string list" where
  "check_entries_of [] = Inr []"
| "check_entries_of (v # vs) =
     (case v of
        PStr s \<Rightarrow>
          if s \<in> set vocabulary then bindR (check_entries_of vs) (\<lambda>ss. Inr (s # ss))
          else Inl ''missing_tools_outside_vocabulary''
      | _ \<Rightarrow> Inl ''missing_tools_entry_not_a_string'')"

definition validate_missing_tools :: "pyval \<Rightarrow> string + string list" where
  "validate_missing_tools submitted =
     (case submitted of
        PList vs \<Rightarrow>
          if length vs > missing_tools_max_entries then Inl ''missing_tools_too_many_entries''
          else check_entries_of vs
      | _ \<Rightarrow> Inl ''missing_tools_not_a_list'')"

fun dedupe_from :: "string list \<Rightarrow> string list \<Rightarrow> string list" where
  "dedupe_from seen [] = []"
| "dedupe_from seen (t # ts) = (if t \<in> set seen then dedupe_from seen ts else t # dedupe_from (t # seen) ts)"

definition dedupe :: "string list \<Rightarrow> string list" where
  "dedupe tools = dedupe_from [] tools"

definition gap_for_profile :: "string option \<Rightarrow> string list option \<Rightarrow> string list" where
  "gap_for_profile pid observed =
     (case observed of
        None \<Rightarrow> []
      | Some ps \<Rightarrow>
          filter (\<lambda>t. t \<notin> set ps)
            (case map_of profiles (case pid of None \<Rightarrow> [] | Some i \<Rightarrow> i) of None \<Rightarrow> [] | Some ts \<Rightarrow> ts))"

lemma validate_missing_tools_ok: "validate_missing_tools v = Inr ts \<longleftrightarrow>
    v = PList (map PStr ts) \<and> length ts \<le> missing_tools_max_entries \<and> set ts \<subseteq> set vocabulary"
proof -
  have entries: "check_entries_of vs = Inr us \<longleftrightarrow> vs = map PStr us \<and> set us \<subseteq> set vocabulary" for vs us
  proof (induction vs arbitrary: us)
    case (Cons v vs)
    show ?case
      using Cons.IH by (cases v; cases us) (auto simp: bindR_Inr_iff)
  qed (auto)
  show ?thesis by (cases v) (auto simp: validate_missing_tools_def entries)
qed

lemma set_dedupe_from: "set (dedupe_from seen ts) = set ts - set seen"
  by (induction seen ts rule: dedupe_from.induct) auto

lemma distinct_dedupe_from: "distinct (dedupe_from seen ts)"
  by (induction seen ts rule: dedupe_from.induct) (auto simp: set_dedupe_from)

lemma dedupe_ok: "set (dedupe ts) = set ts" "distinct (dedupe ts)"
  by (simp_all add: dedupe_def set_dedupe_from distinct_dedupe_from)

section \<open>Rows\<close>

record audit_row =
  au_seq :: int
  au_at :: string
  au_actor :: pyval
  au_principal :: pyval
  au_credential_id :: "string option"
  au_event :: string
  au_from :: "string option"
  au_to :: "string option"
  au_version_before :: "int option"
  au_version_after :: "int option"
  au_note :: "string option"

record tool_request =
  tq_id :: string
  tq_lane :: string
  tq_tool :: string
  tq_required_profile :: "string option"
  tq_state :: string
  tq_version :: int
  tq_observed_at :: string
  tq_last_seen :: string
  tq_last_reported_at :: string
  tq_actor :: pyval
  tq_principal :: pyval
  tq_credential_id :: "string option"
  tq_decided_at :: "string option"
  tq_decision_note :: "string option"
  tq_nonces :: "pyval list"
  tq_build_id :: "string option"
  tq_builder_identity :: "string option"
  tq_lane_image_digest :: "string option"
  tq_fulfilled_at :: "string option"
  tq_suppression_until :: "string option"
  tq_suppressed_reports :: int
  tq_awaiting_cleared :: "string option"
  tq_history :: "audit_row list"

text \<open>\<open>audit_record\<close>: the sequence number follows the last entry.\<close>

definition audit_record ::
  "tool_request \<Rightarrow> string \<Rightarrow> pyval \<Rightarrow> pyval \<Rightarrow> string option \<Rightarrow> string \<Rightarrow> string \<Rightarrow> string \<Rightarrow> int \<Rightarrow> int
   \<Rightarrow> string option \<Rightarrow> audit_row" where
  "audit_record r at actor who cred event frm to vb va note =
     \<lparr>au_seq = (if tq_history r = [] then 0 else au_seq (last (tq_history r)) + 1), au_at = at, au_actor = actor,
      au_principal = who, au_credential_id = cred, au_event = event, au_from = Some frm, au_to = Some to,
      au_version_before = Some vb, au_version_after = Some va, au_note = note\<rparr>"

definition append_history :: "tool_request \<Rightarrow> audit_row \<Rightarrow> tool_request" where
  "append_history r a = r\<lparr>tq_history := tq_history r @ [a]\<rparr>"

definition note_too_long :: "string option \<Rightarrow> bool" where
  "note_too_long note \<longleftrightarrow> (case note of None \<Rightarrow> False | Some n \<Rightarrow> length n > decision_note_max_chars)"

text \<open>\<open>mon-tc-04\<close>: the only transitions there are.\<close>

definition tc_transitions :: "((string \<times> string) \<times> string) list" where
  "tc_transitions =
     [((''open'', ''decide-approve''), ''approved''), ((''open'', ''decide-deny''), ''denied''),
      ((''approved'', ''report-built''), ''built''), ((''built'', ''converge''), ''fulfilled''),
      ((''approved'', ''build-failed''), ''open''), ((''built'', ''build-failed''), ''open''),
      ((''fulfilled'', ''gap-regressed''), ''open''), ((''denied'', ''report-suppressed''), ''denied''),
      ((''denied'', ''report-after-window''), ''open'')]"

definition rule_to :: "string \<Rightarrow> string \<Rightarrow> string option" where
  "rule_to s e = map_of tc_transitions (s, e)"

section \<open>Suppression windows\<close>

text \<open>
  \<open>datetime.strptime(now, "%Y-%m-%dT%H:%M:%SZ")\<close>: every field but the year may have one digit, the day
  a leading space, and the literal letters match in either case. A second of 60 or 61 passes the
  pattern and is refused by the constructor. The printed year has four digits.
\<close>

definition strp_number :: "nat \<Rightarrow> nat \<Rightarrow> string \<Rightarrow> nat option" where
  "strp_number lo hi s =
     (if s \<noteq> [] \<and> length s \<le> 2 \<and> list_all is_digit s \<and> lo \<le> num_of s \<and> num_of s \<le> hi
      then Some (num_of s) else None)"

definition strp_day :: "string \<Rightarrow> nat option" where
  "strp_day s =
     (case s of
        [a, b] \<Rightarrow> if a = CHR '' '' then strp_number 1 9 [b] else strp_number 1 31 s
      | _ \<Rightarrow> strp_number 1 31 s)"

definition strp_year :: "string \<Rightarrow> nat option" where
  "strp_year s = (if length s = 4 \<and> list_all is_digit s then Some (num_of s) else None)"

text \<open>The text up to the first character \<open>p\<close> accepts, and what follows that character.\<close>

definition cut_at :: "(char \<Rightarrow> bool) \<Rightarrow> string \<Rightarrow> (string \<times> string) option" where
  "cut_at p s = (case dropWhile (\<lambda>c. \<not> p c) s of [] \<Rightarrow> None | _ # rest \<Rightarrow> Some (takeWhile (\<lambda>c. \<not> p c) s, rest))"

definition strp_zulu :: "string \<Rightarrow> int option" where
  "strp_zulu s =
     Option.bind (cut_at (\<lambda>c. c = CHR ''-'') s) (\<lambda>(y, s1).
     Option.bind (cut_at (\<lambda>c. c = CHR ''-'') s1) (\<lambda>(m, s2).
     Option.bind (cut_at (\<lambda>c. c = CHR ''T'' \<or> c = CHR ''t'') s2) (\<lambda>(d, s3).
     Option.bind (cut_at (\<lambda>c. c = CHR '':'') s3) (\<lambda>(h, s4).
     Option.bind (cut_at (\<lambda>c. c = CHR '':'') s4) (\<lambda>(mi, s5).
     Option.bind (cut_at (\<lambda>c. c = CHR ''Z'' \<or> c = CHR ''z'') s5) (\<lambda>(sec, rest).
     Option.bind (strp_year y) (\<lambda>yn. Option.bind (strp_number 1 12 m) (\<lambda>mn. Option.bind (strp_day d) (\<lambda>dn.
     Option.bind (strp_number 0 23 h) (\<lambda>hn. Option.bind (strp_number 0 59 mi) (\<lambda>min.
     Option.bind (strp_number 0 61 sec) (\<lambda>sn.
       if rest = [] \<and> valid_ymd yn mn dn \<and> sn < 60
       then Some ((int (ymd2ord yn mn dn) - 1) * day_us + int (hn * 3600 + min * 60 + sn) * second_us)
       else None))))))))))))"

text \<open>
  \<open>suppress_until\<close>; \<open>clock\<close> is \<open>datetime.now(timezone.utc)\<close> in microseconds, read when \<open>now\<close> does not
  parse. A result past the year 9999 raises.
\<close>

definition suppress_until :: "int \<Rightarrow> string \<Rightarrow> string res" where
  "suppress_until clock now =
     (let base = (case strp_zulu now of None \<Rightarrow> clock - clock mod second_us | Some t \<Rightarrow> t);
          until = base + tool_request_suppression_days * day_us in
      if in_calendar until then Inr (isoformat_local (utc until) @ ''Z'') else overflow)"

definition report_event :: "string \<Rightarrow> bool \<Rightarrow> string option" where
  "report_event state within =
     (if state = ''fulfilled'' then Some ''gap-regressed''
      else if state = ''denied'' then Some (if within then ''report-suppressed'' else ''report-after-window'')
      else None)"

end
