(* ===== verification/Toolchain_Engine.thy ===== *)
theory Toolchain_Engine
  imports Toolchain_Requests
begin

text \<open>
  The two ways to move a request row: the operator's decision (\<open>decide\<close> of
  \<open>hub/toolchain_transitions.py\<close>) and evidence (\<open>hub/toolchain_evidence.py\<close>): a builder's report, and the
  lane's own image digest with the tools it still misses.
\<close>

definition given :: "string option \<Rightarrow> bool" where
  "given x \<longleftrightarrow> (case x of None \<Rightarrow> False | Some s \<Rightarrow> s \<noteq> [])"

text \<open>\<open>_result\<close>: a status, an error code, and the keys some answers carry.\<close>

record engine_result =
  er_status :: int
  er_error :: "string option"
  er_idempotent :: bool
  er_applied_at :: "string option"
  er_version :: "int option"
  er_state :: "string option"
  er_event :: "string option"
  er_credential_class :: "string option"
  er_current_version :: "int option"
  er_submitted_version :: pyval
  er_cap :: "int option"
  er_fields :: "string list"
  er_approved_profile :: "string option"

definition result_of :: "int \<Rightarrow> string option \<Rightarrow> engine_result" where
  "result_of status err =
     \<lparr>er_status = status, er_error = err, er_idempotent = False, er_applied_at = None, er_version = None,
      er_state = None, er_event = None, er_credential_class = None, er_current_version = None,
      er_submitted_version = PNone, er_cap = None, er_fields = [], er_approved_profile = None\<rparr>"

section \<open>The operator's decision\<close>

definition decide_scope :: string where
  "decide_scope = ''toolchain:decide''"

record decision =
  de_action :: string
  de_class :: "string option"
  de_scope :: "string option"
  de_credential_id :: "string option"
  de_actor :: pyval
  de_principal :: pyval
  de_nonce :: pyval
  de_expected_version :: pyval
  de_note :: "string option"
  de_now :: string

definition decide_event :: "decision \<Rightarrow> string" where
  "decide_event d = (if de_action d = ''approve'' then ''decide-approve'' else ''decide-deny'')"

text \<open>The audit entry of a decision that leaves the row where it is.\<close>

definition refused_decision :: "tool_request \<Rightarrow> decision \<Rightarrow> string \<Rightarrow> string option \<Rightarrow> tool_request" where
  "refused_decision r d event note =
     append_history r (audit_record r (de_now d) (de_actor d) (de_principal d) (de_credential_id d) event
       (tq_state r) (tq_state r) (tq_version r) (tq_version r) note)"

definition prior_decision :: "tool_request \<Rightarrow> decision \<Rightarrow> audit_row option" where
  "prior_decision r d =
     List.find (\<lambda>h. au_version_after h = Some (tq_version r) \<and> au_event h = decide_event d
                  \<and> py_eq (au_actor h) (de_actor d) \<and> au_note h = de_note d) (tq_history r)"

text \<open>
  The decision as it is applied: the row is written first, and the end of a denial's window is computed
  before the audit entry is appended.
\<close>

definition apply_decision :: "int \<Rightarrow> tool_request \<Rightarrow> decision \<Rightarrow> string \<Rightarrow> tool_request \<times> engine_result res" where
  "apply_decision clock r d to =
     (let r1 = r\<lparr>tq_state := to, tq_version := tq_version r + 1, tq_actor := de_actor d,
                  tq_principal := de_principal d, tq_credential_id := de_credential_id d,
                  tq_decided_at := Some (de_now d), tq_decision_note := de_note d,
                  tq_nonces := tq_nonces r @ [de_nonce d]\<rparr>;
          window = (if to = ''denied'' then bindR (suppress_until clock (de_now d)) (\<lambda>t. Inr (Some t))
                    else Inr (tq_suppression_until r1)) in
      case window of
        Inl e \<Rightarrow> (r1, Inl e)
      | Inr w \<Rightarrow>
          (let r2 = r1\<lparr>tq_suppression_until := w\<rparr> in
           (append_history r2 (audit_record r2 (de_now d) (de_actor d) (de_principal d) (de_credential_id d)
              (decide_event d) (tq_state r) to (tq_version r) (tq_version r + 1) (de_note d)),
            Inr ((result_of 200 None)\<lparr>er_version := Some (tq_version r + 1), er_state := Some to\<rparr>))))"

definition decide ::
  "int \<Rightarrow> (pyval \<Rightarrow> bool) \<Rightarrow> tool_request \<Rightarrow> decision \<Rightarrow> tool_request \<times> engine_result res" where
  "decide clock consumed r d =
     (if de_class d = None then (r, Inr (result_of 401 (Some ''unknown_credential'')))
      else if de_class d \<noteq> Some ''operator'' \<or> de_scope d \<noteq> Some decide_scope
      then (refused_decision r d ''rejected_credential_class'' None,
            Inr ((result_of 403 (Some ''rejected_credential_class''))
              \<lparr>er_credential_class := Some (if given (de_class d) then the (de_class d) else ''unknown'')\<rparr>))
      else if de_expected_version d \<noteq> PNone \<and> \<not> py_eq (de_expected_version d) (PInt (tq_version r))
      then (refused_decision r d ''rejected-conflict'' (de_note d),
            Inr ((result_of 409 (Some ''version_conflict''))
              \<lparr>er_current_version := Some (tq_version r), er_submitted_version := de_expected_version d\<rparr>))
      else
        case (if py_eq (de_expected_version d) (PInt (tq_version r)) then prior_decision r d else None) of
          Some h \<Rightarrow>
            (r, Inr ((result_of 200 None)\<lparr>er_idempotent := True, er_applied_at := Some (au_at h),
                       er_version := Some (tq_version r), er_state := Some (tq_state r)\<rparr>))
        | None \<Rightarrow>
            if \<not> truthy (de_actor d) \<or> \<not> truthy (de_principal d) \<or> \<not> truthy (de_nonce d)
            then (r, Inr (result_of 400 (Some ''actor_claim_incomplete'')))
            else if consumed (de_nonce d)
            then (refused_decision r d ''rejected-replay'' None, Inr (result_of 409 (Some ''replayed_nonce'')))
            else if note_too_long (de_note d)
            then (r, Inr ((result_of 400 (Some ''decision_note_too_long''))
                       \<lparr>er_cap := Some (int decision_note_max_chars)\<rparr>))
            else if decide_event d = ''decide-deny'' \<and> \<not> given (de_note d)
            then (refused_decision r d ''rejected-missing-note'' None, Inr (result_of 400 (Some ''deny_requires_note'')))
            else
              case rule_to (tq_state r) (decide_event d) of
                None \<Rightarrow>
                  (refused_decision r d ''rejected-transition'' None,
                   Inr ((result_of 409 (Some ''transition_not_in_table''))
                     \<lparr>er_state := Some (tq_state r), er_event := Some (decide_event d)\<rparr>))
              | Some to \<Rightarrow> apply_decision clock r d to)"

section \<open>A builder's report\<close>

record build_report =
  br_class :: "string option"
  br_credential_id :: "string option"
  br_builder_identity :: "string option"
  br_profile_id :: "string option"
  br_build_id :: "string option"
  br_digest :: "string option"
  br_note :: "string option"
  br_expected_version :: pyval
  br_now :: string

definition as_py :: "string option \<Rightarrow> pyval" where
  "as_py x = (case x of None \<Rightarrow> PNone | Some s \<Rightarrow> PStr s)"

definition missing_fields :: "build_report \<Rightarrow> string list" where
  "missing_fields b =
     (if given (br_build_id b) then [] else [''build_id''])
     @ (if given (br_profile_id b) then [] else [''profile_id''])
     @ (if given (br_digest b) then [] else [''digest''])"

definition report_entry ::
  "tool_request \<Rightarrow> build_report \<Rightarrow> string \<Rightarrow> string \<Rightarrow> string \<Rightarrow> int \<Rightarrow> int \<Rightarrow> string option \<Rightarrow> audit_row" where
  "report_entry r b event frm to vb va note =
     audit_record r (br_now b) (as_py (br_builder_identity b)) (as_py (br_builder_identity b)) (br_credential_id b)
       event frm to vb va note"

definition refused_report :: "tool_request \<Rightarrow> build_report \<Rightarrow> string \<Rightarrow> string option \<Rightarrow> tool_request" where
  "refused_report r b event note =
     append_history r (report_entry r b event (tq_state r) (tq_state r) (tq_version r) (tq_version r) note)"

definition build_event :: "build_report \<Rightarrow> string" where
  "build_event b = (if br_digest b = None then ''build-failed'' else ''report-built'')"

definition apply_report :: "tool_request \<Rightarrow> build_report \<Rightarrow> string \<Rightarrow> tool_request" where
  "apply_report r b to =
     (let r1 = r\<lparr>tq_state := to, tq_version := tq_version r + 1, tq_builder_identity := br_builder_identity b\<rparr>;
          r2 = (if br_digest b = None then r1\<lparr>tq_build_id := None, tq_lane_image_digest := None\<rparr>
                else r1\<lparr>tq_build_id := br_build_id b, tq_lane_image_digest := br_digest b\<rparr>);
          r3 = (if to \<noteq> ''built'' then r2\<lparr>tq_fulfilled_at := None\<rparr> else r2) in
      append_history r3 (report_entry r3 b (build_event b) (tq_state r) to (tq_version r) (tq_version r + 1)
        (br_note b)))"

text \<open>\<open>report_build\<close>, once the row is found.\<close>

definition report_build_row :: "tool_request \<Rightarrow> build_report \<Rightarrow> tool_request \<times> engine_result" where
  "report_build_row r b =
     (if br_class b \<noteq> Some ''builder''
      then (refused_report r b ''rejected_credential_class'' None,
            (result_of 403 (Some ''rejected_credential_class''))
              \<lparr>er_credential_class := Some (if given (br_class b) then the (br_class b) else ''unknown'')\<rparr>)
      else if \<not> given (br_builder_identity b) then (r, result_of 403 (Some ''builder_identity_missing''))
      else if br_digest b \<noteq> None \<and> missing_fields b \<noteq> []
      then (r, (result_of 400 (Some ''build_evidence_incomplete''))\<lparr>er_fields := missing_fields b\<rparr>)
      else if note_too_long (br_note b)
      then (r, (result_of 400 (Some ''note_too_long''))\<lparr>er_cap := Some (int decision_note_max_chars)\<rparr>)
      else if br_digest b = None \<and> \<not> given (br_note b)
      then (refused_report r b ''rejected-missing-note'' None, result_of 400 (Some ''build_failure_requires_note''))
      else if br_expected_version b = PNone then (r, result_of 400 (Some ''expected_version_required''))
      else if \<not> py_eq (br_expected_version b) (PInt (tq_version r))
      then (refused_report r b ''rejected-conflict'' None,
            (result_of 409 (Some ''version_conflict''))
              \<lparr>er_current_version := Some (tq_version r), er_submitted_version := br_expected_version b\<rparr>)
      else
        case rule_to (tq_state r) (build_event b) of
          None \<Rightarrow>
            (refused_report r b ''rejected-transition'' None,
             (result_of 409 (Some ''transition_not_in_table''))
               \<lparr>er_state := Some (tq_state r), er_event := Some (build_event b)\<rparr>)
        | Some to \<Rightarrow>
            if br_digest b \<noteq> None \<and> (tq_required_profile r = None \<or> tq_required_profile r \<noteq> br_profile_id b)
            then (refused_report r b ''rejected-transition'' (Some ''profile_mismatch''),
                  (result_of 409 (Some ''profile_mismatch''))\<lparr>er_approved_profile := tq_required_profile r\<rparr>)
            else (apply_report r b to,
                  (result_of 200 None)\<lparr>er_state := Some to, er_version := Some (tq_version r + 1)\<rparr>))"

section \<open>The lane's evidence\<close>

definition probe_passes :: "tool_request \<Rightarrow> string list option \<Rightarrow> bool option \<Rightarrow> bool" where
  "probe_passes r missing complete \<longleftrightarrow>
     complete \<noteq> Some False \<and> (case missing of None \<Rightarrow> False | Some ts \<Rightarrow> tq_tool r \<notin> set ts)"

definition lane_entry :: "tool_request \<Rightarrow> string \<Rightarrow> string \<Rightarrow> string \<Rightarrow> string \<Rightarrow> int \<Rightarrow> int \<Rightarrow> string option \<Rightarrow> audit_row" where
  "lane_entry r now event frm to vb va note = audit_record r now PNone PNone None event frm to vb va note"

definition cleared_note :: string where
  "cleared_note =
     ''lane reported a different image digest; the awaited build ''
     @ ''will never converge. State stays built and visible (mon-tc-06).''"

definition regressed_note :: string where
  "regressed_note = ''lane re-reported this tool missing after fulfillment''"

definition converge_or_clear ::
  "tool_request \<Rightarrow> string option \<Rightarrow> string list option \<Rightarrow> bool option \<Rightarrow> string \<Rightarrow> tool_request \<times> nat" where
  "converge_or_clear r reported missing complete now =
     (if \<not> given (tq_lane_image_digest r) \<or> \<not> given reported then (r, 0)
      else if reported \<noteq> tq_lane_image_digest r then
        if tq_awaiting_cleared r = reported then (r, 0)
        else
          (let r1 = r\<lparr>tq_lane_image_digest := None, tq_awaiting_cleared := reported\<rparr> in
           (append_history r1 (lane_entry r1 now ''awaiting-digest-cleared'' (tq_state r1) (tq_state r1)
              (tq_version r1) (tq_version r1) (Some cleared_note)), 0))
      else if \<not> probe_passes r missing complete then (r, 0)
      else
        case rule_to (tq_state r) ''converge'' of
          None \<Rightarrow> (r, 0)
        | Some to \<Rightarrow>
            (let r1 = r\<lparr>tq_state := to, tq_version := tq_version r + 1, tq_fulfilled_at := Some now,
                         tq_awaiting_cleared := None\<rparr> in
             (append_history r1 (lane_entry r1 now ''converge'' (tq_state r) to (tq_version r) (tq_version r + 1) None),
              1)))"

definition regress_if_reported :: "tool_request \<Rightarrow> string list option \<Rightarrow> string \<Rightarrow> tool_request \<times> nat" where
  "regress_if_reported r missing now =
     (case missing of
        None \<Rightarrow> (r, 0)
      | Some ts \<Rightarrow>
          if tq_tool r \<notin> set ts then (r, 0)
          else
            case rule_to (tq_state r) ''gap-regressed'' of
              None \<Rightarrow> (r, 0)
            | Some to \<Rightarrow>
                (let r1 = r\<lparr>tq_state := to, tq_version := tq_version r + 1, tq_fulfilled_at := None,
                             tq_build_id := None, tq_lane_image_digest := None\<rparr> in
                 (append_history r1 (lane_entry r1 now ''gap-regressed'' (tq_state r) to (tq_version r)
                    (tq_version r + 1) (Some regressed_note)), 1)))"

definition evidence_row ::
  "string \<Rightarrow> string option \<Rightarrow> string list option \<Rightarrow> bool option \<Rightarrow> string \<Rightarrow> tool_request \<Rightarrow> tool_request \<times> nat" where
  "evidence_row lane reported missing complete now r =
     (if tq_lane r \<noteq> lane then (r, 0)
      else if tq_state r = ''built'' then converge_or_clear r reported missing complete now
      else if tq_state r = ''fulfilled'' then regress_if_reported r missing now
      else (r, 0))"

end
