(* ===== verification/Toolchain_Registry.thy ===== *)
theory Toolchain_Registry
  imports Toolchain_Engine
begin

text \<open>
  The hub's registry, as far as its runners and its tool requests go: enrollment and heartbeats
  (\<open>hub/registry.py\<close> and the closures of \<open>hub/server.py\<close>), gap reports (\<open>hub/toolchain_store.py\<close>),
  credentials and consumed nonces (\<open>hub/toolchain_creds.py\<close>). The JSON document is a record. A lookup by name finds the first match, and a
  mutation of what was found is an update of that entry. Times are read from a clock that is an
  argument, and so is the random token of an enrollment.
\<close>

fun update_first :: "('a \<Rightarrow> bool) \<Rightarrow> ('a \<Rightarrow> 'a) \<Rightarrow> 'a list \<Rightarrow> 'a list" where
  "update_first p f [] = []"
| "update_first p f (x # xs) = (if p x then f x # xs else x # update_first p f xs)"

section \<open>The document\<close>

record toolchain_credential =
  kc_class :: string
  kc_credential_id :: string
  kc_secret_hash :: string
  kc_scope :: "string option"
  kc_principal :: "string option"
  kc_runner_name :: "string option"
  kc_builder_identity :: "string option"

record lane_runner =
  rn_name :: string
  rn_repo :: string
  rn_forge :: string
  rn_labels :: "string list"
  rn_host_alias :: string
  rn_address :: "string option"
  rn_enrolled_at :: string
  rn_heartbeat_token_hash :: "string option"
  rn_last_heartbeat :: "string option"
  rn_last_job_seen :: "string option"
  rn_disk_ok :: "bool option"
  rn_podman_ok :: "bool option"
  rn_enrolled :: bool
  rn_image_digest :: "string option"
  rn_image_reason :: "string option"
  rn_image_pin_divergence :: "string option"
  rn_scan_state :: pyval
  rn_lane_image_ref :: "string option"
  rn_lane_image_digest :: "string option"
  rn_toolchain_profile_id :: "string option"
  rn_last_gap_report_at :: "string option"
  rn_coverage :: "string option"
  rn_toolchain_rejections :: "(string \<times> int) list"

record hub_data =
  hb_salt :: string
  hb_enrollment_tokens :: "string list"
  hb_runners :: "lane_runner list"
  hb_requests :: "tool_request list"
  hb_credentials :: "toolchain_credential list"
  hb_consumed :: "pyval list"

text \<open>A registry file that does not exist yet.\<close>

definition fresh_hub :: "string \<Rightarrow> hub_data" where
  "fresh_hub salt = \<lparr>hb_salt = salt, hb_enrollment_tokens = [], hb_runners = [], hb_requests = [],
     hb_credentials = [], hb_consumed = []\<rparr>"

section \<open>Credentials\<close>

definition hash_secret :: "hub_data \<Rightarrow> string \<Rightarrow> string" where
  "hash_secret d secret = ''sha256:'' @ hexdigest (utf8 (hb_salt d @ secret))"

definition verify_secret :: "hub_data \<Rightarrow> string \<Rightarrow> string option \<Rightarrow> bool" where
  "verify_secret d presented stored \<longleftrightarrow> presented \<noteq> [] \<and> given stored \<and> Some (hash_secret d presented) = stored"

definition is_nonce_consumed :: "hub_data \<Rightarrow> pyval \<Rightarrow> bool" where
  "is_nonce_consumed d n \<longleftrightarrow> list_ex (\<lambda>x. py_same x n) (hb_consumed d)"

definition consume_nonce :: "pyval \<Rightarrow> hub_data \<Rightarrow> hub_data" where
  "consume_nonce n d = (if is_nonce_consumed d n then d else d\<lparr>hb_consumed := hb_consumed d @ [n]\<rparr>)"

definition add_credential ::
  "string \<Rightarrow> string \<Rightarrow> string \<Rightarrow> string option \<Rightarrow> string option \<Rightarrow> string option \<Rightarrow> string option \<Rightarrow> hub_data
   \<Rightarrow> hub_data" where
  "add_credential klass secret cid scope who runner builder d =
     (if list_ex (\<lambda>c. kc_credential_id c = cid) (hb_credentials d) then d
      else d\<lparr>hb_credentials := hb_credentials d @
        [\<lparr>kc_class = klass, kc_credential_id = cid, kc_secret_hash = hash_secret d secret, kc_scope = scope,
          kc_principal = who, kc_runner_name = runner, kc_builder_identity = builder\<rparr>]\<rparr>)"

text \<open>What the code reads of the dictionary \<open>classify\<close> returns beside the class.\<close>

record credential_info =
  ci_scope :: "string option"
  ci_principal :: "string option"
  ci_credential_id :: "string option"
  ci_builder_identity :: "string option"

definition no_info :: credential_info where
  "no_info = \<lparr>ci_scope = None, ci_principal = None, ci_credential_id = None, ci_builder_identity = None\<rparr>"

definition match_stored :: "hub_data \<Rightarrow> string \<Rightarrow> toolchain_credential option" where
  "match_stored d presented =
     List.find (\<lambda>c. verify_secret d presented (Some (kc_secret_hash c))) (hb_credentials d)"

definition token_matches :: "string \<Rightarrow> string \<Rightarrow> bool" where
  "token_matches presented expected \<longleftrightarrow> presented \<noteq> [] \<and> presented = expected"

definition classify_secret :: "hub_data \<Rightarrow> string option \<Rightarrow> string option \<times> credential_info" where
  "classify_secret d presented =
     (case presented of
        None \<Rightarrow> (None, no_info)
      | Some [] \<Rightarrow> (None, no_info)
      | Some p \<Rightarrow>
          case match_stored d p of
            Some c \<Rightarrow> (Some (kc_class c),
              \<lparr>ci_scope = kc_scope c, ci_principal = kc_principal c, ci_credential_id = Some (kc_credential_id c),
               ci_builder_identity = kc_builder_identity c\<rparr>)
          | None \<Rightarrow>
              case List.find (\<lambda>r. rn_enrolled r \<and> verify_secret d p (rn_heartbeat_token_hash r)) (hb_runners d) of
                Some r \<Rightarrow> (Some ''heartbeat'', no_info\<lparr>ci_credential_id := Some (rn_name r)\<rparr>)
              | None \<Rightarrow>
                  if list_ex (token_matches p) (hb_enrollment_tokens d) then (Some ''enrollment'', no_info)
                  else (Some ''unknown'', no_info))"

section \<open>Runners\<close>

definition find_runner :: "hub_data \<Rightarrow> string \<Rightarrow> lane_runner option" where
  "find_runner d name = List.find (\<lambda>r. rn_name r = name) (hb_runners d)"

definition set_runner :: "string \<Rightarrow> (lane_runner \<Rightarrow> lane_runner) \<Rightarrow> hub_data \<Rightarrow> hub_data" where
  "set_runner name f d = d\<lparr>hb_runners := update_first (\<lambda>r. rn_name r = name) f (hb_runners d)\<rparr>"

definition add_enrollment_token :: "string \<Rightarrow> hub_data \<Rightarrow> hub_data" where
  "add_enrollment_token t d =
     (if t \<in> set (hb_enrollment_tokens d) then d else d\<lparr>hb_enrollment_tokens := hb_enrollment_tokens d @ [t]\<rparr>)"

definition prune_enrollment_tokens :: "(string \<Rightarrow> bool) \<Rightarrow> hub_data \<Rightarrow> hub_data \<times> nat" where
  "prune_enrollment_tokens keep d =
     (let survivors = filter keep (hb_enrollment_tokens d) in
      (d\<lparr>hb_enrollment_tokens := survivors\<rparr>, length (hb_enrollment_tokens d) - length survivors))"

definition consume_enrollment_token :: "string \<Rightarrow> hub_data \<Rightarrow> hub_data option" where
  "consume_enrollment_token presented d =
     (case List.find (token_matches presented) (hb_enrollment_tokens d) of
        None \<Rightarrow> None
      | Some c \<Rightarrow> Some (d\<lparr>hb_enrollment_tokens := remove1 c (hb_enrollment_tokens d)\<rparr>))"

definition new_runner ::
  "hub_data \<Rightarrow> string \<Rightarrow> string \<Rightarrow> string list \<Rightarrow> string \<Rightarrow> string option \<Rightarrow> string \<Rightarrow> string \<Rightarrow> string \<Rightarrow> lane_runner" where
  "new_runner d name repo labels alias address forge token now =
     \<lparr>rn_name = name, rn_repo = repo, rn_forge = forge, rn_labels = labels, rn_host_alias = alias,
      rn_address = address, rn_enrolled_at = now, rn_heartbeat_token_hash = Some (hash_secret d token),
      rn_last_heartbeat = None, rn_last_job_seen = None, rn_disk_ok = None, rn_podman_ok = None,
      rn_enrolled = True, rn_image_digest = None, rn_image_reason = None, rn_image_pin_divergence = None,
      rn_scan_state = PNone, rn_lane_image_ref = None, rn_lane_image_digest = None,
      rn_toolchain_profile_id = None, rn_last_gap_report_at = None, rn_coverage = None,
      rn_toolchain_rejections = []\<rparr>"

datatype enrolled = Already_Enrolled | Token_Refused | Enrolled string

text \<open>The locked section of \<open>/enroll\<close>: the name first, then the one-time token, then the record.\<close>

definition do_enroll ::
  "string \<Rightarrow> string \<Rightarrow> string \<Rightarrow> string list \<Rightarrow> string \<Rightarrow> string option \<Rightarrow> string \<Rightarrow> string \<Rightarrow> string \<Rightarrow> hub_data
   \<Rightarrow> hub_data \<times> enrolled" where
  "do_enroll presented name repo labels alias address forge token now d =
     (if find_runner d name \<noteq> None then (d, Already_Enrolled)
      else case consume_enrollment_token presented d of
        None \<Rightarrow> (d, Token_Refused)
      | Some d1 \<Rightarrow>
          (d1\<lparr>hb_runners := hb_runners d1 @ [new_runner d1 name repo labels alias address forge token now]\<rparr>,
           Enrolled token))"

definition verify_heartbeat_token :: "hub_data \<Rightarrow> string \<Rightarrow> string \<Rightarrow> bool" where
  "verify_heartbeat_token d name presented \<longleftrightarrow>
     (case find_runner d name of
        None \<Rightarrow> False
      | Some r \<Rightarrow> rn_enrolled r \<and> verify_secret d presented (rn_heartbeat_token_hash r))"

definition revoke_runner :: "string \<Rightarrow> hub_data \<Rightarrow> hub_data" where
  "revoke_runner name d = set_runner name (\<lambda>r. r\<lparr>rn_enrolled := False, rn_heartbeat_token_hash := None\<rparr>) d"

definition do_revoke :: "string \<Rightarrow> string \<Rightarrow> hub_data \<Rightarrow> hub_data \<times> bool" where
  "do_revoke name presented d =
     (if verify_heartbeat_token d name presented then (revoke_runner name d, True) else (d, False))"

section \<open>Gap reports\<close>

definition request_number :: "string \<Rightarrow> nat" where
  "request_number ident =
     (if take 4 ident = ''tcr-'' then
        (let digits = (case dropWhile (\<lambda>c. c = CHR ''0'') (drop 4 ident) of [] \<Rightarrow> ''0'' | ds \<Rightarrow> ds) in
         if list_all is_digit digits then num_of digits else 0)
      else 0)"

definition pad4 :: "nat \<Rightarrow> string" where
  "pad4 n = (if n < 10000 then zpad 4 n else nat_str n)"

definition next_request_id :: "tool_request list \<Rightarrow> string" where
  "next_request_id rows = ''tcr-'' @ pad4 (fold (\<lambda>r n. max n (request_number (tq_id r))) rows 0 + 1)"

definition new_request_row :: "string \<Rightarrow> string \<Rightarrow> string option \<Rightarrow> string \<Rightarrow> string \<Rightarrow> tool_request" where
  "new_request_row lane tool pid now ident =
     \<lparr>tq_id = ident, tq_lane = lane, tq_tool = tool, tq_required_profile = pid, tq_state = ''open'', tq_version = 1,
      tq_observed_at = now, tq_last_seen = now, tq_last_reported_at = now, tq_actor = PNone, tq_principal = PNone,
      tq_credential_id = None, tq_decided_at = None, tq_decision_note = None, tq_nonces = [], tq_build_id = None,
      tq_builder_identity = None, tq_lane_image_digest = None, tq_fulfilled_at = None, tq_suppression_until = None,
      tq_suppressed_reports = 0, tq_awaiting_cleared = None,
      tq_history = [\<lparr>au_seq = 0, au_at = now, au_actor = PNone, au_principal = PNone, au_credential_id = None,
        au_event = ''gap-reported'', au_from = None, au_to = Some ''open'', au_version_before = None,
        au_version_after = Some 1, au_note = None\<rparr>]\<rparr>"

definition same_request :: "string \<Rightarrow> string \<Rightarrow> tool_request \<Rightarrow> bool" where
  "same_request lane tool r \<longleftrightarrow> tq_lane r = lane \<and> tq_tool r = tool"

definition seen_again :: "string \<Rightarrow> tool_request \<Rightarrow> tool_request" where
  "seen_again now r = r\<lparr>tq_last_seen := now, tq_last_reported_at := now\<rparr>"

definition record_tool :: "string \<Rightarrow> string option \<Rightarrow> string \<Rightarrow> string \<Rightarrow> tool_request list \<Rightarrow> tool_request list" where
  "record_tool lane pid now tool rows =
     (if list_ex (same_request lane tool) rows
      then update_first (same_request lane tool) (seen_again now) rows
      else rows @ [new_request_row lane tool pid now (next_request_id rows)])"

text \<open>\<open>note_rejection\<close> takes the code and nothing of what was submitted.\<close>

fun bump :: "string \<Rightarrow> (string \<times> int) list \<Rightarrow> (string \<times> int) list" where
  "bump reason [] = [(reason, 1)]"
| "bump reason ((c, n) # cs) = (if c = reason then (c, n + 1) # cs else (c, n) # bump reason cs)"

definition note_rejection :: "string \<Rightarrow> lane_runner \<Rightarrow> lane_runner" where
  "note_rejection reason r = r\<lparr>rn_toolchain_rejections := bump reason (rn_toolchain_rejections r)\<rparr>"

text \<open>The number of rows touched, or the code of the refusal.\<close>

definition record_gap_report ::
  "string \<Rightarrow> pyval \<Rightarrow> string option \<Rightarrow> string \<Rightarrow> hub_data \<Rightarrow> hub_data \<times> (string + nat)" where
  "record_gap_report name submitted pid now d =
     (case find_runner d name of
        None \<Rightarrow> (d, Inl ''unknown_runner'')
      | Some runner \<Rightarrow>
          case validate_missing_tools submitted of
            Inl reason \<Rightarrow> (set_runner name (note_rejection reason) d, Inl reason)
          | Inr tools \<Rightarrow>
              if \<not> is_known_profile pid
              then (set_runner name (note_rejection ''toolchain_profile_unknown'') d, Inl ''toolchain_profile_unknown'')
              else (d\<lparr>hb_requests := fold (record_tool (rn_name runner) pid now) (dedupe tools) (hb_requests d)\<rparr>,
                    Inr (length (dedupe tools))))"

definition note_gap_coverage :: "string \<Rightarrow> bool option \<Rightarrow> string \<Rightarrow> hub_data \<Rightarrow> hub_data" where
  "note_gap_coverage name complete now d =
     set_runner name (\<lambda>r. r\<lparr>rn_coverage := Some (if complete \<noteq> Some False then ''reported'' else ''probe-failed''),
       rn_last_gap_report_at := Some now\<rparr>) d"

definition set_lane_profile ::
  "string \<Rightarrow> string option \<Rightarrow> string option \<Rightarrow> string option \<Rightarrow> hub_data \<Rightarrow> hub_data \<times> bool" where
  "set_lane_profile name pid image_ref image_digest d =
     (if find_runner d name = None \<or> \<not> is_known_profile pid then (d, False)
      else (set_runner name (\<lambda>r. r\<lparr>rn_toolchain_profile_id := pid,
              rn_lane_image_ref := (if image_ref = None then rn_lane_image_ref r else image_ref),
              rn_lane_image_digest := (if image_digest = None then rn_lane_image_digest r else image_digest)\<rparr>) d, True))"

section \<open>Heartbeats\<close>

text \<open>
  What a heartbeat carries. For the fields with three states \<^const>\<open>None\<close> is \<open>UNREPORTED\<close> and
  \<^term>\<open>Some None\<close> an explicit null.
\<close>

record heartbeat_body =
  hm_last_job_seen :: "string option"
  hm_disk_ok :: "bool option"
  hm_podman_ok :: "bool option"
  hm_image_digest :: "string option option"
  hm_image_reason :: "string option option"
  hm_image_pin_divergence :: "string option option"
  hm_scan_state :: "pyval option"
  hm_missing_tools :: "pyval option"
  hm_probe_complete :: "bool option"
  hm_address :: "string option"
  hm_lane_image_digest :: "string option option"

definition news :: "'a option \<Rightarrow> 'a option \<Rightarrow> 'a option" where
  "news new old = (if new = None then old else new)"

definition reported_or :: "'a option \<Rightarrow> 'a \<Rightarrow> 'a" where
  "reported_or new old = (case new of None \<Rightarrow> old | Some v \<Rightarrow> v)"

definition take_health :: "heartbeat_body \<Rightarrow> string \<Rightarrow> lane_runner \<Rightarrow> lane_runner" where
  "take_health b now r = r\<lparr>rn_last_heartbeat := Some now,
     rn_last_job_seen := news (hm_last_job_seen b) (rn_last_job_seen r),
     rn_disk_ok := news (hm_disk_ok b) (rn_disk_ok r), rn_podman_ok := news (hm_podman_ok b) (rn_podman_ok r),
     rn_image_digest := reported_or (hm_image_digest b) (rn_image_digest r),
     rn_image_reason := reported_or (hm_image_reason b) (rn_image_reason r),
     rn_image_pin_divergence := reported_or (hm_image_pin_divergence b) (rn_image_pin_divergence r),
     rn_scan_state := reported_or (hm_scan_state b) (rn_scan_state r)\<rparr>"

text \<open>\<open>accepted_gap_list\<close>: an accepted list of strings, or nothing to believe.\<close>

definition accepted_gap_list :: "pyval \<Rightarrow> string option \<Rightarrow> string list option" where
  "accepted_gap_list missing rejection =
     (if rejection \<noteq> None then None
      else case missing of PList vs \<Rightarrow> Some (concat (map (\<lambda>v. case v of PStr s \<Rightarrow> [s] | _ \<Rightarrow> []) vs)) | _ \<Rightarrow> None)"

text \<open>An empty digest is dropped: it neither sets nor clears the stored one.\<close>

definition lane_digest :: "string option option \<Rightarrow> lane_runner \<Rightarrow> lane_runner" where
  "lane_digest reported r =
     (case reported of
        None \<Rightarrow> r
      | Some None \<Rightarrow> r\<lparr>rn_lane_image_digest := None\<rparr>
      | Some (Some s) \<Rightarrow> if s = [] then r else r\<lparr>rn_lane_image_digest := Some s\<rparr>)"

definition note_lane_evidence ::
  "string \<Rightarrow> string option option \<Rightarrow> string list option \<Rightarrow> string \<Rightarrow> bool option \<Rightarrow> hub_data \<Rightarrow> hub_data \<times> nat" where
  "note_lane_evidence name digest missing now complete d =
     (let d1 = set_runner name (lane_digest digest) d;
          reported = Option.bind (find_runner d1 name) rn_lane_image_digest;
          rows = map (evidence_row name reported missing complete now) (hb_requests d1) in
      (d1\<lparr>hb_requests := map fst rows\<rparr>, sum_list (map snd rows)))"

record gap_outcome =
  go_recorded :: "nat option"
  go_rejection :: "string option"
  go_required_tools :: "string list option"

text \<open>\<open>clock i\<close> is the \<open>i\<close>-th reading of the wall clock during the call.\<close>

definition gap_stage ::
  "string \<Rightarrow> heartbeat_body \<Rightarrow> (nat \<Rightarrow> string) \<Rightarrow> hub_data \<Rightarrow> hub_data \<times> nat option \<times> string option \<times> string list option" where
  "gap_stage name b clock d =
     (case hm_missing_tools b of
        None \<Rightarrow> (d, None, None, None)
      | Some submitted \<Rightarrow>
          (let d1 = note_gap_coverage name (hm_probe_complete b) (clock 1) d;
               pid = Option.bind (find_runner d1 name) rn_toolchain_profile_id in
           case record_gap_report name submitted pid (clock 2) d1 of
             (d2, Inl reason) \<Rightarrow> (d2, Some 0, Some reason, accepted_gap_list submitted (Some reason))
           | (d2, Inr n) \<Rightarrow> (d2, Some n, None, accepted_gap_list submitted None)))"

definition heartbeat ::
  "string \<Rightarrow> heartbeat_body \<Rightarrow> (nat \<Rightarrow> string) \<Rightarrow> hub_data \<Rightarrow> hub_data \<times> gap_outcome option" where
  "heartbeat name b clock d =
     (case find_runner d name of
        None \<Rightarrow> (d, None)
      | Some runner \<Rightarrow>
          if \<not> rn_enrolled runner then (d, None)
          else
            case gap_stage name b clock (set_runner name (take_health b (clock 0)) d) of
              (d1, recorded, rejection, accepted) \<Rightarrow>
                (let required = required_tools (Option.bind (find_runner d1 name) rn_toolchain_profile_id);
                     d2 = fst (note_lane_evidence name (hm_lane_image_digest b) accepted (clock 3)
                                 (hm_probe_complete b) d1) in
                 (set_runner name (\<lambda>r. r\<lparr>rn_address := news (hm_address b) (rn_address r)\<rparr>) d2,
                  Some \<lparr>go_recorded = recorded, go_rejection = rejection, go_required_tools = required\<rparr>)))"

definition do_heartbeat ::
  "string \<Rightarrow> string \<Rightarrow> heartbeat_body \<Rightarrow> (nat \<Rightarrow> string) \<Rightarrow> hub_data \<Rightarrow> hub_data \<times> gap_outcome option" where
  "do_heartbeat name presented b clock d =
     (if verify_heartbeat_token d name presented then heartbeat name b clock d else (d, None))"

section \<open>Decisions and reports on the document\<close>

definition find_request :: "hub_data \<Rightarrow> string \<Rightarrow> tool_request option" where
  "find_request d ident = List.find (\<lambda>r. tq_id r = ident) (hb_requests d)"

definition set_request :: "string \<Rightarrow> (tool_request \<Rightarrow> tool_request) \<Rightarrow> hub_data \<Rightarrow> hub_data" where
  "set_request ident f d = d\<lparr>hb_requests := update_first (\<lambda>r. tq_id r = ident) f (hb_requests d)\<rparr>"

definition remember_nonce :: "pyval \<Rightarrow> tool_request \<Rightarrow> tool_request" where
  "remember_nonce n r = (if list_ex (\<lambda>x. py_same x n) (tq_nonces r) then r else r\<lparr>tq_nonces := tq_nonces r @ [n]\<rparr>)"

definition decide_request :: "int \<Rightarrow> string \<Rightarrow> decision \<Rightarrow> hub_data \<Rightarrow> hub_data \<times> engine_result res" where
  "decide_request clock ident dc d =
     (case find_request d ident of
        None \<Rightarrow> (d, Inr (result_of 404 (Some ''request_not_found'')))
      | Some r \<Rightarrow>
          case decide clock (is_nonce_consumed d) r dc of
            (r1, Inl e) \<Rightarrow> (set_request ident (\<lambda>_. r1) d, Inl e)
          | (r1, Inr res) \<Rightarrow>
              (let d1 = (if er_status res = 200 \<and> \<not> er_idempotent res \<and> de_nonce dc \<noteq> PNone
                         then consume_nonce (de_nonce dc) d else d);
                   r2 = (if er_status res = 200 \<and> de_nonce dc \<noteq> PNone then remember_nonce (de_nonce dc) r1 else r1) in
               (set_request ident (\<lambda>_. r2) d1, Inr res)))"

definition report_build :: "string \<Rightarrow> build_report \<Rightarrow> hub_data \<Rightarrow> hub_data \<times> engine_result" where
  "report_build ident b d =
     (if br_class b = None then (d, result_of 401 (Some ''unknown_credential''))
      else case find_request d ident of
        None \<Rightarrow> (d, result_of 404 (Some ''request_not_found''))
      | Some r \<Rightarrow>
          case report_build_row r b of (r1, res) \<Rightarrow> (set_request ident (\<lambda>_. r1) d, res))"

end
