(* ===== verification/Toolchain_Routes.thy ===== *)
theory Toolchain_Routes
  imports Toolchain_Registry
begin

text \<open>
  The two routes that move a request (\<open>hub/toolchain_api.py\<close>) and the calls the hub serves, one at a
  time under its lock (\<open>with_registry\<close> of \<open>hub/server.py\<close>). A body is any JSON value; an answer is the
  HTTP status with the payload, or the exception that leaves the route.
\<close>

section \<open>What a body says\<close>

record decide_args =
  da_request_id :: string
  da_action :: string
  da_credential :: pyval
  da_actor :: pyval
  da_principal :: pyval
  da_timestamp :: pyval
  da_nonce :: pyval
  da_expected_version :: pyval
  da_note :: "string option"

definition text_of :: "pyval \<Rightarrow> string option" where
  "text_of v = (case v of PStr s \<Rightarrow> Some s | _ \<Rightarrow> None)"

definition is_text :: "pyval \<Rightarrow> bool" where
  "is_text v \<longleftrightarrow> (case v of PStr s \<Rightarrow> True | _ \<Rightarrow> False)"

definition is_integer :: "pyval \<Rightarrow> bool" where
  "is_integer v \<longleftrightarrow> (case v of PInt i \<Rightarrow> True | PBool b \<Rightarrow> True | _ \<Rightarrow> False)"

text \<open>The checks of \<open>handle_decide\<close> before the credential is looked at; a refusal carries the detail.\<close>

definition read_decide :: "pyval \<Rightarrow> string + decide_args" where
  "read_decide body =
     (case body of
        PDict b \<Rightarrow>
          if \<not> given (text_of (py_get b ''request_id'')) then Inl ''request_id required''
          else if py_get b ''action'' \<noteq> PStr ''approve'' \<and> py_get b ''action'' \<noteq> PStr ''deny''
          then Inl (''action must be '' @ py_repr ''approve'' @ '' or '' @ py_repr ''deny'')
          else if py_get b ''note'' \<noteq> PNone \<and> \<not> is_text (py_get b ''note'')
          then Inl ''note must be a string or null''
          else if py_get b ''expected_version'' \<noteq> PNone \<and> \<not> is_integer (py_get b ''expected_version'')
          then Inl ''expected_version must be an integer or null''
          else Inr \<lparr>da_request_id = the (text_of (py_get b ''request_id'')),
                 da_action = the (text_of (py_get b ''action'')), da_credential = py_get b ''credential'',
                 da_actor = py_get b ''actor'', da_principal = py_get b ''principal'',
                 da_timestamp = py_get b ''timestamp'', da_nonce = py_get b ''nonce'',
                 da_expected_version = py_get b ''expected_version'', da_note = text_of (py_get b ''note'')\<rparr>
      | _ \<Rightarrow> Inl ''json object required'')"

record report_args =
  ra_request_id :: string
  ra_credential :: pyval
  ra_profile_id :: "string option"
  ra_build_id :: "string option"
  ra_digest :: "string option"
  ra_note :: "string option"
  ra_expected_version :: pyval
  ra_timestamp :: pyval

definition text_or_null :: "pyval \<Rightarrow> bool" where
  "text_or_null v \<longleftrightarrow> v = PNone \<or> is_text v"

definition read_report :: "pyval \<Rightarrow> string + report_args" where
  "read_report body =
     (case body of
        PDict b \<Rightarrow>
          if \<not> given (text_of (py_get b ''request_id'')) then Inl ''request_id required''
          else if map_of b ''digest'' = None then Inl ''digest required (null states a failed build)''
          else if \<not> text_or_null (py_get b ''digest'') then Inl ''digest must be a string or null''
          else if \<not> text_or_null (py_get b ''profile_id'') then Inl ''profile_id must be a string or null''
          else if \<not> text_or_null (py_get b ''build_id'') then Inl ''build_id must be a string or null''
          else if \<not> text_or_null (py_get b ''note'') then Inl ''note must be a string or null''
          else if py_get b ''expected_version'' \<noteq> PNone \<and> \<not> is_integer (py_get b ''expected_version'')
          then Inl ''expected_version must be an integer or null''
          else Inr \<lparr>ra_request_id = the (text_of (py_get b ''request_id'')), ra_credential = py_get b ''credential'',
                 ra_profile_id = text_of (py_get b ''profile_id''), ra_build_id = text_of (py_get b ''build_id''),
                 ra_digest = text_of (py_get b ''digest''), ra_note = text_of (py_get b ''note''),
                 ra_expected_version = py_get b ''expected_version'', ra_timestamp = py_get b ''timestamp''\<rparr>
      | _ \<Rightarrow> Inl ''json object required'')"

text \<open>
  \<open>classify\<close> on what the body holds. A falsy value was not presented. A value that is no string raises
  at the first secret it is compared with: the salt cannot be put before it, and it has no \<open>encode\<close>.
\<close>

definition classify_any :: "hub_data \<Rightarrow> pyval \<Rightarrow> (string option \<times> credential_info) res" where
  "classify_any d presented =
     (if \<not> truthy presented then Inr (None, no_info)
      else case presented of
        PStr s \<Rightarrow> Inr (classify_secret d (Some s))
      | _ \<Rightarrow>
          if hb_credentials d \<noteq> []
             \<or> list_ex (\<lambda>r. rn_enrolled r \<and> given (rn_heartbeat_token_hash r)) (hb_runners d)
          then raise PyTypeError ''can only concatenate str to str''
          else if hb_enrollment_tokens d \<noteq> [] then raise PyAttributeError ''encode''
          else Inr (Some ''unknown'', no_info))"

definition body_stamp :: "string \<Rightarrow> pyval \<Rightarrow> string" where
  "body_stamp clock v = (if given (text_of v) then the (text_of v) else clock)"

text \<open>The class and its scope come from the presented secret, never from the body.\<close>

definition decision_of :: "string \<Rightarrow> decide_args \<Rightarrow> string option \<times> credential_info \<Rightarrow> decision" where
  "decision_of clock a c =
     \<lparr>de_action = da_action a, de_class = fst c, de_scope = ci_scope (snd c),
      de_credential_id = ci_credential_id (snd c), de_actor = da_actor a,
      de_principal = (if da_principal a = PNone then as_py (ci_principal (snd c)) else da_principal a),
      de_nonce = da_nonce a, de_expected_version = da_expected_version a, de_note = da_note a,
      de_now = body_stamp clock (da_timestamp a)\<rparr>"

definition build_report_of :: "string \<Rightarrow> report_args \<Rightarrow> string option \<times> credential_info \<Rightarrow> build_report" where
  "build_report_of clock a c =
     \<lparr>br_class = fst c, br_credential_id = ci_credential_id (snd c),
      br_builder_identity = ci_builder_identity (snd c), br_profile_id = ra_profile_id a,
      br_build_id = ra_build_id a, br_digest = ra_digest a, br_note = ra_note a,
      br_expected_version = ra_expected_version a, br_now = body_stamp clock (ra_timestamp a)\<rparr>"

section \<open>The routes\<close>

type_synonym answer = "int \<times> (string \<times> pyval) list"

definition bad_request :: "string \<Rightarrow> answer" where
  "bad_request detail =
     (400, [(''ok'', PBool False), (''error'', PStr ''bad_request''), (''detail'', PStr detail)])"

definition key_if :: "bool \<Rightarrow> string \<Rightarrow> pyval \<Rightarrow> (string \<times> pyval) list" where
  "key_if b k v = (if b then [(k, v)] else [])"

definition int_or_none :: "int option \<Rightarrow> pyval" where
  "int_or_none x = (case x of None \<Rightarrow> PNone | Some i \<Rightarrow> PInt i)"

definition decide_payload :: "engine_result \<Rightarrow> answer" where
  "decide_payload e =
     (if er_status e = 404 then (404, [(''ok'', PBool False), (''error'', PStr ''request_not_found'')])
      else (er_status e,
        [(''ok'', PBool (er_status e < 400))]
        @ key_if (given (er_error e)) ''error'' (as_py (er_error e))
        @ key_if (given (er_credential_class e)) ''credential_class'' (as_py (er_credential_class e))
        @ key_if (given (er_state e)) ''state'' (as_py (er_state e))
        @ key_if (er_version e \<noteq> None) ''version'' (int_or_none (er_version e))
        @ key_if (er_idempotent e) ''idempotent'' (PBool True)
        @ key_if (er_idempotent e \<and> given (er_applied_at e)) ''applied_at'' (as_py (er_applied_at e))
        @ key_if (er_current_version e \<noteq> None) ''current_version'' (int_or_none (er_current_version e))))"

definition report_payload :: "engine_result \<Rightarrow> answer" where
  "report_payload e =
     (er_status e,
        [(''ok'', PBool (er_status e < 400))]
        @ key_if (er_error e \<noteq> None) ''error'' (as_py (er_error e))
        @ key_if (er_credential_class e \<noteq> None) ''credential_class'' (as_py (er_credential_class e))
        @ key_if (er_state e \<noteq> None) ''state'' (as_py (er_state e))
        @ key_if (er_current_version e \<noteq> None) ''current_version'' (int_or_none (er_current_version e))
        @ key_if (er_submitted_version e \<noteq> PNone) ''submitted_version'' (er_submitted_version e)
        @ key_if (er_approved_profile e \<noteq> None) ''approved_profile'' (as_py (er_approved_profile e))
        @ key_if (er_fields e \<noteq> []) ''fields'' (PList (map PStr (er_fields e))))"

text \<open>
  \<open>micros\<close> and \<open>clock\<close> are the two readings of the wall clock, one as microseconds and one as printed
  by \<open>_now_iso\<close>.
\<close>

definition handle_decide :: "int \<Rightarrow> string \<Rightarrow> pyval \<Rightarrow> hub_data \<Rightarrow> hub_data \<times> answer res" where
  "handle_decide micros clock body d =
     (case read_decide body of
        Inl detail \<Rightarrow> (d, Inr (bad_request detail))
      | Inr a \<Rightarrow>
          case classify_any d (da_credential a) of
            Inl e \<Rightarrow> (d, Inl e)
          | Inr c \<Rightarrow>
              if note_too_long (da_note a)
              then (d, Inr (400, [(''ok'', PBool False), (''error'', PStr ''decision_note_too_long''),
                                  (''cap'', PInt (int decision_note_max_chars))]))
              else
                case decide_request micros (da_request_id a) (decision_of clock a c) d of
                  (d1, Inl e) \<Rightarrow> (d1, Inl e)
                | (d1, Inr res) \<Rightarrow> (d1, Inr (decide_payload res)))"

definition handle_build_report :: "string \<Rightarrow> pyval \<Rightarrow> hub_data \<Rightarrow> hub_data \<times> answer res" where
  "handle_build_report clock body d =
     (case read_report body of
        Inl detail \<Rightarrow> (d, Inr (bad_request detail))
      | Inr a \<Rightarrow>
          case classify_any d (ra_credential a) of
            Inl e \<Rightarrow> (d, Inl e)
          | Inr c \<Rightarrow>
              case report_build (ra_request_id a) (build_report_of clock a c) d of
                (d1, res) \<Rightarrow> (d1, Inr (report_payload res)))"

section \<open>The calls\<close>

text \<open>
  Every way the document changes while the hub runs: the routes, and the operator's own seams (tokens,
  credentials, a lane's profile, a revocation).
\<close>

datatype hub_call =
    Call_Enroll string string string "string list" string "string option" string string string
  | Call_Heartbeat string string heartbeat_body "nat \<Rightarrow> string"
  | Call_Revoke string string
  | Call_Decide int string pyval
  | Call_Report string pyval
  | Call_Profile string "string option" "string option" "string option"
  | Call_Token string
  | Call_Prune "string \<Rightarrow> bool"
  | Call_Credential string string string "string option" "string option" "string option" "string option"

fun run_call :: "hub_call \<Rightarrow> hub_data \<Rightarrow> hub_data" where
  "run_call (Call_Enroll presented name repo labels alias address forge token now) d =
     fst (do_enroll presented name repo labels alias address forge token now d)"
| "run_call (Call_Heartbeat name presented b clock) d = fst (do_heartbeat name presented b clock d)"
| "run_call (Call_Revoke name presented) d = fst (do_revoke name presented d)"
| "run_call (Call_Decide micros clock body) d = fst (handle_decide micros clock body d)"
| "run_call (Call_Report clock body) d = fst (handle_build_report clock body d)"
| "run_call (Call_Profile name pid image_ref image_digest) d = fst (set_lane_profile name pid image_ref image_digest d)"
| "run_call (Call_Token t) d = add_enrollment_token t d"
| "run_call (Call_Prune keep) d = fst (prune_enrollment_tokens keep d)"
| "run_call (Call_Credential klass secret cid scope who runner builder) d =
     add_credential klass secret cid scope who runner builder d"

inductive hub_step :: "hub_data \<Rightarrow> hub_data \<Rightarrow> bool" where
  call: "hub_step d (run_call c d)"

inductive_cases hub_stepE: "hub_step d d'"

end
