(* ===== verification/Toolchain_Rows.thy ===== *)
theory Toolchain_Rows
  imports Toolchain_Routes
begin

text \<open>
  What an operation may do to one row. \<open>history_leads\<close> reads a row's history as a path through the table
  of transitions, and \<open>row_next\<close> is the change a single operation makes: nothing, an entry that leaves
  the row where it is, or a transition with the credential its guard names. A denial dated so late that
  its suppression window cannot be computed raises after the row has changed and before its entry is
  written: it is the one change that leaves no entry, and \<open>row_next\<close> has it only when its first
  argument allows it. \<open>datable\<close> is what a decision needs to be written down.
\<close>

section \<open>Histories\<close>

definition lane_events :: "string list" where
  "lane_events = [''converge'', ''gap-regressed'']"

definition decide_events :: "string list" where
  "decide_events = [''decide-approve'', ''decide-deny'']"

definition build_events :: "string list" where
  "build_events = [''report-built'', ''build-failed'']"

definition is_move :: "audit_row \<Rightarrow> bool" where
  "is_move a \<longleftrightarrow> au_event a \<in> set (lane_events @ decide_events @ build_events)"

definition stays :: "audit_row \<Rightarrow> nat \<Rightarrow> string \<Rightarrow> int \<Rightarrow> bool" where
  "stays a n s v \<longleftrightarrow> \<not> is_move a \<and> au_seq a = int n \<and> au_from a = Some s \<and> au_to a = Some s
     \<and> au_version_before a = Some v \<and> au_version_after a = Some v"

definition moves_to :: "audit_row \<Rightarrow> nat \<Rightarrow> string \<Rightarrow> string \<Rightarrow> int \<Rightarrow> bool" where
  "moves_to a n s t v \<longleftrightarrow> is_move a \<and> rule_to s (au_event a) = Some t \<and> au_seq a = int n \<and> au_from a = Some s
     \<and> au_to a = Some t \<and> au_version_before a = Some v \<and> au_version_after a = Some (v + 1)"

inductive history_leads :: "audit_row list \<Rightarrow> string \<Rightarrow> int \<Rightarrow> bool" where
  opened: "au_seq a = 0 \<Longrightarrow> au_event a = ''gap-reported'' \<Longrightarrow> history_leads [a] ''open'' 1"
| noted: "history_leads h s v \<Longrightarrow> stays a (length h) s v \<Longrightarrow> history_leads (h @ [a]) s v"
| moved: "history_leads h s v \<Longrightarrow> moves_to a (length h) s t v \<Longrightarrow> history_leads (h @ [a]) t (v + 1)"

lemma rule_to_iff [simp]:
  "rule_to s ''decide-approve'' = Some t \<longleftrightarrow> s = ''open'' \<and> t = ''approved''"
  "rule_to s ''decide-deny'' = Some t \<longleftrightarrow> s = ''open'' \<and> t = ''denied''"
  "rule_to s ''report-built'' = Some t \<longleftrightarrow> s = ''approved'' \<and> t = ''built''"
  "rule_to s ''build-failed'' = Some t \<longleftrightarrow> s \<in> {''approved'', ''built''} \<and> t = ''open''"
  "rule_to s ''converge'' = Some t \<longleftrightarrow> s = ''built'' \<and> t = ''fulfilled''"
  "rule_to s ''gap-regressed'' = Some t \<longleftrightarrow> s = ''fulfilled'' \<and> t = ''open''"
  by (auto simp: rule_to_def tc_transitions_def)

lemma is_move_iff: "is_move a \<longleftrightarrow> au_event a = ''converge'' \<or> au_event a = ''gap-regressed''
    \<or> au_event a = ''decide-approve'' \<or> au_event a = ''decide-deny'' \<or> au_event a = ''report-built''
    \<or> au_event a = ''build-failed''"
  by (auto simp: is_move_def lane_events_def decide_events_def build_events_def)

lemma history_nonempty: "history_leads h s v \<Longrightarrow> h \<noteq> [] \<and> au_seq (last h) = int (length h) - 1"
  by (induction rule: history_leads.induct) (auto simp: stays_def moves_to_def)

lemma history_version: "history_leads h s v \<Longrightarrow> 1 \<le> v"
  by (induction rule: history_leads.induct) auto

text \<open>The moves of a path end in the events that lead to the state it is in.\<close>

definition moves_of :: "audit_row list \<Rightarrow> string list" where
  "moves_of h = map au_event (filter is_move h)"

definition ends_in :: "string list \<Rightarrow> string list \<Rightarrow> bool" where
  "ends_in es h \<longleftrightarrow> take (length es) (rev h) = rev es"

lemma moves_of_simps [simp]: "moves_of [] = []"
  "moves_of (h @ [a]) = moves_of h @ (if is_move a then [au_event a] else [])"
  by (simp_all add: moves_of_def)

definition led_by :: "string \<Rightarrow> string list" where
  "led_by s = (if s = ''approved'' then [''decide-approve'']
     else if s = ''built'' then [''decide-approve'', ''report-built'']
     else if s = ''fulfilled'' then [''decide-approve'', ''report-built'', ''converge''] else [])"

lemma led_by_simps [simp]: "led_by ''open'' = []" "led_by ''denied'' = []" "led_by ''approved'' = [''decide-approve'']"
  "led_by ''built'' = led_by ''approved'' @ [''report-built'']" "led_by ''fulfilled'' = led_by ''built'' @ [''converge'']"
  by (simp_all add: led_by_def)

lemma ends_in_simps [simp]: "ends_in [] h" "ends_in [e] (h @ [e])" "ends_in [c, e] (h @ [e]) = ends_in [c] h"
  "ends_in [b, c, e] (h @ [e]) = ends_in [b, c] h"
  by (simp_all add: ends_in_def)

lemma move_cases:
  assumes "moves_to a n s t v"
  obtains (approve) "au_event a = ''decide-approve''" "s = ''open''" "t = ''approved''"
    | (deny) "au_event a = ''decide-deny''" "s = ''open''" "t = ''denied''"
    | (build) "au_event a = ''report-built''" "s = ''approved''" "t = ''built''"
    | (fail) "au_event a = ''build-failed''" "s = ''approved'' \<or> s = ''built''" "t = ''open''"
    | (converge) "au_event a = ''converge''" "s = ''built''" "t = ''fulfilled''"
    | (regress) "au_event a = ''gap-regressed''" "s = ''fulfilled''" "t = ''open''"
proof -
  have r: "rule_to s (au_event a) = Some t" and "is_move a" using assms by (simp_all only: moves_to_def)
  then consider "au_event a = ''converge''" | "au_event a = ''gap-regressed''" | "au_event a = ''decide-approve''"
    | "au_event a = ''decide-deny''" | "au_event a = ''report-built''" | "au_event a = ''build-failed''"
    unfolding is_move_iff by blast
  then show thesis
  proof cases
    case 1
    with r have "s = ''built'' \<and> t = ''fulfilled''" by (simp only: rule_to_iff)
    then show thesis using 1 converge by blast
  next
    case 2
    with r have "s = ''fulfilled'' \<and> t = ''open''" by (simp only: rule_to_iff)
    then show thesis using 2 regress by blast
  next
    case 3
    with r have "s = ''open'' \<and> t = ''approved''" by (simp only: rule_to_iff)
    then show thesis using 3 approve by blast
  next
    case 4
    with r have "s = ''open'' \<and> t = ''denied''" by (simp only: rule_to_iff)
    then show thesis using 4 deny by blast
  next
    case 5
    with r have "s = ''approved'' \<and> t = ''built''" by (simp only: rule_to_iff)
    then show thesis using 5 build by blast
  next
    case 6
    with r have "s \<in> {''approved'', ''built''} \<and> t = ''open''" by (simp only: rule_to_iff)
    then show thesis using 6 fail by blast
  qed
qed

lemma move_led_by:
  assumes "moves_to a n s t v" and "ends_in (led_by s) (moves_of h)"
  shows "ends_in (led_by t) (moves_of (h @ [a]))"
proof -
  from assms(1) have "is_move a" by (simp only: moves_to_def)
  from assms(1) show ?thesis
    by (cases rule: move_cases) (use assms(2) \<open>is_move a\<close> in simp_all)
qed

section \<open>One operation on one row\<close>

definition operator_credential :: "toolchain_credential list \<Rightarrow> string option \<Rightarrow> bool" where
  "operator_credential cs cid \<longleftrightarrow>
     (\<exists>c\<in>set cs. kc_class c = ''operator'' \<and> kc_scope c = Some decide_scope \<and> cid = Some (kc_credential_id c))"

definition builder_credential :: "toolchain_credential list \<Rightarrow> string option \<Rightarrow> pyval \<Rightarrow> bool" where
  "builder_credential cs cid actor \<longleftrightarrow>
     (\<exists>c\<in>set cs. kc_class c = ''builder'' \<and> cid = Some (kc_credential_id c)
        \<and> given (kc_builder_identity c) \<and> actor = as_py (kc_builder_identity c))"

text \<open>An entry that moves a row names a credential of the class its guard asks for.\<close>

definition entry_backed :: "toolchain_credential list \<Rightarrow> audit_row \<Rightarrow> bool" where
  "entry_backed cs a \<longleftrightarrow>
     (au_event a \<in> set decide_events \<longrightarrow> operator_credential cs (au_credential_id a))
     \<and> (au_event a \<in> set build_events \<longrightarrow> builder_credential cs (au_credential_id a) (au_actor a))"

definition same_identity :: "tool_request \<Rightarrow> tool_request \<Rightarrow> bool" where
  "same_identity r r' \<longleftrightarrow> tq_id r' = tq_id r \<and> tq_lane r' = tq_lane r \<and> tq_tool r' = tq_tool r
     \<and> tq_required_profile r' = tq_required_profile r"

definition row_path :: "tool_request \<Rightarrow> bool" where
  "row_path r \<longleftrightarrow> history_leads (tq_history r) (tq_state r) (tq_version r)"

text \<open>
  What every change keeps of a row's history, an unwritten denial included: the entries are numbered from
  zero without a gap, and the moves end in those that lead to the state the row is in.
\<close>

definition row_kept :: "tool_request \<Rightarrow> bool" where
  "row_kept r \<longleftrightarrow> tq_history r \<noteq> [] \<and> map au_seq (tq_history r) = map int [0..<length (tq_history r)]
     \<and> ends_in (led_by (tq_state r)) (moves_of (tq_history r))"

inductive row_next :: "bool \<Rightarrow> toolchain_credential list \<Rightarrow> tool_request \<Rightarrow> tool_request \<Rightarrow> bool" for lossy cs where
  quiet: "same_identity r r' \<Longrightarrow> tq_history r' = tq_history r \<Longrightarrow> tq_state r' = tq_state r
    \<Longrightarrow> tq_version r' = tq_version r \<Longrightarrow> row_next lossy cs r r'"
| entry: "same_identity r r' \<Longrightarrow> tq_history r' = tq_history r @ [a] \<Longrightarrow> tq_state r' = tq_state r
    \<Longrightarrow> tq_version r' = tq_version r \<Longrightarrow> stays a (length (tq_history r)) (tq_state r) (tq_version r)
    \<Longrightarrow> row_next lossy cs r r'"
| move: "same_identity r r' \<Longrightarrow> tq_history r' = tq_history r @ [a] \<Longrightarrow> tq_version r' = tq_version r + 1
    \<Longrightarrow> moves_to a (length (tq_history r)) (tq_state r) (tq_state r') (tq_version r) \<Longrightarrow> entry_backed cs a
    \<Longrightarrow> row_next lossy cs r r'"
| lost: "lossy \<Longrightarrow> same_identity r r' \<Longrightarrow> tq_history r' = tq_history r \<Longrightarrow> tq_version r' = tq_version r + 1
    \<Longrightarrow> tq_state r = ''open'' \<Longrightarrow> tq_state r' = ''denied'' \<Longrightarrow> row_next lossy cs r r'"

lemma row_next_path: "row_next False cs r r' \<Longrightarrow> row_path r \<Longrightarrow> row_path r'"
  by (induction rule: row_next.induct) (auto simp: row_path_def intro: history_leads.intros)

lemma row_next_kept: "row_next lossy cs r r' \<Longrightarrow> row_kept r \<Longrightarrow> row_kept r'"
proof (induction rule: row_next.induct)
  case (move r r' a)
  then show ?case
    using move_led_by [OF move.hyps(4)] by (simp add: row_kept_def moves_to_def)
qed (auto simp: row_kept_def stays_def)

lemma row_next_backed:
  "row_next lossy cs r r' \<Longrightarrow> \<forall>a\<in>set (tq_history r). entry_backed cs a \<Longrightarrow> \<forall>a\<in>set (tq_history r'). entry_backed cs a"
  by (induction rule: row_next.induct)
    (auto simp: entry_backed_def stays_def is_move_iff decide_events_def build_events_def)

lemma row_next_identity: "row_next lossy cs r r' \<Longrightarrow> same_identity r r'"
  by (induction rule: row_next.induct) simp_all

lemma row_next_grows: "row_next lossy cs r r' \<Longrightarrow> (\<exists>new. tq_history r' = tq_history r @ new) \<and> tq_version r \<le> tq_version r'"
  by (induction rule: row_next.induct) simp_all

lemma same_identity_refl [simp]: "same_identity r r"
  by (simp add: same_identity_def)

lemma row_next_refl [simp]: "row_next lossy cs r r"
  by (rule row_next.quiet) simp_all

lemma audit_record_seq: "row_kept r \<Longrightarrow>
    (if tq_history r = [] then 0 else au_seq (last (tq_history r)) + 1) = int (length (tq_history r))"
proof -
  assume "row_kept r"
  then have "map au_seq (tq_history r) = map int [0..<length (tq_history r)]" and "tq_history r \<noteq> []"
    by (simp_all add: row_kept_def)
  then have "map au_seq (tq_history r) ! (length (tq_history r) - 1) = int (length (tq_history r) - 1)" by simp
  then have "au_seq (last (tq_history r)) = int (length (tq_history r) - 1)"
    using \<open>tq_history r \<noteq> []\<close> by (simp add: last_conv_nth)
  then show ?thesis using \<open>tq_history r \<noteq> []\<close> by (cases "tq_history r") simp_all
qed

section \<open>The decision\<close>

definition decision_backed :: "toolchain_credential list \<Rightarrow> decision \<Rightarrow> bool" where
  "decision_backed cs d \<longleftrightarrow>
     (de_class d = Some ''operator'' \<and> de_scope d = Some decide_scope \<longrightarrow> operator_credential cs (de_credential_id d))"

definition applied_now :: "engine_result res \<Rightarrow> bool" where
  "applied_now x \<longleftrightarrow> (case x of Inl e \<Rightarrow> True | Inr res \<Rightarrow> er_status res = 200 \<and> \<not> er_idempotent res)"

definition refusal_events :: "string list" where
  "refusal_events = [''rejected_credential_class'', ''rejected-conflict'', ''rejected-replay'',
     ''rejected-missing-note'', ''rejected-transition'']"

text \<open>A decision that raises nothing on its way to the entry: a denial needs a window in the calendar.\<close>

definition datable :: "int \<Rightarrow> decision \<Rightarrow> bool" where
  "datable clock d \<longleftrightarrow> de_action d = ''approve''
     \<or> (case suppress_until clock (de_now d) of Inl e \<Rightarrow> False | Inr w \<Rightarrow> True)"

text \<open>What must hold for a decision to be applied.\<close>

definition may_decide :: "(pyval \<Rightarrow> bool) \<Rightarrow> tool_request \<Rightarrow> decision \<Rightarrow> bool" where
  "may_decide consumed r d \<longleftrightarrow> de_class d = Some ''operator'' \<and> de_scope d = Some decide_scope
     \<and> (de_expected_version d = PNone \<or> py_eq (de_expected_version d) (PInt (tq_version r)))
     \<and> truthy (de_actor d) \<and> truthy (de_principal d) \<and> truthy (de_nonce d) \<and> \<not> consumed (de_nonce d)
     \<and> (de_action d \<noteq> ''approve'' \<longrightarrow> given (de_note d)) \<and> tq_state r = ''open''"

definition decide_outcome ::
  "int \<Rightarrow> (pyval \<Rightarrow> bool) \<Rightarrow> tool_request \<Rightarrow> decision \<Rightarrow> tool_request \<times> engine_result res \<Rightarrow> bool" where
  "decide_outcome clock consumed r d x \<longleftrightarrow>
     (\<not> applied_now (snd x)
        \<and> (fst x = r \<or> (\<exists>e n. e \<in> set refusal_events \<and> fst x = refused_decision r d e n)))
     \<or> (may_decide consumed r d
        \<and> x = apply_decision clock r d (if de_action d = ''approve'' then ''approved'' else ''denied''))"

lemma outcome_if: "(b \<Longrightarrow> decide_outcome k c r d x) \<Longrightarrow> (\<not> b \<Longrightarrow> decide_outcome k c r d y)
    \<Longrightarrow> decide_outcome k c r d (if b then x else y)"
  by simp

lemma outcome_option: "(m = None \<Longrightarrow> decide_outcome k c r d x) \<Longrightarrow> (\<And>a. m = Some a \<Longrightarrow> decide_outcome k c r d (f a))
    \<Longrightarrow> decide_outcome k c r d (case m of None \<Rightarrow> x | Some a \<Rightarrow> f a)"
  by (cases m) simp_all

lemma outcome_leaf: "\<not> applied_now y \<Longrightarrow> decide_outcome k c r d (r, y)"
  "\<not> applied_now y \<Longrightarrow> e \<in> set refusal_events \<Longrightarrow> decide_outcome k c r d (refused_decision r d e n, y)"
  by (auto simp: decide_outcome_def)

lemma decide_ends: "decide_outcome clock consumed r d (decide clock consumed r d)"
proof -
  have rule: "rule_to (tq_state r) (decide_event d) = Some to \<Longrightarrow>
      tq_state r = ''open'' \<and> to = (if de_action d = ''approve'' then ''approved'' else ''denied'')" for to
    by (cases "de_action d = ''approve''") (simp_all add: decide_event_def)
  have deny: "decide_event d = ''decide-deny'' \<longleftrightarrow> de_action d \<noteq> ''approve''"
    by (simp add: decide_event_def)
  show ?thesis
    unfolding decide_def
  proof (intro outcome_if outcome_option)
    fix to
    assume "rule_to (tq_state r) (decide_event d) = Some to" and "\<not> de_class d = None"
      and "\<not> (de_class d \<noteq> Some ''operator'' \<or> de_scope d \<noteq> Some decide_scope)"
      and "\<not> (de_expected_version d \<noteq> PNone \<and> \<not> py_eq (de_expected_version d) (PInt (tq_version r)))"
      and "\<not> (\<not> truthy (de_actor d) \<or> \<not> truthy (de_principal d) \<or> \<not> truthy (de_nonce d))"
      and "\<not> consumed (de_nonce d)" and "\<not> (decide_event d = ''decide-deny'' \<and> \<not> given (de_note d))"
    then have "may_decide consumed r d" and "to = (if de_action d = ''approve'' then ''approved'' else ''denied'')"
      using rule [of to] unfolding may_decide_def deny by blast+
    then show "decide_outcome clock consumed r d (apply_decision clock r d to)"
      by (simp add: decide_outcome_def)
  qed (((rule outcome_leaf(1), simp add: applied_now_def result_of_def)
       | (rule outcome_leaf(2), simp add: applied_now_def result_of_def, simp add: refusal_events_def))+)
qed

lemma apply_decision_next:
  assumes "row_kept r" "tq_state r = ''open''" "operator_credential cs (de_credential_id d)" "lossy \<or> datable clock d"
  shows "row_next lossy cs r (fst (apply_decision clock r d (if de_action d = ''approve'' then ''approved'' else ''denied'')))"
proof -
  define to where "to = (if de_action d = ''approve'' then ''approved'' else ''denied'')"
  have event: "rule_to ''open'' (decide_event d) = Some to" "decide_event d \<in> set decide_events"
    by (simp_all add: decide_event_def to_def decide_events_def)
  show ?thesis
  proof (cases "to = ''denied'' \<and> (\<exists>e. suppress_until clock (de_now d) = Inl e)")
    case True
    then show ?thesis
      using assms(2,4) unfolding to_def [symmetric]
      by (auto simp: apply_decision_def Let_def same_identity_def datable_def to_def split: if_splits intro: row_next.lost)
  next
    case False
    then obtain w where w: "(if to = ''denied'' then bindR (suppress_until clock (de_now d)) (\<lambda>t. Inr (Some t))
        else Inr (tq_suppression_until r)) = (Inr w :: string option res)"
      using False by (cases "to = ''denied''"; cases "suppress_until clock (de_now d)") auto
    define a where "a = audit_record r (de_now d) (de_actor d) (de_principal d) (de_credential_id d) (decide_event d)
      (tq_state r) to (tq_version r) (tq_version r + 1) (de_note d)"
    have h: "tq_history (fst (apply_decision clock r d to)) = tq_history r @ [a]"
      "tq_version (fst (apply_decision clock r d to)) = tq_version r + 1"
      "tq_state (fst (apply_decision clock r d to)) = to" "same_identity r (fst (apply_decision clock r d to))"
      using w by (cases "to = ''denied''"; auto simp: apply_decision_def Let_def append_history_def audit_record_def
          a_def same_identity_def bindR_Inr_iff)+
    have "moves_to a (length (tq_history r)) (tq_state r) to (tq_version r)"
      using event assms(2) audit_record_seq [OF assms(1)]
      by (simp add: moves_to_def a_def audit_record_def is_move_def)
    moreover have "entry_backed cs a"
      using event assms(3) by (auto simp: entry_backed_def a_def audit_record_def decide_events_def build_events_def)
    ultimately show ?thesis
      unfolding to_def [symmetric] using h by (intro row_next.move [of _ _ a]) simp_all
  qed
qed

lemma decide_next:
  assumes "row_kept r" and "decision_backed cs d" and "lossy \<or> datable clock d"
  shows "row_next lossy cs r (fst (decide clock consumed r d))"
proof -
  have entry: "row_next lossy cs r (refused_decision r d e n)" if "e \<in> set refusal_events" for e n
    using that audit_record_seq [OF assms(1)]
    by (intro row_next.entry [OF _ _ _ _, of _ _ "audit_record r (de_now d) (de_actor d) (de_principal d)
          (de_credential_id d) e (tq_state r) (tq_state r) (tq_version r) (tq_version r) n"])
       (auto simp: refused_decision_def append_history_def stays_def audit_record_def is_move_iff refusal_events_def
          same_identity_def)
  consider "fst (decide clock consumed r d) = r"
    | e n where "e \<in> set refusal_events" "fst (decide clock consumed r d) = refused_decision r d e n"
    | "may_decide consumed r d" "decide clock consumed r d
        = apply_decision clock r d (if de_action d = ''approve'' then ''approved'' else ''denied'')"
    using decide_ends [of clock consumed r d] unfolding decide_outcome_def by blast
  then show ?thesis
  proof cases
    case 3
    then have "tq_state r = ''open''" "operator_credential cs (de_credential_id d)"
      using assms(2) by (simp_all add: may_decide_def decision_backed_def)
    then show ?thesis unfolding 3(2) by (rule apply_decision_next [OF assms(1) _ _ assms(3)])
  qed (simp_all add: entry)
qed

section \<open>The report\<close>

definition report_backed :: "toolchain_credential list \<Rightarrow> build_report \<Rightarrow> bool" where
  "report_backed cs b \<longleftrightarrow>
     (br_class b = Some ''builder'' \<and> given (br_builder_identity b)
      \<longrightarrow> builder_credential cs (br_credential_id b) (as_py (br_builder_identity b)))"

definition may_report :: "tool_request \<Rightarrow> build_report \<Rightarrow> string \<Rightarrow> bool" where
  "may_report r b to \<longleftrightarrow> br_class b = Some ''builder'' \<and> given (br_builder_identity b)
     \<and> py_eq (br_expected_version b) (PInt (tq_version r))
     \<and> (case br_digest b of
          None \<Rightarrow> given (br_note b) \<and> (tq_state r = ''approved'' \<or> tq_state r = ''built'') \<and> to = ''open''
        | Some digest \<Rightarrow> digest \<noteq> [] \<and> given (br_build_id b) \<and> tq_state r = ''approved'' \<and> to = ''built''
            \<and> given (br_profile_id b) \<and> tq_required_profile r = br_profile_id b)"

definition report_outcome :: "tool_request \<Rightarrow> build_report \<Rightarrow> tool_request \<times> engine_result \<Rightarrow> bool" where
  "report_outcome r b x \<longleftrightarrow>
     (er_status (snd x) \<noteq> 200
        \<and> (fst x = r \<or> (\<exists>e n. e \<in> set refusal_events \<and> fst x = refused_report r b e n)))
     \<or> (\<exists>to. may_report r b to \<and> fst x = apply_report r b to)"

lemma report_if: "(c \<Longrightarrow> report_outcome r b x) \<Longrightarrow> (\<not> c \<Longrightarrow> report_outcome r b y)
    \<Longrightarrow> report_outcome r b (if c then x else y)"
  by simp

lemma report_option: "(m = None \<Longrightarrow> report_outcome r b x) \<Longrightarrow> (\<And>a. m = Some a \<Longrightarrow> report_outcome r b (f a))
    \<Longrightarrow> report_outcome r b (case m of None \<Rightarrow> x | Some a \<Rightarrow> f a)"
  by (cases m) simp_all

lemma report_leaf: "er_status y \<noteq> 200 \<Longrightarrow> report_outcome r b (r, y)"
  "er_status y \<noteq> 200 \<Longrightarrow> e \<in> set refusal_events \<Longrightarrow> report_outcome r b (refused_report r b e n, y)"
  by (auto simp: report_outcome_def)

lemma report_ends: "report_outcome r b (report_build_row r b)"
  unfolding report_build_row_def
proof (intro report_if report_option)
  fix to
  assume a: "\<not> br_class b \<noteq> Some ''builder''" "\<not> \<not> given (br_builder_identity b)"
    "\<not> (br_digest b \<noteq> None \<and> missing_fields b \<noteq> [])" "\<not> (br_digest b = None \<and> \<not> given (br_note b))"
    "\<not> \<not> py_eq (br_expected_version b) (PInt (tq_version r))"
    "rule_to (tq_state r) (build_event b) = Some to"
    "\<not> (br_digest b \<noteq> None \<and> (tq_required_profile r = None \<or> tq_required_profile r \<noteq> br_profile_id b))"
  have "may_report r b to"
  proof (cases "br_digest b")
    case None
    then show ?thesis using a by (auto simp: may_report_def build_event_def)
  next
    case (Some digest)
    then have "rule_to (tq_state r) ''report-built'' = Some to" using a by (simp add: build_event_def)
    then show ?thesis
      using a Some by (auto simp: may_report_def missing_fields_def given_def split: if_splits option.splits)
  qed
  then show "report_outcome r b (apply_report r b to,
      (result_of 200 None)\<lparr>er_state := Some to, er_version := Some (tq_version r + 1)\<rparr>)"
    by (auto simp: report_outcome_def)
qed (((rule report_leaf(1), simp add: result_of_def)
     | (rule report_leaf(2), simp add: result_of_def, simp add: refusal_events_def))+)

lemma apply_report_next:
  assumes "row_kept r" "may_report r b to" "report_backed cs b"
  shows "row_next lossy cs r (apply_report r b to)"
proof -
  define a where "a = report_entry r b (build_event b) (tq_state r) to (tq_version r) (tq_version r + 1) (br_note b)"
  have event: "build_event b \<in> set build_events" by (simp add: build_event_def build_events_def)
  have rule: "rule_to (tq_state r) (build_event b) = Some to"
    using assms(2) by (cases "br_digest b") (auto simp: may_report_def build_event_def)
  have h: "tq_history (apply_report r b to) = tq_history r @ [a]" "tq_state (apply_report r b to) = to"
    "tq_version (apply_report r b to) = tq_version r + 1" "same_identity r (apply_report r b to)"
    by (simp_all add: apply_report_def Let_def append_history_def report_entry_def audit_record_def a_def same_identity_def)
  have "moves_to a (length (tq_history r)) (tq_state r) to (tq_version r)"
    using rule event audit_record_seq [OF assms(1)]
    by (simp add: moves_to_def a_def report_entry_def audit_record_def is_move_def)
  moreover have "entry_backed cs a"
    using assms(2,3) event
    by (auto simp: entry_backed_def a_def report_entry_def audit_record_def decide_events_def build_events_def
        may_report_def report_backed_def)
  ultimately show ?thesis using h by (intro row_next.move [of _ _ a]) simp_all
qed

lemma report_next:
  assumes "row_kept r" and "report_backed cs b"
  shows "row_next lossy cs r (fst (report_build_row r b))"
proof -
  have entry: "row_next lossy cs r (refused_report r b e n)" if "e \<in> set refusal_events" for e n
    using that audit_record_seq [OF assms(1)]
    by (intro row_next.entry [OF _ _ _ _, of _ _ "report_entry r b e (tq_state r) (tq_state r) (tq_version r)
          (tq_version r) n"])
       (auto simp: refused_report_def append_history_def stays_def report_entry_def audit_record_def is_move_iff
          refusal_events_def same_identity_def)
  show ?thesis
    using report_ends [of r b] entry apply_report_next [OF assms(1) _ assms(2)]
    by (auto simp: report_outcome_def)
qed

end
