(* ===== verification/Toolchain_Steps.thy ===== *)
theory Toolchain_Steps
  imports Toolchain_Rows
begin

text \<open>
  The calls of the hub, seen from the rows of requests: each row is changed as \<open>row_next\<close> allows, once
  or more, and new rows are open requests under a number of their own. The invariant \<open>hub_ok\<close> and the
  facts of the audit trail are carried over every call; that each row's history is a path to where the
  row is, \<open>paths_ok\<close>, is carried over every call that is \<open>dated\<close>.
\<close>

section \<open>The lane's evidence on one row\<close>

lemma converge_rule: "rule_to s ''converge'' = Some to \<Longrightarrow> s = ''built'' \<and> to = ''fulfilled''"
  "rule_to s ''gap-regressed'' = Some to \<Longrightarrow> s = ''fulfilled'' \<and> to = ''open''"
  by simp_all

lemma regress_rule: "rule_to ''fulfilled'' ''gap-regressed'' = Some ''open''"
  by simp

lemma converge_next:
  assumes "row_kept r"
  shows "row_next lossy cs r (fst (converge_or_clear r reported missing complete now))"
proof -
  let ?a = "lane_entry r now ''awaiting-digest-cleared'' (tq_state r) (tq_state r) (tq_version r) (tq_version r)
    (Some cleared_note)"
  let ?r1 = "r\<lparr>tq_lane_image_digest := None, tq_awaiting_cleared := reported\<rparr>"
  let ?b = "\<lambda>to. lane_entry r now ''converge'' (tq_state r) to (tq_version r) (tq_version r + 1) None"
  let ?r2 = "\<lambda>to. r\<lparr>tq_state := to, tq_version := tq_version r + 1, tq_fulfilled_at := Some now,
    tq_awaiting_cleared := None\<rparr>"
  have clear: "row_next lossy cs r (append_history ?r1 (lane_entry ?r1 now ''awaiting-digest-cleared'' (tq_state ?r1)
      (tq_state ?r1) (tq_version ?r1) (tq_version ?r1) (Some cleared_note)))"
    using audit_record_seq [OF assms]
    by (intro row_next.entry [where a = ?a])
      (auto simp: append_history_def lane_entry_def audit_record_def stays_def is_move_iff same_identity_def)
  have move: "row_next lossy cs r (append_history (?r2 to) (lane_entry (?r2 to) now ''converge'' (tq_state r) to
      (tq_version r) (tq_version r + 1) None))" if "rule_to (tq_state r) ''converge'' = Some to" for to
    using audit_record_seq [OF assms] that
    by (intro row_next.move [where a = "?b to"])
      (auto simp: append_history_def lane_entry_def audit_record_def moves_to_def is_move_iff same_identity_def
        entry_backed_def decide_events_def build_events_def)
  show ?thesis
    using clear move by (auto simp: converge_or_clear_def Let_def split: option.split)
qed

lemma regress_next:
  assumes "row_kept r"
  shows "row_next lossy cs r (fst (regress_if_reported r missing now))"
proof -
  let ?b = "\<lambda>to. lane_entry r now ''gap-regressed'' (tq_state r) to (tq_version r) (tq_version r + 1) (Some regressed_note)"
  let ?r2 = "\<lambda>to. r\<lparr>tq_state := to, tq_version := tq_version r + 1, tq_fulfilled_at := None, tq_build_id := None,
    tq_lane_image_digest := None\<rparr>"
  have move: "row_next lossy cs r (append_history (?r2 to) (lane_entry (?r2 to) now ''gap-regressed'' (tq_state r) to
      (tq_version r) (tq_version r + 1) (Some regressed_note)))" if "rule_to (tq_state r) ''gap-regressed'' = Some to" for to
    using audit_record_seq [OF assms] that
    by (intro row_next.move [where a = "?b to"])
      (auto simp: append_history_def lane_entry_def audit_record_def moves_to_def is_move_iff same_identity_def
        entry_backed_def decide_events_def build_events_def)
  show ?thesis
    using move by (auto simp: regress_if_reported_def Let_def split: option.split)
qed

lemma evidence_next:
  "row_kept r \<Longrightarrow> row_next lossy cs r (fst (evidence_row lane reported missing complete now r))"
  using converge_next regress_next by (simp add: evidence_row_def)

lemma quiet_next: "row_next lossy cs r (seen_again now r)" "row_next lossy cs r (remember_nonce n r)"
  by (rule row_next.quiet; simp add: seen_again_def remember_nonce_def same_identity_def)+

text \<open>What a lane must have said for its evidence to move a row.\<close>

definition lane_moves :: "string \<Rightarrow> string option \<Rightarrow> string list option \<Rightarrow> bool option \<Rightarrow> tool_request \<Rightarrow> string \<Rightarrow> bool" where
  "lane_moves lane reported missing complete r to \<longleftrightarrow> tq_lane r = lane \<and>
     (if to = ''fulfilled''
      then tq_state r = ''built'' \<and> given (tq_lane_image_digest r) \<and> reported = tq_lane_image_digest r
           \<and> complete \<noteq> Some False \<and> (\<exists>ts. missing = Some ts \<and> tq_tool r \<notin> set ts)
      else to = ''open'' \<and> tq_state r = ''fulfilled'' \<and> (\<exists>ts. missing = Some ts \<and> tq_tool r \<in> set ts))"

lemma evidence_moves:
  assumes "tq_state (fst (evidence_row lane reported missing complete now r)) \<noteq> tq_state r"
  shows "lane_moves lane reported missing complete r (tq_state (fst (evidence_row lane reported missing complete now r)))"
proof (cases "tq_lane r = lane \<and> tq_state r = ''built''")
  case True
  have "tq_state (fst (converge_or_clear r reported missing complete now)) \<noteq> tq_state r \<Longrightarrow>
      lane_moves lane reported missing complete r (tq_state (fst (converge_or_clear r reported missing complete now)))"
    using True by (auto simp: converge_or_clear_def Let_def append_history_def lane_moves_def probe_passes_def
        dest: converge_rule split: option.splits if_splits)
  then show ?thesis using True assms by (simp add: evidence_row_def)
next
  case False
  then have f: "tq_lane r = lane" "tq_state r = ''fulfilled''" "tq_state r \<noteq> ''built''"
    using assms by (auto simp: evidence_row_def split: if_splits)
  have "tq_state (fst (regress_if_reported r missing now)) \<noteq> tq_state r \<Longrightarrow>
      lane_moves lane reported missing complete r (tq_state (fst (regress_if_reported r missing now)))"
    using f by (auto simp: regress_rule regress_if_reported_def Let_def append_history_def lane_moves_def
        dest: converge_rule split: option.splits if_splits)
  then show ?thesis using f assms by (simp add: evidence_row_def)
qed

section \<open>Changes of the document\<close>

definition trail_ok :: "toolchain_credential list \<Rightarrow> tool_request \<Rightarrow> bool" where
  "trail_ok cs r \<longleftrightarrow> row_kept r \<and> (\<forall>a\<in>set (tq_history r). entry_backed cs a) \<and> tq_tool r \<in> set vocabulary"

definition request_key :: "tool_request \<Rightarrow> string \<times> string" where
  "request_key r = (tq_lane r, tq_tool r)"

definition hub_ok :: "hub_data \<Rightarrow> bool" where
  "hub_ok d \<longleftrightarrow> distinct (map tq_id (hb_requests d)) \<and> distinct (map request_key (hb_requests d))
     \<and> (\<forall>r\<in>set (hb_requests d). trail_ok (hb_credentials d) r)"

text \<open>A document that keeps its credentials and its consumed nonces.\<close>

definition keeps_claims :: "hub_data \<Rightarrow> hub_data \<Rightarrow> bool" where
  "keeps_claims d d' \<longleftrightarrow> set (hb_credentials d) \<subseteq> set (hb_credentials d') \<and> set (hb_consumed d) \<subseteq> set (hb_consumed d')"

inductive hub_change :: "bool \<Rightarrow> hub_data \<Rightarrow> hub_data \<Rightarrow> bool" for lossy where
  rows: "list_all2 (row_next lossy (hb_credentials d)) (hb_requests d) (hb_requests d') \<Longrightarrow> keeps_claims d d'
    \<Longrightarrow> hub_change lossy d d'"
| fresh: "hb_requests d' = hb_requests d @ [new_request_row lane tool pid now (next_request_id (hb_requests d))]
    \<Longrightarrow> (lane, tool) \<notin> request_key ` set (hb_requests d) \<Longrightarrow> tool \<in> set vocabulary \<Longrightarrow> keeps_claims d d'
    \<Longrightarrow> hub_change lossy d d'"

lemma update_first_found:
  assumes "List.find p xs = Some x" "P x y" "\<And>z. P z z"
  shows "list_all2 P xs (update_first p (\<lambda>_. y) xs)"
  using assms by (induction xs) (auto split: if_splits intro: list_all2_refl)

lemma update_first_all: "(\<And>z. P z (f z)) \<Longrightarrow> (\<And>z. P z z) \<Longrightarrow> list_all2 P xs (update_first p f xs)"
  by (induction xs) (auto intro: list_all2_refl)

lemma num_of_strip: "num_of (dropWhile (\<lambda>c. c = CHR ''0'') ds) = num_of ds"
  by (induction ds) (simp_all add: num_of_def digit_val_def code_def)

lemma request_number_padded: "request_number (''tcr-'' @ pad4 n) = n"
proof -
  have plain: "list_all is_digit (pad4 n)" "num_of (pad4 n) = n"
    by (simp_all add: pad4_def zpad_digits nat_str_digits num_of_zpad num_of_nat_str)
  obtain ds where ds: "dropWhile (\<lambda>c. c = CHR ''0'') (pad4 n) = ds" by blast
  have digits: "list_all is_digit ds" and num: "num_of ds = n"
    using plain num_of_strip [of "pad4 n"] unfolding ds [symmetric] by (auto simp: list_all_iff dest: set_dropWhileD)
  have zero: "num_of ''0'' = 0" "num_of [] = 0" "list_all is_digit ''0''"
    by (simp_all add: num_of_def digit_val_def code_def is_digit_def)
  have eq: "request_number (''tcr-'' @ pad4 n)
      = (let digits = (case ds of [] \<Rightarrow> ''0'' | c # cs \<Rightarrow> c # cs) in if list_all is_digit digits then num_of digits else 0)"
    by (simp add: request_number_def ds)
  show ?thesis
    unfolding eq using digits num zero by (cases ds) (simp_all add: Let_def)
qed

lemma new_id_fresh: "next_request_id rows \<notin> tq_id ` set rows"
proof -
  have fold_ge: "m \<le> fold (\<lambda>r n. max n (f r)) rs m" "\<forall>r\<in>set rs. f r \<le> fold (\<lambda>r n. max n (f r)) rs m"
    for f :: "tool_request \<Rightarrow> nat" and rs m
  proof (induction rs arbitrary: m)
    case (Cons r rs)
    { case 1 show ?case using Cons.IH(1) [of "max m (f r)"] by simp }
    { case 2 show ?case using Cons.IH [of "max m (f r)"] by auto }
  qed simp_all
  let ?top = "fold (\<lambda>r n. max n (request_number (tq_id r))) rows 0"
  have "request_number (next_request_id rows) = ?top + 1"
    unfolding next_request_id_def by (rule request_number_padded)
  moreover have "\<forall>r\<in>set rows. request_number (tq_id r) \<le> ?top"
    using fold_ge(2) [where f = "\<lambda>r. request_number (tq_id r)" and rs = rows and m = 0] by simp
  ultimately show ?thesis by fastforce
qed

lemma trail_ok_next: "row_next lossy cs r r' \<Longrightarrow> trail_ok cs r \<Longrightarrow> trail_ok cs r'"
  using row_next_kept [of lossy cs r r'] row_next_backed [of lossy cs r r'] row_next_identity [of lossy cs r r']
  by (auto simp: trail_ok_def same_identity_def)

lemma entry_backed_more: "entry_backed cs a \<Longrightarrow> set cs \<subseteq> set cs' \<Longrightarrow> entry_backed cs' a"
  unfolding entry_backed_def operator_credential_def builder_credential_def by blast

lemma trail_ok_more: "trail_ok cs r \<Longrightarrow> set cs \<subseteq> set cs' \<Longrightarrow> trail_ok cs' r"
  using entry_backed_more unfolding trail_ok_def by blast

lemma trail_ok_new: "tool \<in> set vocabulary \<Longrightarrow> trail_ok cs (new_request_row lane tool pid now ident)"
  by (auto simp: trail_ok_def row_kept_def new_request_row_def entry_backed_def decide_events_def build_events_def)

lemma rows_identity: "list_all2 (row_next lossy cs) rows rows' \<Longrightarrow>
    map tq_id rows' = map tq_id rows \<and> map request_key rows' = map request_key rows"
  by (induction rule: list_all2_induct) (auto simp: request_key_def same_identity_def dest: row_next_identity)

lemma hub_change_ok: "hub_change lossy d d' \<Longrightarrow> hub_ok d \<Longrightarrow> hub_ok d'"
proof (induction rule: hub_change.induct)
  case (rows d d')
  have "\<forall>r'\<in>set (hb_requests d'). trail_ok (hb_credentials d) r'"
    using rows.hyps(1) rows.prems trail_ok_next
    by (fastforce simp: hub_ok_def list_all2_conv_all_nth in_set_conv_nth)
  then show ?case
    using rows_identity [OF rows.hyps(1)] rows.prems rows.hyps(2) trail_ok_more
    by (fastforce simp: hub_ok_def keeps_claims_def)
next
  case (fresh d' d lane tool pid now)
  have "\<forall>r\<in>set (hb_requests d). trail_ok (hb_credentials d') r"
    using fresh.prems fresh.hyps(4) trail_ok_more by (fastforce simp: hub_ok_def keeps_claims_def)
  then show ?case
    using fresh.prems fresh.hyps(1-3) new_id_fresh [of "hb_requests d"] trail_ok_new
    by (auto simp: hub_ok_def request_key_def new_request_row_def)
qed

text \<open>The rows whose histories are paths to where the rows are.\<close>

definition paths_ok :: "hub_data \<Rightarrow> bool" where
  "paths_ok d \<longleftrightarrow> (\<forall>r\<in>set (hb_requests d). row_path r)"

lemma hub_change_paths: "hub_change False d d' \<Longrightarrow> paths_ok d \<Longrightarrow> paths_ok d'"
proof (induction rule: hub_change.induct)
  case (rows d d')
  then show ?case
    using row_next_path by (fastforce simp: paths_ok_def list_all2_conv_all_nth in_set_conv_nth)
next
  case (fresh d' d lane tool pid now)
  then show ?case
    by (auto simp: paths_ok_def row_path_def new_request_row_def intro: history_leads.opened)
qed

lemma changes_paths: "(hub_change False)\<^sup>*\<^sup>* d d' \<Longrightarrow> paths_ok d \<Longrightarrow> paths_ok d'"
  by (induction rule: rtranclp_induct) (auto dest: hub_change_paths)

section \<open>The calls as changes\<close>

lemma keeps_claims_refl [simp]: "keeps_claims d d"
  by (simp add: keeps_claims_def)

lemma list_all2_same: "list_all2 (row_next lossy cs) rows rows"
  by (simp add: list_all2_refl)

lemma untouched: "hb_requests d' = hb_requests d \<Longrightarrow> keeps_claims d d' \<Longrightarrow> hub_change lossy d d'"
  by (rule hub_change.rows) (simp_all add: list_all2_same)

lemma rows_change:
  "list_all2 (row_next lossy (hb_credentials d)) (hb_requests d) rows \<Longrightarrow> hub_change lossy d (d\<lparr>hb_requests := rows\<rparr>)"
  by (rule hub_change.rows) (simp_all add: keeps_claims_def)

lemma set_runner_change: "hub_change lossy d (set_runner name f d)"
  by (rule untouched) (simp_all add: set_runner_def keeps_claims_def)

lemma changes_ok: "(hub_change lossy)\<^sup>*\<^sup>* d d' \<Longrightarrow> hub_ok d \<Longrightarrow> hub_ok d'"
  by (induction rule: rtranclp_induct) (auto dest: hub_change_ok)

lemma list_ex_key: "list_ex (same_request lane tool) rows \<longleftrightarrow> (lane, tool) \<in> request_key ` set rows"
  by (auto simp: list_ex_iff same_request_def request_key_def)

lemma record_change:
  assumes "tool \<in> set vocabulary"
  shows "hub_change lossy d (d\<lparr>hb_requests := record_tool lane pid now tool (hb_requests d)\<rparr>)"
proof (cases "list_ex (same_request lane tool) (hb_requests d)")
  case True
  then show ?thesis
    by (auto simp: record_tool_def intro!: rows_change update_first_all quiet_next)
next
  case False
  then show ?thesis
    using assms
    by (intro hub_change.fresh [of _ _ lane tool pid now])
      (simp_all add: record_tool_def list_ex_key [symmetric] keeps_claims_def)
qed

lemma records_change:
  "set tools \<subseteq> set vocabulary \<Longrightarrow>
   (hub_change lossy)\<^sup>*\<^sup>* d (d\<lparr>hb_requests := fold (record_tool lane pid now) tools (hb_requests d)\<rparr>)"
proof (induction tools arbitrary: d)
  case Nil
  then show ?case by simp
next
  case (Cons t ts)
  let ?d = "d\<lparr>hb_requests := record_tool lane pid now t (hb_requests d)\<rparr>"
  have "hub_change lossy d ?d" using Cons.prems by (simp add: record_change)
  moreover have "(hub_change lossy)\<^sup>*\<^sup>* ?d (?d\<lparr>hb_requests := fold (record_tool lane pid now) ts (hb_requests ?d)\<rparr>)"
    using Cons.prems by (intro Cons.IH) simp
  ultimately show ?case by (simp add: converse_rtranclp_into_rtranclp)
qed

lemma gap_report_change: "(hub_change lossy)\<^sup>*\<^sup>* d (fst (record_gap_report name submitted pid now d))"
proof -
  have "(hub_change lossy)\<^sup>*\<^sup>* d (d\<lparr>hb_requests := fold (record_tool lane pid now) (dedupe tools) (hb_requests d)\<rparr>)"
    if "validate_missing_tools submitted = Inr tools" for tools lane
    using that by (intro records_change) (simp add: validate_missing_tools_ok dedupe_ok)
  then show ?thesis
    by (auto simp: record_gap_report_def set_runner_change intro!: r_into_rtranclp split: option.split sum.split)
qed

lemma gap_stage_change: "(hub_change lossy)\<^sup>*\<^sup>* d (fst (gap_stage name b clock d))"
proof (cases "hm_missing_tools b")
  case (Some submitted)
  let ?d = "note_gap_coverage name (hm_probe_complete b) (clock 1) d"
  let ?pid = "Option.bind (find_runner ?d name) rn_toolchain_profile_id"
  have "hub_change lossy d ?d" by (simp add: note_gap_coverage_def set_runner_change)
  moreover have "fst (gap_stage name b clock d) = fst (record_gap_report name submitted ?pid (clock 2) ?d)"
    using Some by (auto simp: gap_stage_def Let_def split: prod.split sum.split)
  ultimately show ?thesis
    using gap_report_change [of lossy ?d name submitted ?pid "clock 2"] by (simp add: converse_rtranclp_into_rtranclp)
qed (simp add: gap_stage_def)

lemma evidence_change:
  assumes "hub_ok d"
  shows "(hub_change lossy)\<^sup>*\<^sup>* d (fst (note_lane_evidence name digest missing now complete d))"
proof -
  let ?d = "set_runner name (lane_digest digest) d"
  let ?reported = "Option.bind (find_runner ?d name) rn_lane_image_digest"
  have d: "hub_change lossy d ?d" by (rule set_runner_change)
  have "\<forall>r\<in>set (hb_requests ?d). row_kept r"
    using hub_change_ok [OF d assms] by (auto simp: hub_ok_def trail_ok_def)
  then have "list_all2 (row_next lossy (hb_credentials ?d)) (hb_requests ?d)
      (map (fst \<circ> evidence_row name ?reported missing complete now) (hb_requests ?d))"
    by (auto simp: list_all2_map2 intro!: list.rel_refl_strong evidence_next)
  from rows_change [OF this] d show ?thesis
    by (auto simp: note_lane_evidence_def Let_def intro: rtranclp.rtrancl_into_rtrancl)
qed

lemma heartbeat_change:
  assumes "hub_ok d"
  shows "(hub_change lossy)\<^sup>*\<^sup>* d (fst (do_heartbeat name presented b clock d))"
proof -
  let ?d0 = "set_runner name (take_health b (clock 0)) d"
  obtain d1 recorded rejection accepted where g: "gap_stage name b clock ?d0 = (d1, recorded, rejection, accepted)"
    by (metis prod_cases4)
  let ?d2 = "fst (note_lane_evidence name (hm_lane_image_digest b) accepted (clock 3) (hm_probe_complete b) d1)"
  have s1: "(hub_change lossy)\<^sup>*\<^sup>* d d1"
    using gap_stage_change [of lossy ?d0 name b clock] set_runner_change [of lossy d name "take_health b (clock 0)"]
    by (simp add: g converse_rtranclp_into_rtranclp)
  moreover have "(hub_change lossy)\<^sup>*\<^sup>* d1 ?d2" using changes_ok [OF s1 assms] by (rule evidence_change)
  moreover have "hub_change lossy ?d2 (set_runner name f ?d2)" for f by (rule set_runner_change)
  ultimately have "(hub_change lossy)\<^sup>*\<^sup>* d (set_runner name f ?d2)" for f
    by (meson rtranclp.rtrancl_into_rtrancl rtranclp_trans)
  then show ?thesis by (auto simp: do_heartbeat_def heartbeat_def g Let_def split: option.split)
qed

text \<open>The class a decision or a report carries is that of a stored credential.\<close>

lemma classify_stored:
  assumes "classify_any d p = Inr (Some klass, info)" and "klass = ''operator'' \<or> klass = ''builder''"
  shows "\<exists>c\<in>set (hb_credentials d). kc_class c = klass \<and> ci_scope info = kc_scope c
    \<and> ci_credential_id info = Some (kc_credential_id c) \<and> ci_builder_identity info = kc_builder_identity c"
proof -
  obtain s where p: "p = PStr s" "s \<noteq> []" "classify_secret d (Some s) = (Some klass, info)"
    using assms by (cases p) (auto simp: classify_any_def truthy_def raise_def split: if_splits)
  then have "match_stored d s \<noteq> None"
    using assms(2) by (cases s) (auto simp: classify_secret_def no_info_def split: option.splits if_splits)
  then obtain c where c: "match_stored d s = Some c" by blast
  then have "c \<in> set (hb_credentials d)" by (auto simp: match_stored_def find_Some_iff)
  then show ?thesis using p c by (cases s) (auto simp: classify_secret_def)
qed

lemma decision_of_backed: "classify_any d p = Inr c \<Longrightarrow> decision_backed (hb_credentials d) (decision_of clock a c)"
  using classify_stored [of d p "''operator''" "snd c"]
  by (cases c) (fastforce simp: decision_backed_def decision_of_def operator_credential_def)

lemma build_report_of_backed: "classify_any d p = Inr c \<Longrightarrow> report_backed (hb_credentials d) (build_report_of clock a c)"
  using classify_stored [of d p "''builder''" "snd c"]
  by (cases c) (fastforce simp: report_backed_def build_report_of_def builder_credential_def)

lemma row_next_remember: "row_next lossy cs r r' \<Longrightarrow> row_next lossy cs r (remember_nonce n r')"
  by (induction rule: row_next.induct)
    (auto simp: remember_nonce_def same_identity_def intro: row_next.intros)

lemma request_change:
  assumes "find_request d ident = Some r" and "row_next lossy (hb_credentials d) r r'" and "keeps_claims d d1"
    and "hb_requests d1 = hb_requests d"
  shows "hub_change lossy d (set_request ident (\<lambda>_. r') d1)"
proof (rule hub_change.rows)
  show "list_all2 (row_next lossy (hb_credentials d)) (hb_requests d) (hb_requests (set_request ident (\<lambda>_. r') d1))"
    using assms by (auto simp: set_request_def find_request_def intro!: update_first_found)
  show "keeps_claims d (set_request ident (\<lambda>_. r') d1)"
    using assms(3) by (simp add: keeps_claims_def set_request_def)
qed

lemma consume_keeps [simp]: "keeps_claims d (consume_nonce n d)" "hb_requests (consume_nonce n d) = hb_requests d"
  "hb_credentials (consume_nonce n d) = hb_credentials d"
  by (auto simp: consume_nonce_def keeps_claims_def)

lemma found_path: "find_request d ident = Some r \<Longrightarrow> hub_ok d \<Longrightarrow> r \<in> set (hb_requests d) \<and> row_kept r"
  by (auto simp: find_request_def find_Some_iff hub_ok_def trail_ok_def)

lemma decide_change:
  assumes "hub_ok d" and "decision_backed (hb_credentials d) dc" and "lossy \<or> datable clock dc"
  shows "hub_change lossy d (fst (decide_request clock ident dc d))"
proof (cases "find_request d ident")
  case (Some r)
  have next_row: "row_next lossy (hb_credentials d) r (fst (decide clock (is_nonce_consumed d) r dc))"
    using found_path [OF Some assms(1)] assms(2,3) by (simp add: decide_next)
  show ?thesis
  proof (cases "decide clock (is_nonce_consumed d) r dc")
    case (Pair r1 out)
    then have "row_next lossy (hb_credentials d) r r1" using next_row by simp
    then show ?thesis
      using Some Pair by (cases out) (auto simp: decide_request_def Let_def intro!: request_change row_next_remember)
  qed
qed (simp add: decide_request_def untouched)

lemma report_change:
  assumes "hub_ok d" and "report_backed (hb_credentials d) b"
  shows "hub_change lossy d (fst (report_build ident b d))"
proof (cases "find_request d ident")
  case (Some r)
  have "row_next lossy (hb_credentials d) r (fst (report_build_row r b))"
    using found_path [OF Some assms(1)] assms(2) by (simp add: report_next)
  then show ?thesis
    using Some by (auto simp: report_build_def untouched split: prod.split intro: request_change)
qed (simp add: report_build_def untouched)

lemma decide_route: "fst (handle_decide micros clock body d) = d
    \<or> (\<exists>a c. read_decide body = Inr a \<and> classify_any d (da_credential a) = Inr c
        \<and> fst (handle_decide micros clock body d) = fst (decide_request micros (da_request_id a) (decision_of clock a c) d))"
proof (cases "read_decide body")
  case (Inr a)
  show ?thesis
  proof (cases "classify_any d (da_credential a)")
    case (Inr c)
    obtain d1 x where x: "decide_request micros (da_request_id a) (decision_of clock a c) d = (d1, x)" by fastforce
    then have "fst (handle_decide micros clock body d) \<in> {d, d1}"
      using Inr \<open>read_decide body = Inr a\<close> by (cases x) (simp_all add: handle_decide_def)
    then show ?thesis using x Inr \<open>read_decide body = Inr a\<close> by (metis fst_conv insert_iff singletonD)
  qed (simp add: handle_decide_def Inr)
qed (simp add: handle_decide_def)

lemma report_route: "fst (handle_build_report clock body d) = d
    \<or> (\<exists>a c. read_report body = Inr a \<and> classify_any d (ra_credential a) = Inr c
        \<and> fst (handle_build_report clock body d) = fst (report_build (ra_request_id a) (build_report_of clock a c) d))"
proof (cases "read_report body")
  case (Inr a)
  show ?thesis
  proof (cases "classify_any d (ra_credential a)")
    case (Inr c)
    obtain d1 x where x: "report_build (ra_request_id a) (build_report_of clock a c) d = (d1, x)" by fastforce
    then have "fst (handle_build_report clock body d) = d1"
      using Inr \<open>read_report body = Inr a\<close> by (simp add: handle_build_report_def)
    then show ?thesis using x Inr \<open>read_report body = Inr a\<close> by (metis fst_conv)
  qed (simp add: handle_build_report_def Inr)
qed (simp add: handle_build_report_def)

lemma revoke_change: "hub_change lossy d (fst (do_revoke name presented d))"
  by (simp add: do_revoke_def revoke_runner_def set_runner_change untouched)

lemma profile_change: "hub_change lossy d (fst (set_lane_profile name pid image_ref digest d))"
  by (simp add: set_lane_profile_def set_runner_change untouched)

lemma token_change: "hub_change lossy d (add_enrollment_token t d)" "hub_change lossy d (fst (prune_enrollment_tokens keep d))"
  by (rule untouched; simp add: add_enrollment_token_def prune_enrollment_tokens_def keeps_claims_def Let_def)+

lemma credential_change: "hub_change lossy d (add_credential klass secret cid scope who runner builder d)"
  by (rule untouched; auto simp: add_credential_def keeps_claims_def)

lemma enroll_change: "hub_change lossy d (fst (do_enroll presented name repo labels alias address forge token now d))"
  by (rule untouched; auto simp: do_enroll_def consume_enrollment_token_def keeps_claims_def split: option.split)

text \<open>A call that does not deny at a date whose suppression window is past the calendar.\<close>

definition dated :: "hub_call \<Rightarrow> bool" where
  "dated c \<longleftrightarrow> (case c of
       Call_Decide micros clock body \<Rightarrow>
         (case read_decide body of Inl e \<Rightarrow> True | Inr a \<Rightarrow> datable micros (decision_of clock a (None, no_info)))
     | _ \<Rightarrow> True)"

lemma datable_class: "datable micros (decision_of clock a c) \<longleftrightarrow> datable micros (decision_of clock a c')"
  by (simp add: datable_def decision_of_def)

lemma call_change:
  assumes "hub_ok d" and "lossy \<or> dated c"
  shows "(hub_change lossy)\<^sup>*\<^sup>* d (run_call c d)"
proof (cases c)
  case (Call_Heartbeat name presented b clock)
  then show ?thesis using assms by (simp add: heartbeat_change)
next
  case (Call_Decide micros clock body)
  have "lossy \<or> datable micros (decision_of clock a k)" if "read_decide body = Inr a" for a k
    using assms(2) Call_Decide that datable_class [of micros clock a k "(None, no_info)"] by (simp add: dated_def)
  then show ?thesis
    using decide_route [of micros clock body d] Call_Decide decide_change [OF assms(1) decision_of_backed] by auto
next
  case (Call_Report clock body)
  from report_route [of clock body d] show ?thesis
    using Call_Report report_change [OF assms(1)] build_report_of_backed by auto
qed (simp_all add: r_into_rtranclp revoke_change profile_change token_change credential_change enroll_change)

lemma step_change: "hub_step d d' \<Longrightarrow> hub_ok d \<Longrightarrow> (hub_change True)\<^sup>*\<^sup>* d d'"
  by (auto elim!: hub_stepE intro: call_change)

text \<open>The steps of a hub whose denials are all dated within the calendar.\<close>

inductive dated_step :: "hub_data \<Rightarrow> hub_data \<Rightarrow> bool" where
  call: "dated c \<Longrightarrow> dated_step d (run_call c d)"

inductive_cases dated_stepE: "dated_step d d'"

lemma dated_change: "dated_step d d' \<Longrightarrow> hub_ok d \<Longrightarrow> (hub_change False)\<^sup>*\<^sup>* d d'"
  by (auto elim!: dated_stepE intro: call_change)

end
