(* ===== verification/Toolchain_Safety.thy ===== *)
theory Toolchain_Safety
  imports Toolchain_Steps Interfaces
begin

text \<open>
  What holds of the tool requests over every sequence of calls: who moved a row, what its state rests on,
  that the trail only grows, that a nonce is spent once, and that a refused gap
  report leaves nothing of itself. The contracts of \<open>Interfaces\<close> are interpreted on the hub's own step.
\<close>

section \<open>The contracts\<close>

lemma step_ok: "hub_step d d' \<Longrightarrow> hub_ok d \<Longrightarrow> hub_ok d'"
  using step_change changes_ok by blast

lemma fresh_ok: "hub_ok (fresh_hub salt)"
  by (simp add: hub_ok_def fresh_hub_def)

text \<open>The trail of a document: every prefix of a row's history, at every version up to the row's.\<close>

definition request_identity :: "tool_request \<Rightarrow> string \<times> string \<times> string \<times> string option" where
  "request_identity r = (tq_id r, tq_lane r, tq_tool r, tq_required_profile r)"

definition row_trail ::
  "tool_request \<Rightarrow> ((string \<times> string \<times> string \<times> string option) \<times> audit_row list \<times> int) set" where
  "row_trail r = {(request_identity r, take n (tq_history r), v) | n v. v \<le> tq_version r}"

definition trail_level ::
  "hub_data \<Rightarrow> ((string \<times> string \<times> string \<times> string option) \<times> audit_row list \<times> int) set" where
  "trail_level d = (\<Union>r\<in>set (hb_requests d). row_trail r)"

lemma list_all2_member: "list_all2 P xs ys \<Longrightarrow> x \<in> set xs \<Longrightarrow> \<exists>y\<in>set ys. P x y"
  by (induction rule: list_all2_induct) auto

lemma row_trail_grows:
  assumes "row_next lossy cs r r'"
  shows "row_trail r \<subseteq> row_trail r'"
proof -
  obtain new where new: "tq_history r' = tq_history r @ new" and v: "tq_version r \<le> tq_version r'"
    using row_next_grows [OF assms] by blast
  have same: "request_identity r' = request_identity r"
    using row_next_identity [OF assms] by (simp add: same_identity_def request_identity_def)
  have "\<exists>m. take n (tq_history r) = take m (tq_history r')" for n
    by (rule exI [of _ "min n (length (tq_history r))"]) (cases "n \<le> length (tq_history r)"; simp add: new min_def)
  then show ?thesis using v unfolding row_trail_def same by fastforce
qed

lemma trail_change: "hub_change lossy d d' \<Longrightarrow> trail_level d \<subseteq> trail_level d'"
proof (induction rule: hub_change.induct)
  case (rows d d')
  show ?case
  proof
    fix x
    assume "x \<in> trail_level d"
    then obtain r where r: "r \<in> set (hb_requests d)" "x \<in> row_trail r" by (auto simp: trail_level_def)
    then obtain r' where "r' \<in> set (hb_requests d')" "row_next lossy (hb_credentials d) r r'"
      using list_all2_member [OF rows.hyps(1)] by blast
    then show "x \<in> trail_level d'" using r(2) row_trail_grows [of lossy "hb_credentials d" r r'] unfolding trail_level_def by blast
  qed
qed (auto simp: trail_level_def)

lemma trail_changes: "(hub_change lossy)\<^sup>*\<^sup>* d d' \<Longrightarrow> trail_level d \<subseteq> trail_level d'"
  by (induction rule: rtranclp_induct) (auto dest: trail_change)

interpretation trail: monotone_system hub_step hub_ok trail_level
  by unfold_locales (use step_ok step_change trail_changes in blast)+

lemma trail_row:
  assumes "trail_level d \<subseteq> trail_level d'" and "r \<in> set (hb_requests d)"
  shows "\<exists>r'\<in>set (hb_requests d'). same_identity r r' \<and> take (length (tq_history r)) (tq_history r') = tq_history r
    \<and> tq_version r \<le> tq_version r'"
proof -
  have "(request_identity r, tq_history r, tq_version r) \<in> row_trail r"
    unfolding row_trail_def by (auto intro: exI [of _ "length (tq_history r)"])
  then have "(request_identity r, tq_history r, tq_version r) \<in> trail_level d'"
    using assms by (auto simp: trail_level_def)
  then obtain r' n where r': "r' \<in> set (hb_requests d')" "request_identity r = request_identity r'"
    "tq_history r = take n (tq_history r')" "tq_version r \<le> tq_version r'"
    by (auto simp: trail_level_def row_trail_def)
  then show ?thesis
    by (intro bexI [of _ r']) (auto simp: same_identity_def request_identity_def min_def)
qed

text \<open>A spent nonce stays spent.\<close>

lemma change_claims: "(hub_change lossy)\<^sup>*\<^sup>* d d' \<Longrightarrow> keeps_claims d d'"
proof (induction rule: rtranclp_induct)
  case (step e f)
  then have "keeps_claims e f" by (auto elim: hub_change.cases)
  then show ?case using step.IH unfolding keeps_claims_def by blast
qed simp

interpretation spent: invariant_system hub_step "\<lambda>d. hub_ok d \<and> n \<in> set (hb_consumed d)" for n
proof unfold_locales
  fix d d'
  assume "hub_step d d'" and "hub_ok d \<and> n \<in> set (hb_consumed d)"
  then show "hub_ok d' \<and> n \<in> set (hb_consumed d')"
    using step_ok change_claims [OF step_change] unfolding keeps_claims_def by blast
qed

text \<open>As long as every denial can be dated, every row's history leads to where the row is.\<close>

interpretation paths: invariant_system dated_step "\<lambda>d. hub_ok d \<and> paths_ok d"
  by unfold_locales (use dated_change changes_ok changes_paths in blast)

lemma fresh_paths: "paths_ok (fresh_hub salt)"
  by (simp add: paths_ok_def fresh_hub_def)

section \<open>Who moves a row\<close>

text \<open>The digest a heartbeat leaves on the lane's record.\<close>

definition reported_digest :: "hub_data \<Rightarrow> string \<Rightarrow> heartbeat_body \<Rightarrow> string option" where
  "reported_digest d name b =
     Option.bind (find_runner d name) (\<lambda>r. rn_lane_image_digest (lane_digest (hm_lane_image_digest b) r))"

text \<open>
  What a call must be to move a row to the state \<open>to\<close>: a decision with an operator's credential, a report
  with a builder's, or the heartbeat of the row's own lane with a gap list that was accepted.
\<close>

definition entitled :: "hub_call \<Rightarrow> hub_data \<Rightarrow> tool_request \<Rightarrow> string \<Rightarrow> bool" where
  "entitled c d r to \<longleftrightarrow>
     (case c of
        Call_Decide micros clock body \<Rightarrow>
          (\<exists>a info. read_decide body = Inr a \<and> da_request_id a = tq_id r
             \<and> classify_any d (da_credential a) = Inr info
             \<and> may_decide (is_nonce_consumed d) r (decision_of clock a info)
             \<and> to = (if da_action a = ''approve'' then ''approved'' else ''denied''))
      | Call_Report clock body \<Rightarrow>
          (\<exists>a info. read_report body = Inr a \<and> ra_request_id a = tq_id r
             \<and> classify_any d (ra_credential a) = Inr info \<and> may_report r (build_report_of clock a info) to)
      | Call_Heartbeat name presented b clock \<Rightarrow>
          verify_heartbeat_token d name presented
          \<and> (\<exists>v ts. hm_missing_tools b = Some v \<and> validate_missing_tools v = Inr ts
               \<and> lane_moves name (reported_digest d name b) (Some ts) (hm_probe_complete b) r to)
      | _ \<Rightarrow> False)"

lemma update_first_nth: "i < length xs \<Longrightarrow>
    update_first p (\<lambda>_. y) xs ! i = xs ! i \<or> (List.find p xs = Some (xs ! i) \<and> update_first p (\<lambda>_. y) xs ! i = y)"
proof (induction xs arbitrary: i)
  case (Cons x xs)
  then show ?case by (cases i) auto
qed simp

lemma find_id: "List.find (\<lambda>r. tq_id r = ident) rows = Some r \<Longrightarrow> tq_id r = ident"
  by (auto simp: find_Some_iff)

lemma refused_state [simp]: "tq_state (refused_decision r d e n) = tq_state r" "tq_version (refused_decision r d e n) = tq_version r"
  "tq_id (refused_decision r d e n) = tq_id r"
  "tq_state (refused_report r b e n) = tq_state r" "tq_state (remember_nonce m r) = tq_state r"
  "tq_version (remember_nonce m r) = tq_version r" "tq_id (remember_nonce m r) = tq_id r"
  by (simp_all add: refused_decision_def refused_report_def append_history_def remember_nonce_def)

lemma applied_state: "tq_state (fst (apply_decision clock r d to)) = to" "tq_state (apply_report r b to) = to"
  by (auto simp: apply_decision_def apply_report_def Let_def append_history_def split: sum.split)

lemma decide_moves:
  assumes "i < length (hb_requests d)"
    and "tq_state (hb_requests (fst (decide_request clock ident dc d)) ! i) \<noteq> tq_state (hb_requests d ! i)"
  shows "tq_id (hb_requests d ! i) = ident \<and> may_decide (is_nonce_consumed d) (hb_requests d ! i) dc
    \<and> tq_state (hb_requests (fst (decide_request clock ident dc d)) ! i)
        = (if de_action dc = ''approve'' then ''approved'' else ''denied'')"
proof (cases "find_request d ident")
  case None
  then show ?thesis using assms by (simp add: decide_request_def)
next
  case (Some r)
  obtain r1 x where x: "decide clock (is_nonce_consumed d) r dc = (r1, x)" by fastforce
  define y where "y = (case x of Inl e \<Rightarrow> r1
    | Inr res \<Rightarrow> if er_status res = 200 \<and> de_nonce dc \<noteq> PNone then remember_nonce (de_nonce dc) r1 else r1)"
  have y: "tq_state y = tq_state r1" by (simp add: y_def split: sum.split)
  have rows: "hb_requests (fst (decide_request clock ident dc d)) = update_first (\<lambda>r. tq_id r = ident) (\<lambda>_. y) (hb_requests d)"
  proof (cases x)
    case (Inl e)
    then show ?thesis using Some x by (simp add: decide_request_def set_request_def y_def)
  next
    case (Inr res)
    then have "fst (decide_request clock ident dc d) = set_request ident (\<lambda>_. y)
        (if er_status res = 200 \<and> \<not> er_idempotent res \<and> de_nonce dc \<noteq> PNone then consume_nonce (de_nonce dc) d else d)"
      using Some x by (simp add: decide_request_def Let_def y_def)
    then show ?thesis by (simp add: set_request_def)
  qed
  have r: "hb_requests d ! i = r" and moved: "hb_requests (fst (decide_request clock ident dc d)) ! i = y"
    using update_first_nth [OF assms(1), of "\<lambda>r. tq_id r = ident" y] assms(2) Some rows
    by (auto simp: find_request_def)
  have "tq_state r1 \<noteq> tq_state r" using assms(2) moved r y by simp
  then have out: "may_decide (is_nonce_consumed d) r dc"
    "(r1, x) = apply_decision clock r dc (if de_action dc = ''approve'' then ''approved'' else ''denied'')"
    using decide_ends [of clock "is_nonce_consumed d" r dc] by (auto simp: decide_outcome_def x)
  from arg_cong [OF out(2), of fst]
  have "r1 = fst (apply_decision clock r dc (if de_action dc = ''approve'' then ''approved'' else ''denied''))"
    by (simp only: fst_conv)
  then have "tq_state r1 = (if de_action dc = ''approve'' then ''approved'' else ''denied'')"
    by (simp only: applied_state(1))
  then show ?thesis
    using out(1) Some find_id [of ident "hb_requests d" r] moved r y by (simp add: find_request_def)
qed

lemma report_moves:
  assumes "i < length (hb_requests d)"
    and "tq_state (hb_requests (fst (report_build ident b d)) ! i) \<noteq> tq_state (hb_requests d ! i)"
  shows "tq_id (hb_requests d ! i) = ident
    \<and> may_report (hb_requests d ! i) b (tq_state (hb_requests (fst (report_build ident b d)) ! i))"
proof (cases "find_request d ident")
  case None
  then show ?thesis using assms by (simp add: report_build_def split: if_splits)
next
  case (Some r)
  obtain r1 x where x: "report_build_row r b = (r1, x)" by fastforce
  obtain k where cls: "br_class b = Some k" using assms(2) by (cases "br_class b") (simp_all add: report_build_def)
  have y: "hb_requests (fst (report_build ident b d)) = update_first (\<lambda>r. tq_id r = ident) (\<lambda>_. r1) (hb_requests d)"
    using Some x cls by (simp add: report_build_def set_request_def)
  have r: "hb_requests d ! i = r" and moved: "hb_requests (fst (report_build ident b d)) ! i = r1"
    using update_first_nth [OF assms(1), of "\<lambda>r. tq_id r = ident" r1] assms(2) Some y
    by (auto simp: find_request_def)
  have "tq_state r1 \<noteq> tq_state r" using assms(2) moved r by simp
  then obtain to where "may_report r b to" "r1 = apply_report r b to"
    using report_ends [of r b] by (auto simp: report_outcome_def x)
  then show ?thesis
    using Some find_id [of ident "hb_requests d" r] moved r by (simp add: find_request_def applied_state)
qed

text \<open>Recording a gap list changes no row but for when it was last seen.\<close>

definition seen_like :: "tool_request list \<Rightarrow> tool_request list \<Rightarrow> bool" where
  "seen_like rows rows' \<longleftrightarrow> length rows \<le> length rows'
     \<and> (\<forall>i<length rows. \<exists>x y. rows' ! i = (rows ! i)\<lparr>tq_last_seen := x, tq_last_reported_at := y\<rparr>)"

lemma seen_like_self: "\<exists>x y. (r :: tool_request) = r\<lparr>tq_last_seen := x, tq_last_reported_at := y\<rparr>"
  by (rule exI [of _ "tq_last_seen r"], rule exI [of _ "tq_last_reported_at r"], rule tool_request.equality) simp_all

lemma seen_like_refl [simp]: "seen_like rows rows"
  unfolding seen_like_def using seen_like_self by blast

lemma seen_like_trans:
  assumes "seen_like a b" and "seen_like b c"
  shows "seen_like a c"
  unfolding seen_like_def
proof (intro conjI allI impI)
  show "length a \<le> length c" using assms by (simp add: seen_like_def)
  fix i
  assume "i < length a"
  then obtain x y u v where "b ! i = (a ! i)\<lparr>tq_last_seen := x, tq_last_reported_at := y\<rparr>"
    and "c ! i = (b ! i)\<lparr>tq_last_seen := u, tq_last_reported_at := v\<rparr>"
    using assms unfolding seen_like_def by (meson less_le_trans)
  then have "c ! i = (a ! i)\<lparr>tq_last_seen := u, tq_last_reported_at := v\<rparr>" by simp
  then show "\<exists>x y. c ! i = (a ! i)\<lparr>tq_last_seen := x, tq_last_reported_at := y\<rparr>" by blast
qed

lemma seen_like_snoc: "seen_like rows (rows @ [r])"
  unfolding seen_like_def
proof (intro conjI allI impI)
  fix i
  assume "i < length rows"
  then have same: "(rows @ [r]) ! i = rows ! i" by (simp add: nth_append)
  show "\<exists>x y. (rows @ [r]) ! i = (rows ! i)\<lparr>tq_last_seen := x, tq_last_reported_at := y\<rparr>"
    unfolding same by (rule seen_like_self)
qed simp

lemma length_update_first [simp]: "length (update_first p f xs) = length xs"
  by (induction xs) simp_all

lemma update_first_either: "i < length xs \<Longrightarrow> update_first p f xs ! i = xs ! i \<or> update_first p f xs ! i = f (xs ! i)"
proof (induction xs arbitrary: i)
  case (Cons x xs)
  then show ?case by (cases i) auto
qed simp

lemma seen_like_update: "seen_like rows (update_first p (seen_again now) rows)"
  unfolding seen_like_def
proof (intro conjI allI impI)
  fix i
  assume "i < length rows"
  then consider "update_first p (seen_again now) rows ! i = rows ! i"
    | "update_first p (seen_again now) rows ! i = seen_again now (rows ! i)"
    using update_first_either by blast
  then show "\<exists>x y. update_first p (seen_again now) rows ! i = (rows ! i)\<lparr>tq_last_seen := x, tq_last_reported_at := y\<rparr>"
    by cases (use seen_like_self [of "rows ! i"] in \<open>auto simp: seen_again_def\<close>)
qed simp

lemma record_tool_seen: "seen_like rows (record_tool lane pid now tool rows)"
  by (simp add: record_tool_def seen_like_update seen_like_snoc)

lemma record_tools_seen: "seen_like rows (fold (record_tool lane pid now) tools rows)"
proof (induction tools arbitrary: rows)
  case (Cons t ts)
  show ?case using seen_like_trans [OF record_tool_seen Cons.IH] by simp
qed simp

lemma find_set_runner:
  assumes "\<And>r. rn_name (f r) = rn_name r"
  shows "find_runner (set_runner name f d) name = map_option f (find_runner d name)"
proof -
  have "List.find (\<lambda>r. rn_name r = name) (update_first (\<lambda>r. rn_name r = name) f rs)
      = map_option f (List.find (\<lambda>r. rn_name r = name) rs)" for rs
    by (induction rs) (simp_all add: assms)
  then show ?thesis by (simp add: find_runner_def set_runner_def)
qed

lemma find_runner_digest:
  assumes "\<And>r. rn_name (f r) = rn_name r" and "\<And>r. rn_lane_image_digest (f r) = rn_lane_image_digest r"
  shows "reported_digest (set_runner name f d) name b = reported_digest d name b"
proof -
  have "rn_lane_image_digest (lane_digest x (f r)) = rn_lane_image_digest (lane_digest x r)" for x r
    by (simp add: lane_digest_def assms(2) split: option.split)
  then show ?thesis
    by (cases "find_runner d name") (simp_all add: reported_digest_def find_set_runner [OF assms(1)])
qed

lemma gap_report_seen:
  "seen_like (hb_requests d) (hb_requests (fst (record_gap_report name submitted pid now d)))"
  "reported_digest (fst (record_gap_report name submitted pid now d)) name b = reported_digest d name b"
proof -
  have "reported_digest (d\<lparr>hb_requests := rows\<rparr>) name b = reported_digest d name b" for rows
    by (simp add: reported_digest_def find_runner_def)
  moreover have "reported_digest (set_runner name (note_rejection c) d) name b = reported_digest d name b" for c
    by (rule find_runner_digest) (simp_all add: note_rejection_def)
  moreover have "hb_requests (set_runner name (note_rejection c) d) = hb_requests d" for c
    by (simp add: set_runner_def)
  ultimately show "reported_digest (fst (record_gap_report name submitted pid now d)) name b = reported_digest d name b"
    "seen_like (hb_requests d) (hb_requests (fst (record_gap_report name submitted pid now d)))"
    by (auto simp: record_gap_report_def record_tools_seen split: option.split sum.split)
qed

lemma gap_stage_seen:
  assumes "gap_stage name b clock d = (d1, recorded, rejection, accepted)"
  shows "seen_like (hb_requests d) (hb_requests d1)" and "reported_digest d1 name b = reported_digest d name b"
    and "accepted = Some ts \<Longrightarrow> \<exists>v. hm_missing_tools b = Some v \<and> validate_missing_tools v = Inr ts"
proof -
  consider "hm_missing_tools b = None" | v where "hm_missing_tools b = Some v" by blast
  then have "seen_like (hb_requests d) (hb_requests d1) \<and> reported_digest d1 name b = reported_digest d name b
    \<and> (accepted = Some ts \<longrightarrow> (\<exists>v. hm_missing_tools b = Some v \<and> validate_missing_tools v = Inr ts))"
  proof cases
    case 1
    then show ?thesis using assms by (simp add: gap_stage_def)
  next
    case 2
    let ?d = "note_gap_coverage name (hm_probe_complete b) (clock 1) d"
    let ?pid = "Option.bind (find_runner ?d name) rn_toolchain_profile_id"
    obtain d2 out where g: "record_gap_report name v ?pid (clock 2) ?d = (d2, out)" by fastforce
    have d1: "d1 = d2" and acc: "accepted = accepted_gap_list v (case out of Inl r \<Rightarrow> Some r | Inr n \<Rightarrow> None)"
      using assms 2 g by (auto simp: gap_stage_def Let_def split: sum.splits)
    have same: "hb_requests ?d = hb_requests d" "reported_digest ?d name b = reported_digest d name b"
      unfolding note_gap_coverage_def by (simp add: set_runner_def, rule find_runner_digest, simp_all)
    have list: "\<exists>us. validate_missing_tools v = Inr us" if "out = Inr n" for n
      using g that by (auto simp: record_gap_report_def split: option.splits sum.splits if_splits)
    have "accepted = Some ts \<longrightarrow> validate_missing_tools v = Inr ts"
    proof
      assume a: "accepted = Some ts"
      then obtain n where n: "out = Inr n" using acc by (cases out) (simp_all add: accepted_gap_list_def)
      then obtain us where us: "validate_missing_tools v = Inr us" using list by blast
      have "concat (map (\<lambda>v. case v of PStr s \<Rightarrow> [s] | _ \<Rightarrow> []) (map PStr us)) = us"
        by (induction us) simp_all
      then have "accepted = Some us"
        using acc n us by (simp add: accepted_gap_list_def validate_missing_tools_ok del: map_map)
      then show "validate_missing_tools v = Inr ts" using a us by simp
    qed
    then show ?thesis
      using gap_report_seen [where d = ?d and name = name and submitted = v and pid = ?pid and now = "clock 2"]
        g same 2 d1 by simp
  qed
  then show "seen_like (hb_requests d) (hb_requests d1)" and "reported_digest d1 name b = reported_digest d name b"
    and "accepted = Some ts \<Longrightarrow> \<exists>v. hm_missing_tools b = Some v \<and> validate_missing_tools v = Inr ts"
    by blast+
qed

lemma set_runner_requests: "hb_requests (set_runner name f d) = hb_requests d"
  by (simp add: set_runner_def)

lemma evidence_rows:
  assumes "i < length (hb_requests d)"
  shows "hb_requests (fst (note_lane_evidence name (hm_lane_image_digest b) missing now complete d)) ! i
    = fst (evidence_row name (reported_digest d name b) missing complete now (hb_requests d ! i))"
proof -
  let ?f = "lane_digest (hm_lane_image_digest b)"
  have "rn_name (?f r) = rn_name r" for r by (simp add: lane_digest_def split: option.split)
  then have "Option.bind (find_runner (set_runner name ?f d) name) rn_lane_image_digest = reported_digest d name b"
    by (cases "find_runner d name") (simp_all add: find_set_runner reported_digest_def)
  then show ?thesis using assms by (simp add: note_lane_evidence_def Let_def set_runner_def)
qed

lemma heartbeat_moves:
  assumes i: "i < length (hb_requests d)"
    and "tq_state (hb_requests (fst (do_heartbeat name presented b clock d)) ! i) \<noteq> tq_state (hb_requests d ! i)"
  shows "entitled (Call_Heartbeat name presented b clock) d (hb_requests d ! i)
    (tq_state (hb_requests (fst (do_heartbeat name presented b clock d)) ! i))"
proof -
  let ?d0 = "set_runner name (take_health b (clock 0)) d"
  obtain d1 recorded rejection accepted where g: "gap_stage name b clock ?d0 = (d1, recorded, rejection, accepted)"
    by (metis prod_cases4)
  let ?digest = "reported_digest d name b"
  have verified: "verify_heartbeat_token d name presented"
    using assms(2) by (auto simp: do_heartbeat_def split: if_splits)
  then obtain runner where "find_runner d name = Some runner" "rn_enrolled runner"
    by (auto simp: verify_heartbeat_token_def split: option.splits)
  then have rows: "hb_requests (fst (do_heartbeat name presented b clock d))
      = hb_requests (fst (note_lane_evidence name (hm_lane_image_digest b) accepted (clock 3) (hm_probe_complete b) d1))"
    using verified by (simp add: do_heartbeat_def heartbeat_def g Let_def set_runner_requests)
  have "reported_digest ?d0 name b = ?digest" by (rule find_runner_digest) (simp_all add: take_health_def)
  then have digest: "reported_digest d1 name b = ?digest" using gap_stage_seen(2) [OF g] by simp
  have seen: "seen_like (hb_requests d) (hb_requests d1)"
    using gap_stage_seen(1) [OF g] by (simp add: set_runner_def)
  then have i1: "i < length (hb_requests d1)" using i unfolding seen_like_def by linarith
  obtain x y where r1: "hb_requests d1 ! i = (hb_requests d ! i)\<lparr>tq_last_seen := x, tq_last_reported_at := y\<rparr>"
    using seen i unfolding seen_like_def by blast
  let ?to = "tq_state (fst (evidence_row name ?digest accepted (hm_probe_complete b) (clock 3) (hb_requests d1 ! i)))"
  have to: "tq_state (hb_requests (fst (do_heartbeat name presented b clock d)) ! i) = ?to"
    unfolding rows evidence_rows [OF i1] digest ..
  have "?to \<noteq> tq_state (hb_requests d1 ! i)" using assms(2) unfolding to by (simp add: r1)
  then have moves: "lane_moves name ?digest accepted (hm_probe_complete b) (hb_requests d1 ! i) ?to"
    by (rule evidence_moves)
  then obtain ts where ts: "accepted = Some ts" by (auto simp: lane_moves_def split: if_splits)
  have "lane_moves name ?digest m k (hb_requests d1 ! i) t = lane_moves name ?digest m k (hb_requests d ! i) t" for m k t
    unfolding r1 by (simp add: lane_moves_def)
  from moves [unfolded this] have "lane_moves name ?digest (Some ts) (hm_probe_complete b) (hb_requests d ! i) ?to"
    by (simp only: ts)
  then show ?thesis
    unfolding entitled_def to using verified gap_stage_seen(3) [OF g ts] by auto
qed

lemma other_calls_keep:
  "hb_requests (fst (do_enroll presented name repo labels alias address forge token now d)) = hb_requests d"
  "hb_requests (fst (do_revoke name presented d)) = hb_requests d"
  "hb_requests (fst (set_lane_profile name pid image_ref digest d)) = hb_requests d"
  "hb_requests (add_enrollment_token token d) = hb_requests d"
  "hb_requests (fst (prune_enrollment_tokens keep d)) = hb_requests d"
  "hb_requests (add_credential klass secret cid scope who runner builder d) = hb_requests d"
  by (auto simp: do_enroll_def consume_enrollment_token_def do_revoke_def revoke_runner_def set_lane_profile_def
      set_runner_def add_enrollment_token_def prune_enrollment_tokens_def add_credential_def Let_def split: option.split)

section \<open>Spent nonces and refused lists\<close>

definition row_marks :: "hub_data \<Rightarrow> (string \<times> string \<times> int) list" where
  "row_marks d = map (\<lambda>r. (tq_id r, tq_state r, tq_version r)) (hb_requests d)"

lemma update_first_marks:
  "List.find p rs = Some r \<Longrightarrow> f y = f r \<Longrightarrow> map f (update_first p (\<lambda>_. y) rs) = map f rs"
  by (induction rs) (auto split: if_splits)

lemma spent_decision_marks:
  assumes "is_nonce_consumed d (de_nonce dc)"
  shows "row_marks (fst (decide_request clock ident dc d)) = row_marks d"
proof (cases "find_request d ident")
  case (Some r)
  obtain r1 x where x: "decide clock (is_nonce_consumed d) r dc = (r1, x)" by fastforce
  have "\<not> may_decide (is_nonce_consumed d) r dc" using assms by (simp add: may_decide_def)
  then have out: "\<not> applied_now x" "tq_id r1 = tq_id r \<and> tq_state r1 = tq_state r \<and> tq_version r1 = tq_version r"
    using decide_ends [of clock "is_nonce_consumed d" r dc] by (auto simp: decide_outcome_def x)
  then obtain res where res: "x = Inr res" by (cases x) (simp_all add: applied_now_def)
  define y where "y = (if er_status res = 200 \<and> de_nonce dc \<noteq> PNone then remember_nonce (de_nonce dc) r1 else r1)"
  have "fst (decide_request clock ident dc d) = set_request ident (\<lambda>_. y) d"
    using Some x res out(1) by (auto simp: decide_request_def Let_def y_def applied_now_def)
  moreover have "(tq_id y, tq_state y, tq_version y) = (tq_id r, tq_state r, tq_version r)"
    using out(2) by (simp add: y_def)
  ultimately show ?thesis
    using Some update_first_marks [where f = "\<lambda>r. (tq_id r, tq_state r, tq_version r)"]
    by (simp add: row_marks_def set_request_def find_request_def)
qed (simp add: decide_request_def)

lemma applied_spends:
  assumes "decide_request clock ident dc d = (d1, Inr res)" and "er_status res = 200" and "\<not> er_idempotent res"
  shows "de_nonce dc \<in> set (hb_consumed d1)"
proof (cases "find_request d ident")
  case None
  then show ?thesis using assms by (auto simp: decide_request_def result_of_def)
next
  case (Some r)
  obtain r1 x where x: "decide clock (is_nonce_consumed d) r dc = (r1, x)" by fastforce
  then have res: "x = Inr res" using assms(1) Some by (cases x) (simp_all add: decide_request_def Let_def)
  then have "may_decide (is_nonce_consumed d) r dc"
    using decide_ends [of clock "is_nonce_consumed d" r dc] assms(2,3) by (auto simp: decide_outcome_def x applied_now_def)
  then have "\<not> is_nonce_consumed d (de_nonce dc)" "de_nonce dc \<noteq> PNone"
    by (auto simp: may_decide_def truthy_def)
  then show ?thesis
    using assms Some x res by (auto simp: decide_request_def Let_def set_request_def consume_nonce_def)
qed

lemma answered_200:
  assumes "handle_decide micros clock body d = (d1, Inr (200, payload))" and "(''idempotent'', PBool True) \<notin> set payload"
    and "read_decide body = Inr a"
  shows "da_nonce a \<in> set (hb_consumed d1)"
proof -
  obtain c where c: "classify_any d (da_credential a) = Inr c"
    using assms(1,3) by (cases "classify_any d (da_credential a)") (simp_all add: handle_decide_def)
  have fine: "\<not> note_too_long (da_note a)" using assms(1,3) c by (auto simp: handle_decide_def)
  obtain d2 x where x: "decide_request micros (da_request_id a) (decision_of clock a c) d = (d2, x)" by fastforce
  obtain res where res: "x = Inr res" using assms(1,3) c fine x by (cases x) (simp_all add: handle_decide_def)
  then have d2: "d2 = d1" and pay: "decide_payload res = (200, payload)"
    using assms(1,3) c fine x by (simp_all add: handle_decide_def)
  have "er_status res = 200" using pay by (auto simp: decide_payload_def split: if_splits)
  moreover have "\<not> er_idempotent res"
    using pay assms(2) by (auto simp: decide_payload_def key_if_def split: if_splits)
  ultimately show ?thesis
    using applied_spends [of micros "da_request_id a" "decision_of clock a c" d d1 res] x d2 res by (simp add: decision_of_def)
qed

text \<open>A list that is refused does no more than raise the counter of its code.\<close>

lemma refused_gap:
  assumes "validate_missing_tools v = Inl reason"
  shows "record_gap_report name v pid now d = (case find_runner d name of None \<Rightarrow> (d, Inl ''unknown_runner'')
      | Some r \<Rightarrow> (set_runner name (note_rejection reason) d, Inl reason))"
  using assms by (simp add: record_gap_report_def split: option.split)

lemma refused_stage:
  assumes "validate_missing_tools v = Inl reason" and "validate_missing_tools w = Inl reason"
  shows "gap_stage name (b\<lparr>hm_missing_tools := Some v\<rparr>) clock d = gap_stage name (b\<lparr>hm_missing_tools := Some w\<rparr>) clock d"
  by (simp add: gap_stage_def refused_gap [OF assms(1)] refused_gap [OF assms(2)] accepted_gap_list_def Let_def
      split: option.split)

lemma take_health_list: "take_health (b\<lparr>hm_missing_tools := x\<rparr>) = take_health b"
  by (simp add: take_health_def fun_eq_iff)

lemma no_list_keeps: "tq_id (fst (evidence_row lane reported None complete now r)) = tq_id r
    \<and> tq_state (fst (evidence_row lane reported None complete now r)) = tq_state r
    \<and> tq_version (fst (evidence_row lane reported None complete now r)) = tq_version r"
  by (simp add: evidence_row_def converge_or_clear_def regress_if_reported_def probe_passes_def Let_def append_history_def)

lemma refused_keeps_marks:
  assumes "validate_missing_tools v = Inl reason"
  shows "row_marks (fst (do_heartbeat name presented (b\<lparr>hm_missing_tools := Some v\<rparr>) clock d)) = row_marks d"
proof -
  let ?b = "b\<lparr>hm_missing_tools := Some v\<rparr>"
  let ?d0 = "set_runner name (take_health ?b (clock 0)) d"
  obtain d1 recorded rejection accepted where g: "gap_stage name ?b clock ?d0 = (d1, recorded, rejection, accepted)"
    by (metis prod_cases4)
  have "hb_requests d1 = hb_requests d \<and> accepted = None"
    using g by (auto simp: gap_stage_def refused_gap [OF assms] accepted_gap_list_def note_gap_coverage_def Let_def
        set_runner_requests split: option.splits)
  then have "row_marks (fst (note_lane_evidence name digest accepted now complete d1)) = row_marks d" for digest now complete
    by (simp add: row_marks_def note_lane_evidence_def Let_def set_runner_requests no_list_keeps comp_def)
  then show ?thesis
    by (simp add: do_heartbeat_def heartbeat_def g row_marks_def Let_def set_runner_requests split: option.split)
qed

section \<open>Properties\<close>

text \<open>
  C25: Whatever call the hub serves, a request row changes its state only through the guard of the table:
  from \<open>open\<close> to \<open>approved\<close> or \<open>denied\<close> by a decision presented with the secret of a stored operator
  credential of the deciding scope, an unspent nonce and the row's own version; from \<open>approved\<close> to
  \<open>built\<close>, or back to \<open>open\<close>, by a report presented with a builder's secret for the row's profile and
  version; to \<open>fulfilled\<close> or out of it by the heartbeat of the row's own lane under its token, with a gap
  list that was accepted and, to fulfil, the digest that was built.
\<close>

theorem request_moves:
  assumes "i < length (hb_requests d)"
    and "tq_state (hb_requests (run_call c d) ! i) \<noteq> tq_state (hb_requests d ! i)"
  shows "entitled c d (hb_requests d ! i) (tq_state (hb_requests (run_call c d) ! i))"
proof (cases c)
  case (Call_Heartbeat name presented b clock)
  then show ?thesis using heartbeat_moves [OF assms(1)] assms(2) by simp
next
  case (Call_Decide micros clock body)
  from decide_route [of micros clock body d] obtain a info where a: "read_decide body = Inr a"
    "classify_any d (da_credential a) = Inr info"
    "fst (handle_decide micros clock body d) = fst (decide_request micros (da_request_id a) (decision_of clock a info) d)"
    using assms Call_Decide by auto
  have "de_action (decision_of clock a info) = da_action a" by (simp add: decision_of_def)
  then show ?thesis
    using decide_moves [OF assms(1), of micros "da_request_id a" "decision_of clock a info"] assms(2) a Call_Decide
    by (cases info) (auto simp: entitled_def)
next
  case (Call_Report clock body)
  from report_route [of clock body d] obtain a info where a: "read_report body = Inr a"
    "classify_any d (ra_credential a) = Inr info"
    "fst (handle_build_report clock body d) = fst (report_build (ra_request_id a) (build_report_of clock a info) d)"
    using assms Call_Report by auto
  then show ?thesis
    using report_moves [OF assms(1), of "ra_request_id a" "build_report_of clock a info"] assms(2) Call_Report
    by (cases info) (auto simp: entitled_def)
qed (use assms(2) in \<open>simp_all add: other_calls_keep\<close>)

text \<open>
  C29: In every document the hub reaches from an empty one, request ids are unique, a lane has one request
  per tool and the tool is a word of the vocabulary; and if no call denied a request at a date whose
  suppression window lies past the year 9999, the state and version of every row are where the path of its
  history ends, entry by entry in the table of transitions, with consecutive sequence numbers.
\<close>

theorem requests_accounted:
  assumes "hub_step\<^sup>*\<^sup>* (fresh_hub salt) d"
  shows "distinct (map tq_id (hb_requests d)) \<and> distinct (map (\<lambda>r. (tq_lane r, tq_tool r)) (hb_requests d))
    \<and> (\<forall>r\<in>set (hb_requests d). tq_tool r \<in> set vocabulary)
    \<and> (dated_step\<^sup>*\<^sup>* (fresh_hub salt) d \<longrightarrow>
         (\<forall>r\<in>set (hb_requests d). history_leads (tq_history r) (tq_state r) (tq_version r)))"
  using trail.reachable_keeps [OF assms fresh_ok] paths.reachable_keeps [of "fresh_hub salt" d] fresh_ok fresh_paths
  by (auto simp: hub_ok_def trail_ok_def paths_ok_def row_path_def request_key_def [abs_def])

text \<open>
  C26: The state of a row rests on its trail: the moves of an approved row end in an approval, of a built row
  in an approval and a build, of a fulfilled row in approval, build and convergence, and every decision and
  every build of the trail names a credential the hub holds of the class its guard asks for.
\<close>

theorem state_rests_on_trail:
  assumes "hub_step\<^sup>*\<^sup>* (fresh_hub salt) d" and "r \<in> set (hb_requests d)"
  shows "ends_in (led_by (tq_state r)) (moves_of (tq_history r))
    \<and> (\<forall>a\<in>set (tq_history r). entry_backed (hb_credentials d) a)"
  using trail.reachable_keeps [OF assms(1) fresh_ok] assms(2)
  by (auto simp: hub_ok_def trail_ok_def row_kept_def)

text \<open>
  C27: A request once made is there for good: after any further calls it has the same id, lane, tool and
  profile, its history begins with the history it had, and its version has not gone down.
\<close>

theorem audit_trail_only_grows:
  assumes "hub_step\<^sup>*\<^sup>* (fresh_hub salt) d" and "hub_step\<^sup>*\<^sup>* d d'" and "r \<in> set (hb_requests d)"
  shows "\<exists>r'\<in>set (hb_requests d'). same_identity r r' \<and> take (length (tq_history r)) (tq_history r') = tq_history r
    \<and> tq_version r \<le> tq_version r'"
  using trail_row [OF trail.reachable_mono [OF assms(2) trail.reachable_keeps [OF assms(1) fresh_ok]] assms(3)] .

text \<open>
  C28: A nonce decides once: after a decision was applied with a nonce, and any further calls, a decision
  with the same nonce, on whatever request, moves no row.
\<close>

theorem nonce_decides_once:
  assumes "hub_step\<^sup>*\<^sup>* (fresh_hub salt) d"
    and "handle_decide micros clock body d = (d1, Inr (200, payload))" and "(''idempotent'', PBool True) \<notin> set payload"
    and "read_decide body = Inr a" and "da_nonce a = PStr nonce"
    and "hub_step\<^sup>*\<^sup>* d1 d2"
    and "read_decide body' = Inr a'" and "da_nonce a' = PStr nonce"
  shows "row_marks (fst (handle_decide micros' clock' body' d2)) = row_marks d2"
proof -
  have "hub_step d d1" using hub_step.call [of d "Call_Decide micros clock body"] assms(2) by simp
  then have "hub_ok d1" using step_ok trail.reachable_keeps [OF assms(1) fresh_ok] by blast
  moreover have "PStr nonce \<in> set (hb_consumed d1)" using answered_200 [OF assms(2-4)] assms(5) by simp
  ultimately have "PStr nonce \<in> set (hb_consumed d2)"
    using spent.reachable_keeps [OF assms(6), of "PStr nonce"] by blast
  then have "is_nonce_consumed d2 (da_nonce a')" using assms(8)
    unfolding is_nonce_consumed_def list_ex_iff by (auto intro!: bexI [of _ "PStr nonce"])
  then show ?thesis
    using decide_route [of micros' clock' body' d2] assms(7) spent_decision_marks [of d2 "decision_of clock' a' c" for c]
    by (auto simp: decision_of_def)
qed

text \<open>
  C30: A refused gap list leaves nothing of itself: two heartbeats that differ only in lists refused for the
  same reason leave the same document and get the same answer, and no row is made or moved.
\<close>

theorem refused_list_leaves_nothing:
  assumes "validate_missing_tools v = Inl reason" and "validate_missing_tools w = Inl reason"
  shows "do_heartbeat name presented (b\<lparr>hm_missing_tools := Some v\<rparr>) clock d
      = do_heartbeat name presented (b\<lparr>hm_missing_tools := Some w\<rparr>) clock d
    \<and> row_marks (fst (do_heartbeat name presented (b\<lparr>hm_missing_tools := Some v\<rparr>) clock d)) = row_marks d"
proof
  have "heartbeat name (b\<lparr>hm_missing_tools := Some v\<rparr>) clock d = heartbeat name (b\<lparr>hm_missing_tools := Some w\<rparr>) clock d"
    by (cases "find_runner d name"; cases "gap_stage name (b\<lparr>hm_missing_tools := Some w\<rparr>) clock
        (set_runner name (take_health b (clock 0)) d)")
      (simp_all add: heartbeat_def refused_stage [OF assms] take_health_list)
  then show "do_heartbeat name presented (b\<lparr>hm_missing_tools := Some v\<rparr>) clock d
      = do_heartbeat name presented (b\<lparr>hm_missing_tools := Some w\<rparr>) clock d"
    by (simp add: do_heartbeat_def)
qed (rule refused_keeps_marks [OF assms(1)])

end
