(* ===== verification/Toolchain_Example.thy ===== *)
theory Toolchain_Example
  imports Toolchain_Safety
begin

text \<open>
  One lane, one operator: a lane enrolls and reports \<open>cargo\<close> missing, the operator approves or denies. The
  properties of \<open>Toolchain_Safety\<close> are applied to these documents. The digests of the two secrets are
  left as they are; each secret is only ever compared with its own.
\<close>

definition ex_now :: string where
  "ex_now = ''2026-01-01T00:00:00Z''"

definition ex_clock :: "nat \<Rightarrow> string" where
  "ex_clock n = ex_now"

definition ex_body :: "pyval \<Rightarrow> heartbeat_body" where
  "ex_body missing = \<lparr>hm_last_job_seen = None, hm_disk_ok = Some True, hm_podman_ok = Some True,
     hm_image_digest = None, hm_image_reason = None, hm_image_pin_divergence = None, hm_scan_state = None,
     hm_missing_tools = Some missing, hm_probe_complete = Some True, hm_address = None, hm_lane_image_digest = None\<rparr>"

definition ex_calls :: "hub_call list" where
  "ex_calls =
     [Call_Credential ''operator'' ''op'' ''cred-1'' (Some decide_scope) (Some ''alice'') None None,
      Call_Token ''tok'',
      Call_Enroll ''tok'' ''lane-a'' ''owner/repo'' [] ''host-a'' None ''github'' ''hb'' ex_now]"

definition ex_lane :: lane_runner where
  "ex_lane = new_runner (fresh_hub ''salt'') ''lane-a'' ''owner/repo'' [] ''host-a'' None ''github'' ''hb'' ex_now"

definition ex_hub :: hub_data where
  "ex_hub = \<lparr>hb_salt = ''salt'', hb_enrollment_tokens = [], hb_runners = [ex_lane], hb_requests = [],
     hb_credentials = [\<lparr>kc_class = ''operator'', kc_credential_id = ''cred-1'',
       kc_secret_hash = hash_secret (fresh_hub ''salt'') ''op'', kc_scope = Some decide_scope,
       kc_principal = Some ''alice'', kc_runner_name = None, kc_builder_identity = None\<rparr>],
     hb_consumed = []\<rparr>"

lemma hash_salt: "hash_secret d s = ''sha256:'' @ hexdigest (utf8 (hb_salt d @ s))"
  by (rule hash_secret_def)

lemma ex_hub_built: "fold run_call ex_calls (fresh_hub ''salt'') = ex_hub"
  by (simp add: ex_calls_def fresh_hub_def add_credential_def add_enrollment_token_def do_enroll_def find_runner_def
      consume_enrollment_token_def token_matches_def ex_hub_def ex_lane_def new_runner_def hash_salt)

lemma calls_reach: "hub_step\<^sup>*\<^sup>* d (fold run_call cs d)"
proof (induction cs arbitrary: d)
  case (Cons c cs)
  show ?case using converse_rtranclp_into_rtranclp [OF hub_step.call Cons.IH] by simp
qed simp

text \<open>The lane reports \<open>cargo\<close> missing.\<close>

definition ex_report :: hub_call where
  "ex_report = Call_Heartbeat ''lane-a'' ''hb'' (ex_body (PList [PStr ''cargo''])) ex_clock"

definition ex_row :: tool_request where
  "ex_row = new_request_row ''lane-a'' ''cargo'' None ex_now ''tcr-0001''"

definition ex_lane_open :: lane_runner where
  "ex_lane_open = ex_lane\<lparr>rn_last_heartbeat := Some ex_now, rn_disk_ok := Some True, rn_podman_ok := Some True,
     rn_coverage := Some ''reported'', rn_last_gap_report_at := Some ex_now\<rparr>"

definition ex_open :: hub_data where
  "ex_open = ex_hub\<lparr>hb_runners := [ex_lane_open], hb_requests := [ex_row]\<rparr>"

lemma ex_list: "validate_missing_tools (PList [PStr ''cargo'']) = Inr [''cargo'']"
  by (simp add: validate_missing_tools_def vocabulary_def missing_tools_max_entries_def)

lemma ex_verified: "verify_heartbeat_token ex_hub ''lane-a'' ''hb''" "verify_heartbeat_token ex_open ''lane-a'' ''hb''"
  by (simp_all add: verify_heartbeat_token_def find_runner_def ex_hub_def ex_open_def ex_lane_open_def ex_lane_def
      new_runner_def verify_secret_def given_def hash_salt fresh_hub_def)

lemma ex_next_id: "next_request_id [] = ''tcr-0001''"
  by code_simp

lemma ex_open_built: "run_call ex_report ex_hub = ex_open"
proof -
  have "run_call ex_report ex_hub = fst (heartbeat ''lane-a'' (ex_body (PList [PStr ''cargo''])) ex_clock ex_hub)"
    by (simp add: ex_report_def do_heartbeat_def ex_verified)
  also have "\<dots> = ex_open"
    by (simp add: heartbeat_def find_runner_def ex_hub_def ex_lane_def new_runner_def set_runner_def take_health_def
        ex_body_def gap_stage_def note_gap_coverage_def record_gap_report_def ex_list is_known_profile_def dedupe_def
        record_tool_def ex_next_id note_lane_evidence_def lane_digest_def evidence_row_def new_request_row_def
        ex_open_def ex_lane_open_def ex_row_def news_def reported_or_def ex_clock_def accepted_gap_list_def Let_def)
  finally show ?thesis .
qed

lemma ex_open_reached: "hub_step\<^sup>*\<^sup>* (fresh_hub ''salt'') ex_open"
  using calls_reach [of "fresh_hub ''salt''" "ex_calls @ [ex_report]"] by (simp add: ex_hub_built ex_open_built)

section \<open>Decisions\<close>

text \<open>The operator decides with the secret \<open>op\<close>; the note is what a denial needs.\<close>

definition ex_decision :: "string \<Rightarrow> string \<Rightarrow> pyval" where
  "ex_decision action nonce = PDict
     [(''request_id'', PStr ''tcr-0001''), (''action'', PStr action), (''credential'', PStr ''op''),
      (''actor'', PStr ''alice''), (''nonce'', PStr nonce), (''timestamp'', PStr ex_now), (''note'', PStr ''as asked'')]"

definition ex_args :: "string \<Rightarrow> string \<Rightarrow> decide_args" where
  "ex_args action nonce = \<lparr>da_request_id = ''tcr-0001'', da_action = action, da_credential = PStr ''op'',
     da_actor = PStr ''alice'', da_principal = PNone, da_timestamp = PStr ex_now, da_nonce = PStr nonce,
     da_expected_version = PNone, da_note = Some ''as asked''\<rparr>"

definition ex_info :: "string option \<times> credential_info" where
  "ex_info = (Some ''operator'', \<lparr>ci_scope = Some decide_scope, ci_principal = Some ''alice'',
     ci_credential_id = Some ''cred-1'', ci_builder_identity = None\<rparr>)"

lemma ex_read: "read_decide (ex_decision ''approve'' nonce) = Inr (ex_args ''approve'' nonce)"
  "read_decide (ex_decision ''deny'' nonce) = Inr (ex_args ''deny'' nonce)"
  by (simp_all add: read_decide_def ex_decision_def ex_args_def py_get_def given_def text_of_def is_text_def)

lemma ex_classified: "hb_credentials d = hb_credentials ex_hub \<Longrightarrow> hb_salt d = ''salt'' \<Longrightarrow>
    classify_any d (PStr ''op'') = Inr ex_info"
  by (simp add: classify_any_def truthy_def classify_secret_def match_stored_def ex_hub_def verify_secret_def given_def
      hash_salt fresh_hub_def ex_info_def)

definition ex_audit :: audit_row where
  "ex_audit = audit_record ex_row ex_now (PStr ''alice'') (PStr ''alice'') (Some ''cred-1'') ''decide-approve''
     ''open'' ''approved'' 1 2 (Some ''as asked'')"

definition ex_row_approved :: tool_request where
  "ex_row_approved = ex_row\<lparr>tq_state := ''approved'', tq_version := 2, tq_actor := PStr ''alice'',
     tq_principal := PStr ''alice'', tq_credential_id := Some ''cred-1'', tq_decided_at := Some ex_now,
     tq_decision_note := Some ''as asked'', tq_nonces := [PStr ''n1''], tq_history := tq_history ex_row @ [ex_audit]\<rparr>"

definition ex_approved :: hub_data where
  "ex_approved = ex_open\<lparr>hb_requests := [ex_row_approved], hb_consumed := [PStr ''n1'']\<rparr>"

definition ex_answer :: "(string \<times> pyval) list" where
  "ex_answer = [(''ok'', PBool True), (''state'', PStr ''approved''), (''version'', PInt 2)]"

lemma ex_approve: "handle_decide 0 ex_now (ex_decision ''approve'' ''n1'') ex_open = (ex_approved, Inr (200, ex_answer))"
proof -
  have found: "find_request ex_open ''tcr-0001'' = Some ex_row"
    by (simp add: find_request_def ex_open_def ex_row_def new_request_row_def)
  have info: "classify_any ex_open (da_credential (ex_args ''approve'' ''n1'')) = Inr ex_info"
    by (simp add: ex_classified ex_open_def ex_hub_def ex_args_def)
  let ?d = "decision_of ex_now (ex_args ''approve'' ''n1'') ex_info"
  have d: "?d = \<lparr>de_action = ''approve'', de_class = Some ''operator'', de_scope = Some decide_scope,
      de_credential_id = Some ''cred-1'', de_actor = PStr ''alice'', de_principal = PStr ''alice'',
      de_nonce = PStr ''n1'', de_expected_version = PNone, de_note = Some ''as asked'', de_now = ex_now\<rparr>"
    by (simp add: decision_of_def ex_args_def ex_info_def as_py_def body_stamp_def given_def text_of_def ex_now_def)
  have rule: "rule_to ''open'' ''decide-approve'' = Some ''approved''" by simp
  have free: "\<not> is_nonce_consumed ex_open (PStr ''n1'')" by (simp add: is_nonce_consumed_def ex_open_def ex_hub_def)
  have applied: "decide 0 (is_nonce_consumed ex_open) ex_row ?d
      = (ex_row_approved, Inr ((result_of 200 None)\<lparr>er_version := Some 2, er_state := Some ''approved''\<rparr>))"
    by (simp add: decide_def d free rule truthy_def note_too_long_def decision_note_max_chars_def decide_event_def
        apply_decision_def append_history_def ex_row_approved_def ex_audit_def ex_row_def new_request_row_def
        audit_record_def Let_def)
  have nonce: "de_nonce ?d = PStr ''n1''" by (simp add: d)
  have "decide_request 0 ''tcr-0001'' ?d ex_open
      = (set_request ''tcr-0001'' (\<lambda>_. remember_nonce (PStr ''n1'') ex_row_approved) (consume_nonce (PStr ''n1'') ex_open),
         Inr ((result_of 200 None)\<lparr>er_version := Some 2, er_state := Some ''approved''\<rparr>))"
    by (simp add: decide_request_def found applied Let_def result_of_def nonce)
  moreover have "set_request ''tcr-0001'' (\<lambda>_. remember_nonce (PStr ''n1'') ex_row_approved) (consume_nonce (PStr ''n1'') ex_open)
      = ex_approved"
    using free by (simp add: consume_nonce_def remember_nonce_def ex_row_approved_def set_request_def ex_approved_def
        ex_open_def ex_row_def new_request_row_def ex_hub_def)
  moreover have "da_request_id (ex_args ''approve'' ''n1'') = ''tcr-0001''" "da_note (ex_args ''approve'' ''n1'') = Some ''as asked''"
    by (simp_all add: ex_args_def)
  ultimately show ?thesis
    by (simp add: handle_decide_def ex_read info note_too_long_def decision_note_max_chars_def decide_payload_def
        result_of_def key_if_def given_def int_or_none_def as_py_def ex_answer_def)
qed

lemma ex_approved_reached: "hub_step\<^sup>*\<^sup>* (fresh_hub ''salt'') ex_approved"
proof -
  have "hub_step ex_open (run_call (Call_Decide 0 ex_now (ex_decision ''approve'' ''n1'')) ex_open)"
    by (rule hub_step.call)
  then have "hub_step ex_open ex_approved" by (simp add: ex_approve)
  then show ?thesis using ex_open_reached by (rule rtranclp.rtrancl_into_rtrancl [rotated])
qed

text \<open>The same decision the other way: a denial.\<close>

definition ex_denied :: hub_data where
  "ex_denied = run_call (Call_Decide 0 ex_now (ex_decision ''deny'' ''n1'')) ex_open"

lemma ex_denied_reached: "hub_step\<^sup>*\<^sup>* (fresh_hub ''salt'') ex_denied"
proof -
  have "hub_step ex_open ex_denied" unfolding ex_denied_def by (rule hub_step.call)
  then show ?thesis using ex_open_reached by (rule rtranclp.rtrancl_into_rtrancl [rotated])
qed

text \<open>The denial is dated: its window ends in the calendar.\<close>

lemma dated_reach: "list_all dated cs \<Longrightarrow> dated_step\<^sup>*\<^sup>* d (fold run_call cs d)"
proof (induction cs arbitrary: d)
  case (Cons c cs)
  then show ?case using converse_rtranclp_into_rtranclp [OF dated_step.call [of c d] Cons.IH] by simp
qed simp

lemma ex_instant: "strp_zulu ex_now = Some 63902822400000000"
  by (simp add: strp_zulu_def cut_at_def ex_now_def strp_year_def strp_number_def strp_day_def is_digit_def num_of_def
      digit_val_def code_def valid_ymd_def days_in_month_simps ymd2ord_def days_before_month_simps days_before_year_def
      day_us_def second_us_def Let_def)

lemma ex_window: "\<exists>w. suppress_until 0 ex_now = Inr w"
  by (simp add: suppress_until_def ex_instant in_calendar_def max_us_def day_us_def tool_request_suppression_days_def
      max_ordinal_def)

lemma ex_denied_dated: "dated_step\<^sup>*\<^sup>* (fresh_hub ''salt'') ex_denied"
proof -
  let ?deny = "Call_Decide 0 ex_now (ex_decision ''deny'' ''n1'')"
  have "de_now (decision_of ex_now (ex_args ''deny'' ''n1'') c) = ex_now" for c
    by (simp add: decision_of_def body_stamp_def ex_args_def given_def text_of_def ex_now_def)
  then have "dated ?deny" using ex_window by (auto simp: dated_def ex_read datable_def)
  moreover have "list_all dated (ex_calls @ [ex_report])" by (simp add: ex_calls_def ex_report_def dated_def)
  ultimately have "list_all dated (ex_calls @ [ex_report, ?deny])" by simp
  from dated_reach [OF this, of "fresh_hub ''salt''"] show ?thesis
    by (simp add: ex_hub_built ex_open_built ex_denied_def)
qed

lemma ex_rows: "hb_requests ex_open = [ex_row]" "hb_requests ex_approved = [ex_row_approved]"
  by (simp_all add: ex_open_def ex_approved_def)

lemma ex_denied_row: "\<exists>r. hb_requests ex_denied = [r] \<and> tq_id r = ''tcr-0001'' \<and> tq_state r = ''denied''"
proof -
  let ?d = "decision_of ex_now (ex_args ''deny'' ''n1'') ex_info"
  have d: "?d = \<lparr>de_action = ''deny'', de_class = Some ''operator'', de_scope = Some decide_scope,
      de_credential_id = Some ''cred-1'', de_actor = PStr ''alice'', de_principal = PStr ''alice'',
      de_nonce = PStr ''n1'', de_expected_version = PNone, de_note = Some ''as asked'', de_now = ex_now\<rparr>"
    by (simp add: decision_of_def ex_args_def ex_info_def as_py_def body_stamp_def given_def text_of_def ex_now_def)
  have rule: "rule_to ''open'' ''decide-deny'' = Some ''denied''" by simp
  have free: "\<not> is_nonce_consumed ex_open (PStr ''n1'')" by (simp add: is_nonce_consumed_def ex_open_def ex_hub_def)
  have open_row: "tq_state ex_row = ''open''" "tq_id ex_row = ''tcr-0001''" by (simp_all add: ex_row_def new_request_row_def)
  have applied: "decide 0 (is_nonce_consumed ex_open) ex_row ?d = apply_decision 0 ex_row ?d ''denied''"
    by (simp add: decide_def d free rule truthy_def note_too_long_def decision_note_max_chars_def decide_event_def
        given_def open_row)
  have found: "find_request ex_open ''tcr-0001'' = Some ex_row"
    by (simp add: find_request_def ex_open_def ex_row_def new_request_row_def)
  have nonce: "de_nonce ?d = PStr ''n1''" by (simp add: d)
  have args: "da_credential (ex_args ''deny'' ''n1'') = PStr ''op''" "da_note (ex_args ''deny'' ''n1'') = Some ''as asked''"
    "da_request_id (ex_args ''deny'' ''n1'') = ''tcr-0001''"
    by (simp_all add: ex_args_def)
  have info: "classify_any ex_open (PStr ''op'') = Inr ex_info" by (simp add: ex_classified ex_open_def ex_hub_def)
  obtain r1 x where x: "apply_decision 0 ex_row ?d ''denied'' = (r1, x)" by fastforce
  have r1: "tq_state r1 = ''denied''" "tq_id r1 = ''tcr-0001''"
    using applied_state(1) [of 0 ex_row ?d "''denied''"] x open_row
    by (auto simp: apply_decision_def Let_def append_history_def split: sum.splits)
  show ?thesis
  proof (cases x)
    case (Inl e)
    then have hub: "ex_denied = set_request ''tcr-0001'' (\<lambda>_. r1) ex_open"
      by (simp add: ex_denied_def handle_decide_def ex_read args info note_too_long_def decision_note_max_chars_def
          decide_request_def found applied x)
    have "hb_requests ex_denied = [r1]" unfolding hub using open_row by (simp add: set_request_def ex_rows)
    then show ?thesis using r1 by blast
  next
    case (Inr res)
    then have hub: "ex_denied = set_request ''tcr-0001'' (\<lambda>_. if er_status res = 200 then remember_nonce (PStr ''n1'') r1 else r1)
        (if er_status res = 200 \<and> \<not> er_idempotent res then consume_nonce (PStr ''n1'') ex_open else ex_open)"
      by (simp add: ex_denied_def handle_decide_def ex_read args info note_too_long_def decision_note_max_chars_def
          decide_request_def found applied x nonce Let_def)
    have "hb_requests (if c then consume_nonce n ex_open else ex_open) = [ex_row]" for c n by (simp add: ex_rows)
    then have "hb_requests ex_denied = [if er_status res = 200 then remember_nonce (PStr ''n1'') r1 else r1]"
      unfolding hub using open_row by (simp add: set_request_def)
    then show ?thesis using r1 by simp
  qed
qed

section \<open>The properties at these documents\<close>

lemma request_moves_witness: "entitled (Call_Decide 0 ex_now (ex_decision ''approve'' ''n1'')) ex_open ex_row ''approved''"
  using request_moves [of 0 ex_open "Call_Decide 0 ex_now (ex_decision ''approve'' ''n1'')"]
  by (simp add: ex_approve ex_rows ex_row_approved_def ex_row_def new_request_row_def)

lemma requests_accounted_witness: "\<exists>r. hb_requests ex_denied = [r]
    \<and> history_leads (tq_history r) ''denied'' (tq_version r)"
proof -
  obtain r where r: "hb_requests ex_denied = [r]" "tq_state r = ''denied''"
    using ex_denied_row by blast
  then have "r \<in> set (hb_requests ex_denied)" by simp
  then have "history_leads (tq_history r) (tq_state r) (tq_version r)"
    using requests_accounted [OF ex_denied_reached] ex_denied_dated by blast
  then show ?thesis using r by auto
qed

lemma state_rests_on_trail_witness: "ends_in (led_by ''approved'') (moves_of (tq_history ex_row_approved))
    \<and> operator_credential (hb_credentials ex_approved) (Some ''cred-1'')"
proof -
  have "ex_row_approved \<in> set (hb_requests ex_approved)" by (simp add: ex_rows)
  note t = state_rests_on_trail [OF ex_approved_reached this]
  have "ex_audit \<in> set (tq_history ex_row_approved)" by (simp add: ex_row_approved_def)
  then have "entry_backed (hb_credentials ex_approved) ex_audit" using t by blast
  then have "operator_credential (hb_credentials ex_approved) (Some ''cred-1'')"
    by (simp add: entry_backed_def ex_audit_def audit_record_def decide_events_def)
  moreover have "tq_state ex_row_approved = ''approved''" by (simp add: ex_row_approved_def)
  ultimately show ?thesis using t by simp
qed

lemma audit_trail_only_grows_witness: "take (length (tq_history ex_row)) (tq_history ex_row_approved) = tq_history ex_row
    \<and> tq_version ex_row \<le> tq_version ex_row_approved"
proof -
  have "hub_step ex_open (run_call (Call_Decide 0 ex_now (ex_decision ''approve'' ''n1'')) ex_open)"
    by (rule hub_step.call)
  then have "hub_step\<^sup>*\<^sup>* ex_open ex_approved" by (simp add: ex_approve r_into_rtranclp)
  from audit_trail_only_grows [OF ex_open_reached this, of ex_row] show ?thesis by (simp add: ex_rows)
qed

lemma nonce_decides_once_witness:
  "row_marks (fst (handle_decide 0 ex_now (ex_decision ''deny'' ''n1'') ex_approved)) = [(''tcr-0001'', ''approved'', 2)]"
proof -
  have "da_nonce (ex_args ''approve'' ''n1'') = PStr ''n1''" "da_nonce (ex_args ''deny'' ''n1'') = PStr ''n1''"
    "(''idempotent'', PBool True) \<notin> set ex_answer"
    by (simp_all add: ex_args_def ex_answer_def)
  then have "row_marks (fst (handle_decide 0 ex_now (ex_decision ''deny'' ''n1'') ex_approved)) = row_marks ex_approved"
    using nonce_decides_once [OF ex_open_reached ex_approve _ ex_read(1) _ rtranclp.rtrancl_refl ex_read(2)] by blast
  then show ?thesis by (simp add: row_marks_def ex_rows ex_row_approved_def ex_row_def new_request_row_def)
qed

lemma ex_refused: "validate_missing_tools (PList [PStr ''Cargo'']) = Inl ''missing_tools_outside_vocabulary''"
  "validate_missing_tools (PList [PStr ''rm -rf'']) = Inl ''missing_tools_outside_vocabulary''"
  by (simp_all add: validate_missing_tools_def vocabulary_def missing_tools_max_entries_def)

lemma refused_list_leaves_nothing_witness:
  "do_heartbeat ''lane-a'' ''hb'' (ex_body (PList [PStr ''Cargo''])) ex_clock ex_hub
   = do_heartbeat ''lane-a'' ''hb'' (ex_body (PList [PStr ''rm -rf''])) ex_clock ex_hub"
proof -
  have "ex_body v = (ex_body PNone)\<lparr>hm_missing_tools := Some v\<rparr>" for v by (simp add: ex_body_def)
  then show ?thesis
    using refused_list_leaves_nothing [OF ex_refused, of "''lane-a''" "''hb''" "ex_body PNone" ex_clock ex_hub] by metis
qed

end
