(* ===== verification/Spec2Isabelle.thy ===== *)
theory Spec2Isabelle
  imports Runner_Example State_Example Toolchain_Example
begin

text \<open>
  \<^bold>\<open>A verification library of the fleet manager and of the hub's tool requests\<close>
  (\<open>src/fleet-manager/fleet_manager\<close> and \<open>src/hub\<close>, Python).

  \<^bold>\<open>The program.\<close> The fleet manager keeps the desired state of a fleet of CI runner hosts and decides
  what may change. \<open>model.py\<close> holds the aggregate \<open>DesiredState\<close> and its transitions; \<open>plan.py\<close>
  turns a list of changes into a plan by simulating it; \<open>apply.py\<close> carries a plan out once per
  idempotency key, under the scopes of \<open>auth.py\<close>, and writes the append-only log of \<open>audit.py\<close>.
  \<open>observation.py\<close> and \<open>reconcile.py\<close> compare the desired state with host reports and propose a
  bounded batch of the same changes. \<open>adapters.py\<close> and \<open>lifecycle.py\<close> are the contract of a runner:
  pinned images, warm stock, one job per instance, cleanup evidence and the admission gate.
  \<open>channel.py\<close> is the manager's side of the host-agent channel: enrollment, rotation, revocation and
  signed reports. \<open>documents.py\<close> writes a desired state as a document and reads it back, and \<open>state.py\<close>
  signs that document for one host and checks it there. \<open>operations.py\<close> is what an agent may be told to do
  and what it answered, and \<open>contracts.py\<close> holds the documents that cross the boundary of the fleet.
  The hub is a second program. Its lanes enroll and send heartbeats (\<open>registry.py\<close>), a heartbeat may say
  which tools the lane's image lacks, and each missing tool is a request that an operator decides, a builder
  builds for and the lane's own evidence fulfils (the \<open>toolchain_*.py\<close> files).

  \<^bold>\<open>The theories.\<close>
  \<^item> \<open>Prelude\<close>: results (\<open>exn + 'a\<close>), Python values, strings, loops that may raise.
  \<^item> \<open>Py_Datetime\<close>: the calendar, \<open>datetime.fromisoformat\<close>, \<open>isoformat\<close>, offsets and overflow.
  \<^item> \<open>Py_Json\<close>: SHA-256, UTF-8, \<open>bytes.hex\<close> and \<open>json.dumps\<close>.
  \<^item> \<open>Py_Loads\<close> and \<open>Py_Roundtrip\<close>: \<open>json.loads\<close> with doubles and their \<open>repr\<close>, and that reading what
    was written gives the value back.
  \<^item> \<open>Interfaces\<close>: the contracts, as locales, that the components interpret.
  \<^item> \<open>Fleet_Model\<close>: \<open>model.py\<close>. One record per dataclass, one \<open>_make\<close> function per
    \<open>__post_init__\<close>, one function per method.
  \<^item> \<open>Fleet_Audit\<close>: \<open>auth.py\<close> and \<open>audit.py\<close>.
  \<^item> \<open>Fleet_Plan\<close>: \<open>plan.py\<close>. \<open>Fleet_Apply\<close>: \<open>apply.py\<close>.
  \<^item> \<open>Channel_Base\<close>: the scalar checks of \<open>channel.py\<close> that other components share. \<open>Fleet_Channel\<close>: its
    tokens, credentials, envelopes and documents. \<open>Agent_Channel\<close>: \<open>AgentChannel\<close>, its invariant and
    what no sequence of calls can undo. \<open>Channel_Reports\<close>: what holds of reports.
  \<^item> \<open>Fleet_Operations\<close>: \<open>operations.py\<close>, with the ledger as a board of work. \<open>Py_Schema\<close>: the schema
    checker \<open>hub/coherence/schemacheck.py\<close> that \<open>contracts.py\<close> imports; \<open>Schema_Reference\<close>: what a schema
    means, and that the checker decides it. \<open>Fleet_Contracts\<close>: \<open>contracts.py\<close> with the three schemas, and
    the receipt the manager builds.
  \<^item> \<open>Fleet_Documents\<close>: \<open>documents.py\<close>. \<open>Documents_Canonical\<close>: the readers do not depend on the order of
    the keys, and what JSON can carry of a state. \<open>Fleet_State\<close>: \<open>state.py\<close>.
  \<^item> \<open>Fleet_Adapters\<close> and \<open>Fleet_Containers\<close>: \<open>adapters.py\<close>. \<open>Fleet_Lifecycle\<close>: \<open>lifecycle.py\<close>.
  \<^item> \<open>Fleet_Reconcile\<close> and \<open>Fleet_Converge\<close>: \<open>observation.py\<close> and \<open>reconcile.py\<close>. \<open>Fleet_Submission\<close>: a
    reconciliation can be carried out, whatever part of it is submitted.
  \<^item> \<open>Toolchain_Requests\<close>: \<open>hub/toolchain_requests.py\<close> and the rows and the table of
    \<open>hub/toolchain_transitions.py\<close>. \<open>Toolchain_Engine\<close>: \<open>decide\<close>, \<open>report_build\<close> and the lane's evidence on one
    row. \<open>Toolchain_Registry\<close>: the hub's document with \<open>hub/registry.py\<close>, \<open>hub/toolchain_store.py\<close> and
    \<open>hub/toolchain_creds.py\<close>. \<open>Toolchain_Routes\<close>: the routes of \<open>hub/toolchain_api.py\<close> and one step of the
    hub, which is one call served under its lock. \<open>Toolchain_Rows\<close>: a row's history as a path through the table,
    and what an operation may do to a row. \<open>Toolchain_Steps\<close>: every call as a sequence of such changes, and the
    invariant. \<open>Toolchain_Safety\<close>: the properties.
  \<^item> \<open>Fleet_Example\<close>, \<open>Runner_Example\<close>, \<open>Channel_Example\<close>, \<open>Operations_Example\<close>, \<open>State_Example\<close> and
    \<open>Toolchain_Example\<close>: a concrete fleet, channel, ledger, signed state and hub, and the instances of the
    properties.

  \<^bold>\<open>How the model reads.\<close> A constructor that raises is a function into \<open>exn + 'a\<close>; the exception
  carries its class and its message, and \<open>except\<close> clauses select by class (\<^const>\<open>mapErr\<close>). A value a
  caller may pass with any type is a \<^typ>\<open>pyval\<close>; where a component only ever passes typed values the
  model takes the type and the \<open>isinstance\<close> refusals have no counterpart. Strings are over code
  points up to 255, and the long dash of some messages is written with two hyphens. Integers are
  unbounded, as in Python.
  Loops are structural or carry a termination proof. Fuel is in three places: the number format of
  \<open>Fleet_Containers\<close>, where 400 steps cover every exponent of a double; the decimal exponent of
  \<open>repr\<close>, where 700 do; and the JSON reader, which gets twice the length of the text and one more, and
  \<open>loads_fuel\<close> shows that more changes nothing. The schema checker takes the depth of the interpreter's
  stack, and \<open>contract_validate_decides\<close> shows that a contract needs more of it only to print what it refuses. The signature verifier is an argument, a function that
  answers or raises; nothing is assumed of it. The readings of a clock and the random tokens of the hub are
  arguments too.

  \<^bold>\<open>What the properties show.\<close> The state invariant holds in every reachable state; plans describe exactly
  what applying them does; a key is applied once and replays for good; refusals are recorded; a
  reconciliation drops nothing, respects every cap, makes progress, disturbs nothing that runs and can be planned in any
  order; warm stock stays warm; an
  instance runs one job, its lifecycle ends, and capacity is replaced only after a proof that some lifecycle
  accepted or a quarantine;
  container limits are bounded as they reach the container runtime. On the channel a report is accepted
  once and exactly under the documented conditions, a refused one burns nothing, a signature covers all
  a report says, a token is redeemed once, a key speaks for one host and a revocation is final. A
  desired state that is issued to a host is read there exactly as it was, and once superseded it is
  refused for good; a document that reads gives a valid state, and every state the fleet can reach can be
  stored. An operation is one of eight typed instructions, its first receipt is its receipt for good, and a contract
  document means what its schema lists, field by field. A tool request moves only through the guard of its
  table, its state rests on a trail that names the right credentials and only grows, a nonce decides once,
  and a refused gap list leaves nothing of itself.

  \<^bold>\<open>Not modelled.\<close> Of the hub, its sockets, files and threads, the bounds it puts on a heartbeat's body, the
  read-only views of the queue, the monitor, the coherence service but for its schema checker, and the forges.
  The scripts, engines, tools and benchmarks are separate programs around the two. Exhaustion of the
  interpreter's stack or memory is outside the model everywhere.
\<close>

end
